(* ===== verification/Prelude.thy ===== *)
theory Prelude
  imports Main
begin

text \<open>
  Vocabulary shared by all components: Go errors and panics as values, the sequencing of
  fallible calls, the traversal of a slice that stops at the first error, and generic lemmas
  about lists and first occurrences.

  A Go function that returns \<open>(T, error)\<close> and may panic becomes a function into
  \<open>'a res\<close>: \<open>Inr v\<close> is a normal return, \<open>Inl (Failed e)\<close> a returned error and
  \<open>Inl Panicked\<close> a run-time panic (nil dereference, write to a nil map, explicit panic).
\<close>

section \<open>Errors and panics\<close>

text \<open>
  \<open>Errorf m\<close> is an error made by \<open>fmt.Errorf\<close> from a message, \<open>Wrapped m e\<close> one made
  from \<open>"m: %s"\<close> and a cause, \<open>LibError m\<close> an error that a library call returned.
\<close>

datatype go_error = Errorf string | Wrapped string go_error | LibError string

primrec error_text :: "go_error \<Rightarrow> string" where
  "error_text (Errorf m) = m"
| "error_text (Wrapped m e) = m @ '': '' @ error_text e"
| "error_text (LibError m) = m"

datatype fault = Failed go_error | Panicked

type_synonym 'a res = "fault + 'a"

named_theorems res_simps \<open>equations that evaluate sequenced fallible calls\<close>

definition and_then :: "'e + 'a \<Rightarrow> ('a \<Rightarrow> 'e + 'b) \<Rightarrow> 'e + 'b" where
  "and_then m f = (case m of Inl e \<Rightarrow> Inl e | Inr x \<Rightarrow> f x)"

lemma and_then_simps [simp, res_simps]:
  "and_then (Inl e) f = Inl e"
  "and_then (Inr x) f = f x"
  by (simp_all add: and_then_def)

lemma and_then_Inr_iff [simp]: "and_then m f = Inr y \<longleftrightarrow> (\<exists>x. m = Inr x \<and> f x = Inr y)"
  by (cases m) auto

lemma and_then_Inl_iff:
  "and_then m f = Inl e \<longleftrightarrow> m = Inl e \<or> (\<exists>x. m = Inr x \<and> f x = Inl e)"
  by (cases m) auto

lemma and_then_cong [fundef_cong]:
  "m = m' \<Longrightarrow> (\<And>x. m' = Inr x \<Longrightarrow> f x = f' x) \<Longrightarrow> and_then m f = and_then m' f'"
  by (cases m') auto

text \<open>\<open>*p\<close> on a possibly nil pointer.\<close>

definition deref :: "'a option \<Rightarrow> 'a res" where
  "deref p = (case p of None \<Rightarrow> Inl Panicked | Some v \<Rightarrow> Inr v)"

lemma deref_simps [simp, res_simps]: "deref None = Inl Panicked" "deref (Some v) = Inr v"
  by (simp_all add: deref_def)

lemma deref_Inr_iff [simp]: "deref p = Inr v \<longleftrightarrow> p = Some v"
  by (cases p) auto

lemma deref_Inl_iff: "deref p = Inl f \<longleftrightarrow> p = None \<and> f = Panicked"
  by (cases p) auto

text \<open>\<open>fmt.Errorf("m: %s", err)\<close> around a call: panics pass through unchanged.\<close>

definition wrap :: "string \<Rightarrow> 'a res \<Rightarrow> 'a res" where
  "wrap m r = (case r of
     Inl (Failed e) \<Rightarrow> Inl (Failed (Wrapped m e))
   | Inl Panicked \<Rightarrow> Inl Panicked
   | Inr x \<Rightarrow> Inr x)"

lemma wrap_simps [simp, res_simps]:
  "wrap m (Inr x) = Inr x"
  "wrap m (Inl (Failed e)) = Inl (Failed (Wrapped m e))"
  "wrap m (Inl Panicked) = Inl Panicked"
  by (simp_all add: wrap_def)

lemma wrap_Inr_iff [simp]: "wrap m r = Inr x \<longleftrightarrow> r = Inr x"
  by (auto simp: wrap_def split: sum.splits fault.splits)

lemma wrap_Panicked_iff [simp]: "wrap m r = Inl Panicked \<longleftrightarrow> r = Inl Panicked"
  by (auto simp: wrap_def split: sum.splits fault.splits)

section \<open>Traversing a slice\<close>

text \<open>\<open>for i := range xs\<close> with an early return on the first error, collecting the results.\<close>

fun traverse :: "('a \<Rightarrow> 'e + 'b) \<Rightarrow> 'a list \<Rightarrow> 'e + 'b list" where
  "traverse f [] = Inr []"
| "traverse f (x # xs) = and_then (f x) (\<lambda>y. and_then (traverse f xs) (\<lambda>ys. Inr (y # ys)))"

lemma traverse_Inr_iff: "traverse f xs = Inr ys \<longleftrightarrow> list_all2 (\<lambda>x y. f x = Inr y) xs ys"
  by (induction xs arbitrary: ys) (auto simp: list_all2_Cons1)

lemma traverse_length: "traverse f xs = Inr ys \<Longrightarrow> length ys = length xs"
  by (auto simp: traverse_Inr_iff dest: list_all2_lengthD)

lemma traverse_nth: "traverse f xs = Inr ys \<Longrightarrow> i < length xs \<Longrightarrow> f (xs ! i) = Inr (ys ! i)"
  by (auto simp: traverse_Inr_iff list_all2_conv_all_nth)

lemma traverse_in_set: "traverse f xs = Inr ys \<Longrightarrow> y \<in> set ys \<Longrightarrow> \<exists>x \<in> set xs. f x = Inr y"
  by (induction xs arbitrary: ys) auto

lemma traverse_Inl_iff:
  "traverse f xs = Inl e \<longleftrightarrow>
     (\<exists>i < length xs. f (xs ! i) = Inl e \<and> (\<forall>j < i. \<exists>y. f (xs ! j) = Inr y))"
proof (induction xs)
  case Nil
  then show ?case by simp
next
  case (Cons x xs)
  show ?case
  proof (cases "f x")
    case (Inl e')
    then show ?thesis by (auto simp: nth_Cons' intro!: exI [of _ 0])
  next
    case (Inr y)
    have "traverse f (x # xs) = Inl e \<longleftrightarrow> traverse f xs = Inl e"
      using Inr by (cases "traverse f xs") auto
    also have "\<dots> \<longleftrightarrow> (\<exists>i < length xs. f (xs ! i) = Inl e \<and> (\<forall>j < i. \<exists>y. f (xs ! j) = Inr y))"
      by (rule Cons.IH)
    also have "\<dots> \<longleftrightarrow> (\<exists>i < length (x # xs). f ((x # xs) ! i) = Inl e
        \<and> (\<forall>j < i. \<exists>y. f ((x # xs) ! j) = Inr y))"
      using Inr by (auto simp: Ex_less_Suc2 All_less_Suc2)
    finally show ?thesis .
  qed
qed

lemma traverse_Inl_ex: "traverse f xs = Inl e \<Longrightarrow> \<exists>x \<in> set xs. f x = Inl e"
  by (induction xs) (auto simp: and_then_Inl_iff)

lemma traverse_total_iff: "(\<exists>ys. traverse f xs = Inr ys) \<longleftrightarrow> (\<forall>x \<in> set xs. \<exists>y. f x = Inr y)"
  by (induction xs) auto

lemma traverse_Inl_not: "(\<And>x. x \<in> set xs \<Longrightarrow> f x \<noteq> Inl e) \<Longrightarrow> traverse f xs \<noteq> Inl e"
  using traverse_Inl_ex by metis

lemma traverse_id: "(\<And>x. x \<in> set xs \<Longrightarrow> f x = Inr x) \<Longrightarrow> traverse f xs = Inr xs"
  by (induction xs) auto

lemma traverse_append:
  "traverse f (xs @ ys)
     = and_then (traverse f xs) (\<lambda>us. and_then (traverse f ys) (\<lambda>vs. Inr (us @ vs)))"
  by (induction xs) (auto simp: and_then_def split: sum.splits)

section \<open>First occurrences\<close>

text \<open>
  The Go idiom \<open>if !seen[k x] { seen[k x] = true; out = append(out, x) }\<close> keeps, in order,
  the first element of every key.
\<close>

fun firsts :: "('a \<Rightarrow> 'k) \<Rightarrow> 'k set \<Rightarrow> 'a list \<Rightarrow> 'a list" where
  "firsts k seen [] = []"
| "firsts k seen (x # xs) =
     (if k x \<in> seen then firsts k seen xs else x # firsts k (insert (k x) seen) xs)"

lemma firsts_keys: "k ` set (firsts k seen xs) = k ` set xs - seen"
  by (induction k seen xs rule: firsts.induct) auto

lemma firsts_subset: "set (firsts k seen xs) \<subseteq> set xs"
  by (induction k seen xs rule: firsts.induct) auto

lemma firsts_distinct: "distinct (map k (firsts k seen xs))"
proof (induction k seen xs rule: firsts.induct)
  case (2 k seen x xs)
  have "k x \<notin> k ` set (firsts k (insert (k x) seen) xs)"
    by (simp add: firsts_keys)
  with 2 show ?case by auto
qed simp

lemma firsts_append:
  "firsts k seen (xs @ ys) = firsts k seen xs @ firsts k (seen \<union> k ` set xs) ys"
proof (induction k seen xs rule: firsts.induct)
  case (2 k seen x xs)
  then show ?case by (auto simp: insert_absorb)
qed simp

lemma firsts_all_seen: "k ` set xs \<subseteq> seen \<Longrightarrow> firsts k seen xs = []"
  by (induction k seen xs rule: firsts.induct) auto

end
