(* ===== verification/Go_Strings.thy ===== *)
theory Go_Strings
  imports Prelude
begin

text \<open>
  The functions of Go's \<open>strings\<close>, \<open>path/filepath\<close> and \<open>fmt\<close> packages that the
  controller calls, on strings as lists of bytes, with their algebra (cutting and splitting are
  inverse to appending and joining, decimal printing is injective).

  Letters are lowered as ASCII letters, which is what \<open>strings.ToLower\<close> does on an ASCII
  string; other bytes are left alone, so paths with upper-case letters outside ASCII are not
  covered. Blank strings are recognised for every Unicode space.
\<close>

section \<open>Prefixes and suffixes\<close>

text \<open>\<open>strings.CutPrefix(s, p)\<close>: the rest after the prefix, or None.\<close>

fun cut_prefix :: "'a list \<Rightarrow> 'a list \<Rightarrow> 'a list option" where
  "cut_prefix [] s = Some s"
| "cut_prefix (p # ps) [] = None"
| "cut_prefix (p # ps) (c # cs) = (if p = c then cut_prefix ps cs else None)"

lemma cut_prefix_Some_iff [simp]: "cut_prefix p s = Some r \<longleftrightarrow> s = p @ r"
  by (induction p s rule: cut_prefix.induct) auto

lemma cut_prefix_append [simp]: "cut_prefix p (p @ r) = Some r"
  by simp

lemma cut_prefix_None_iff: "cut_prefix p s = None \<longleftrightarrow> (\<forall>r. s \<noteq> p @ r)"
  by (metis cut_prefix_Some_iff not_Some_eq)

definition has_prefix :: "'a list \<Rightarrow> 'a list \<Rightarrow> bool" where
  "has_prefix p s = (cut_prefix p s \<noteq> None)"

lemma has_prefix_iff: "has_prefix p s \<longleftrightarrow> (\<exists>r. s = p @ r)"
  by (auto simp: has_prefix_def cut_prefix_None_iff)

text \<open>\<open>strings.TrimSuffix(s, suf)\<close>.\<close>

definition trim_suffix :: "'a list \<Rightarrow> 'a list \<Rightarrow> 'a list" where
  "trim_suffix suf s = (case cut_prefix (rev suf) (rev s) of None \<Rightarrow> s | Some r \<Rightarrow> rev r)"

lemma trim_suffix_append [simp]: "trim_suffix suf (s @ suf) = s"
  by (simp add: trim_suffix_def)

lemma trim_suffix_cases: "s = trim_suffix suf s @ suf \<or> (trim_suffix suf s = s \<and> (\<forall>r. s \<noteq> r @ suf))"
proof (cases "cut_prefix (rev suf) (rev s)")
  case None
  then have "\<forall>r. s \<noteq> r @ suf"
    unfolding cut_prefix_None_iff by (metis rev_append)
  with None show ?thesis by (simp add: trim_suffix_def)
next
  case (Some r)
  then have "rev s = rev suf @ r" by simp
  then have "s = rev r @ suf" by (metis rev_append rev_rev_ident)
  with Some show ?thesis by (simp add: trim_suffix_def)
qed

lemma trim_suffix_none: "(\<And>r. s \<noteq> r @ suf) \<Longrightarrow> trim_suffix suf s = s"
  using trim_suffix_cases [of s suf] by metis

section \<open>Splitting and joining\<close>

text \<open>\<open>strings.Split(s, "c")\<close> for a one-byte separator and \<open>strings.Join(xs, sep)\<close>.\<close>

fun split_on :: "'a \<Rightarrow> 'a list \<Rightarrow> 'a list list" where
  "split_on c [] = [[]]"
| "split_on c (x # xs) =
     (if x = c then [] # split_on c xs
      else (case split_on c xs of [] \<Rightarrow> [[x]] | y # ys \<Rightarrow> (x # y) # ys))"

fun join :: "'a list \<Rightarrow> 'a list list \<Rightarrow> 'a list" where
  "join sep [] = []"
| "join sep [x] = x"
| "join sep (x # y # ys) = x @ sep @ join sep (y # ys)"

lemma split_on_not_Nil [simp]: "split_on c s \<noteq> []"
  by (induction s) (auto split: list.splits)

lemma split_on_sep [simp]: "split_on c (c # xs) = [] # split_on c xs"
  by simp

lemma split_on_fresh: "c \<notin> set s \<Longrightarrow> split_on c s = [s]"
  by (induction s) auto

lemma split_on_append_sep: "c \<notin> set s \<Longrightarrow> split_on c (s @ c # t) = s # split_on c t"
  by (induction s) auto

lemma join_split_on: "join [c] (split_on c s) = s"
proof (induction s)
  case (Cons x xs)
  show ?case
  proof (cases "split_on c xs")
    case (Cons y ys)
    with Cons.IH show ?thesis by (cases ys) auto
  qed simp
qed simp

lemma split_on_parts_fresh: "y \<in> set (split_on c s) \<Longrightarrow> c \<notin> set y"
proof (induction s arbitrary: y)
  case (Cons x xs)
  then show ?case by (cases "split_on c xs") (auto split: if_splits)
qed simp

lemma split_on_two_iff: "split_on c s = [a, b] \<longleftrightarrow> s = a @ c # b \<and> c \<notin> set a \<and> c \<notin> set b"
proof
  assume eq: "split_on c s = [a, b]"
  have "s = join [c] [a, b]" using join_split_on [of c s] eq by simp
  moreover have "c \<notin> set a" and "c \<notin> set b"
    using split_on_parts_fresh [of _ c s] eq by auto
  ultimately show "s = a @ c # b \<and> c \<notin> set a \<and> c \<notin> set b" by simp
qed (auto simp: split_on_append_sep split_on_fresh)

section \<open>Replacing and trimming\<close>

text \<open>\<open>strings.ReplaceAll(s, "a", "b")\<close> for single bytes.\<close>

definition replace_char :: "'a \<Rightarrow> 'a \<Rightarrow> 'a list \<Rightarrow> 'a list" where
  "replace_char a b s = map (\<lambda>c. if c = a then b else c) s"

text \<open>\<open>strings.ReplaceAll(s, pat, "")\<close> for a non-empty pattern, left to right.\<close>

function remove_all :: "'a list \<Rightarrow> 'a list \<Rightarrow> 'a list" where
  "remove_all pat s = (case s of [] \<Rightarrow> [] | c # cs \<Rightarrow>
     (if pat = [] then s
      else (case cut_prefix pat s of Some r \<Rightarrow> remove_all pat r | None \<Rightarrow> c # remove_all pat cs)))"
  by pat_completeness auto
termination
  by (relation "measure (\<lambda>(pat, s). length s)") auto

declare remove_all.simps [simp del]

lemma remove_all_Nil [simp]: "remove_all pat [] = []"
  by (simp add: remove_all.simps)

lemma remove_all_Cons:
  "pat \<noteq> [] \<Longrightarrow> remove_all pat (c # cs) =
     (case cut_prefix pat (c # cs) of Some r \<Rightarrow> remove_all pat r | None \<Rightarrow> c # remove_all pat cs)"
  by (simp add: remove_all.simps [of pat "c # cs"])

lemma remove_all_empty_pat: "remove_all [] s = s"
  by (cases s) (simp_all add: remove_all.simps [of "[]" "_ # _"])

lemma set_remove_all: "set (remove_all pat s) \<subseteq> set s"
proof (induction pat s rule: remove_all.induct)
  case (1 pat s)
  show ?case
  proof (cases s)
    case (Cons c cs)
    show ?thesis
    proof (cases "pat = []")
      case False
      show ?thesis
      proof (cases "cut_prefix pat s")
        case None
        have ih: "set (remove_all pat cs) \<subseteq> set cs" by (rule 1(1) [OF Cons False None])
        have "remove_all pat s = c # remove_all pat cs"
          using None Cons False by (simp add: remove_all_Cons)
        with ih Cons show ?thesis by auto
      next
        case (Some r)
        have ih: "set (remove_all pat r) \<subseteq> set r" by (rule 1(2) [OF Cons False Some])
        have "remove_all pat s = remove_all pat r"
          using Some Cons False by (simp add: remove_all_Cons del: cut_prefix_Some_iff)
        moreover from Some have "set r \<subseteq> set s" by auto
        ultimately show ?thesis using ih by simp
      qed
    qed (simp add: remove_all_empty_pat)
  qed simp
qed

lemma remove_all_self: "pat \<noteq> [] \<Longrightarrow> remove_all pat pat = []"
proof (cases pat)
  case (Cons c cs)
  have "cut_prefix pat pat = Some []" by simp
  with Cons show ?thesis by (simp add: remove_all_Cons del: cut_prefix_Some_iff cut_prefix.simps)
qed simp

definition trim_left :: "('a \<Rightarrow> bool) \<Rightarrow> 'a list \<Rightarrow> 'a list" where
  "trim_left p s = dropWhile p s"

definition trim_right :: "('a \<Rightarrow> bool) \<Rightarrow> 'a list \<Rightarrow> 'a list" where
  "trim_right p s = rev (dropWhile p (rev s))"

definition trim_both :: "('a \<Rightarrow> bool) \<Rightarrow> 'a list \<Rightarrow> 'a list" where
  "trim_both p s = trim_right p (trim_left p s)"

lemma set_trim_right: "set (trim_right p s) \<subseteq> set s"
  using set_dropWhileD [of _ p "rev s"] by (auto simp: trim_right_def)

lemma set_trim_both: "set (trim_both p s) \<subseteq> set s"
  using set_trim_right [of p "dropWhile p s"] set_dropWhileD [of _ p s]
  by (auto simp: trim_both_def trim_left_def)

lemma trim_right_last: "trim_right p s \<noteq> [] \<Longrightarrow> \<not> p (last (trim_right p s))"
  using hd_dropWhile [of p "rev s"] by (simp add: trim_right_def last_rev)

lemma trim_right_append_all: "(\<And>c. c \<in> set t \<Longrightarrow> p c) \<Longrightarrow> trim_right p (s @ t) = trim_right p s"
  unfolding trim_right_def rev_append by (subst dropWhile_append2) auto

lemma trim_right_keep: "s = [] \<or> \<not> p (last s) \<Longrightarrow> trim_right p s = s"
  by (cases s rule: rev_cases) (auto simp: trim_right_def)

text \<open>\<open>strings.ToLower\<close> on ASCII letters.\<close>

definition lower_char :: "char \<Rightarrow> char" where
  "lower_char c = (let n = of_char c :: nat in if 65 \<le> n \<and> n \<le> 90 then char_of (n + 32) else c)"

definition to_lower :: "string \<Rightarrow> string" where
  "to_lower s = map lower_char s"

lemma lower_char_slash: "lower_char c = CHR ''/'' \<longleftrightarrow> c = CHR ''/''"
proof (cases "65 \<le> (of_char c :: nat) \<and> (of_char c :: nat) \<le> 90")
  case True
  define n :: nat where "n = of_char c"
  have "(of_char (lower_char c) :: nat) = n + 32"
    using True by (simp add: lower_char_def n_def)
  moreover have "(of_char (CHR ''/'') :: nat) = 47" by simp
  ultimately have "lower_char c \<noteq> CHR ''/''" using True n_def by fastforce
  moreover have "c \<noteq> CHR ''/''" using True by fastforce
  ultimately show ?thesis by blast
qed (auto simp: lower_char_def)

lemma slash_in_to_lower: "CHR ''/'' \<in> set (to_lower s) \<longleftrightarrow> CHR ''/'' \<in> set s"
proof -
  have "CHR ''/'' \<in> set (to_lower s) \<longleftrightarrow> (\<exists>c \<in> set s. lower_char c = CHR ''/'')"
    unfolding to_lower_def by (metis (no_types, lifting) image_iff list.set_map)
  then show ?thesis by (simp add: lower_char_slash)
qed

text \<open>
  \<open>strings.TrimSpace(s) == ""\<close>: every rune of the UTF-8 string is a Unicode space.
\<close>

fun drop_space :: "nat list \<Rightarrow> nat list option" where
  "drop_space [] = None"
| "drop_space (b # bs) =
     (if b \<in> {9, 10, 11, 12, 13, 32} then Some bs
      else (case bs of
        [] \<Rightarrow> None
      | c # cs \<Rightarrow>
          if b = 0xC2 \<and> (c = 0x85 \<or> c = 0xA0) then Some cs
          else (case cs of
            [] \<Rightarrow> None
          | d # ds \<Rightarrow>
              if b = 0xE1 \<and> c = 0x9A \<and> d = 0x80
               \<or> b = 0xE2 \<and> c = 0x80 \<and> (0x80 \<le> d \<and> d \<le> 0x8A \<or> d \<in> {0xA8, 0xA9, 0xAF})
               \<or> b = 0xE2 \<and> c = 0x81 \<and> d = 0x9F
               \<or> b = 0xE3 \<and> c = 0x80 \<and> d = 0x80
              then Some ds else None)))"

lemma drop_space_shorter: "drop_space bs = Some r \<Longrightarrow> length r < length bs"
  by (cases bs) (auto split: if_splits list.splits)

function blank_bytes :: "nat list \<Rightarrow> bool" where
  "blank_bytes bs = (case drop_space bs of None \<Rightarrow> bs = [] | Some r \<Rightarrow> blank_bytes r)"
  by pat_completeness auto
termination
  by (relation "measure length") (auto dest: drop_space_shorter)

declare blank_bytes.simps [simp del]

definition is_blank :: "string \<Rightarrow> bool" where
  "is_blank s = blank_bytes (map of_char s)"

lemma is_blank_Nil [simp]: "is_blank []"
  by (simp add: is_blank_def blank_bytes.simps)

text \<open>
  \<open>strings.TrimSpace(s)\<close>: the leading spaces, then the trailing ones. A space at the end of a UTF-8 string is a
  suffix of one to three bytes that reads as one space.
\<close>

function drop_spaces :: "nat list \<Rightarrow> nat list" where
  "drop_spaces bs = (case drop_space bs of None \<Rightarrow> bs | Some r \<Rightarrow> drop_spaces r)"
  by pat_completeness auto
termination
  by (relation "measure length") (auto dest: drop_space_shorter)

declare drop_spaces.simps [simp del]

definition ends_in_space :: "nat list \<Rightarrow> nat \<Rightarrow> bool" where
  "ends_in_space bs k \<longleftrightarrow> k \<le> length bs \<and> drop_space (drop (length bs - k) bs) = Some []"

definition drop_last_space :: "nat list \<Rightarrow> nat list option" where
  "drop_last_space bs = map_option (\<lambda>k. take (length bs - k) bs) (find (ends_in_space bs) [1, 2, 3])"

lemma drop_last_space_Some: "drop_last_space bs = Some r \<Longrightarrow> \<exists>sp. bs = r @ sp \<and> drop_space sp = Some []"
proof -
  assume "drop_last_space bs = Some r"
  then obtain k where k: "find (ends_in_space bs) [1, 2, 3] = Some k" "r = take (length bs - k) bs"
    unfolding drop_last_space_def by blast
  then have "ends_in_space bs k" by (metis find_Some_iff)
  with k(2) show ?thesis
    unfolding ends_in_space_def by (metis append_take_drop_id)
qed

lemma drop_last_space_shorter: "drop_last_space bs = Some r \<Longrightarrow> length r < length bs"
  by (auto dest!: drop_last_space_Some)

function drop_last_spaces :: "nat list \<Rightarrow> nat list" where
  "drop_last_spaces bs = (case drop_last_space bs of None \<Rightarrow> bs | Some r \<Rightarrow> drop_last_spaces r)"
  by pat_completeness auto
termination
  by (relation "measure length") (auto dest: drop_last_space_shorter)

declare drop_last_spaces.simps [simp del]

definition trim_space :: "string \<Rightarrow> string" where
  "trim_space s = map char_of (drop_last_spaces (drop_spaces (map of_char s)))"

lemma drop_space_append: "drop_space bs = Some r \<Longrightarrow> drop_space (bs @ cs) = Some (r @ cs)"
  by (cases bs rule: remdups_adj.cases; cases "tl (tl bs)") (simp_all split: if_splits, (elim disjE conjE; simp)+)

lemma drop_spaces_first: "drop_space (drop_spaces bs) = None"
proof (induction bs rule: drop_spaces.induct)
  case (1 bs)
  then show ?case by (cases "drop_space bs") (simp_all add: drop_spaces.simps [of bs])
qed

lemma drop_spaces_Nil_iff: "drop_spaces bs = [] \<longleftrightarrow> blank_bytes bs"
proof (induction bs rule: drop_spaces.induct)
  case (1 bs)
  then show ?case
    by (cases "drop_space bs") (simp_all add: drop_spaces.simps [of bs] blank_bytes.simps [of bs])
qed

lemma drop_last_spaces_prefix: "\<exists>sp. bs = drop_last_spaces bs @ sp"
proof (induction bs rule: drop_last_spaces.induct)
  case (1 bs)
  show ?case
  proof (cases "drop_last_space bs")
    case (Some r)
    from drop_last_space_Some [OF Some] 1 [OF Some] show ?thesis
      by (simp add: drop_last_spaces.simps [of bs] Some) (metis append.assoc)
  qed (simp add: drop_last_spaces.simps [of bs])
qed

text \<open>Trimming the end of a string that starts with no space leaves its start alone, so the result has no space at either end.\<close>

lemma drop_last_spaces_keep: "drop_space bs = None \<Longrightarrow> bs \<noteq> [] \<Longrightarrow> drop_last_spaces bs \<noteq> []"
proof (induction bs rule: drop_last_spaces.induct)
  case (1 bs)
  show ?case
  proof (cases "drop_last_space bs")
    case (Some r)
    then obtain sp where sp: "bs = r @ sp" "drop_space sp = Some []" by (blast dest: drop_last_space_Some)
    have "r \<noteq> []" using sp "1.prems"(1) by auto
    moreover have "drop_space r = None"
      using sp(1) "1.prems"(1) drop_space_append [of r _ sp] by (cases "drop_space r") auto
    ultimately show ?thesis using 1(1) [OF Some] by (simp add: drop_last_spaces.simps [of bs] Some)
  qed (use "1.prems" in \<open>simp add: drop_last_spaces.simps [of bs]\<close>)
qed

lemma trim_space_Nil_iff: "trim_space s = [] \<longleftrightarrow> is_blank s"
proof -
  let ?bs = "drop_spaces (map of_char s)"
  have "drop_last_spaces ?bs = [] \<longleftrightarrow> ?bs = []"
    using drop_last_spaces_keep [OF drop_spaces_first, of "map of_char s"] drop_last_spaces_prefix [of ?bs] by fastforce
  then show ?thesis by (simp add: trim_space_def is_blank_def drop_spaces_Nil_iff)
qed

text \<open>A string without spaces at its ends is kept.\<close>

lemma trim_space_id:
  "drop_space (map of_char s) = None \<Longrightarrow> drop_last_space (map of_char s) = None \<Longrightarrow> trim_space s = s"
  by (simp add: trim_space_def drop_spaces.simps drop_last_spaces.simps comp_def)

section \<open>Decimal numbers\<close>

text \<open>\<open>%d\<close> of a non-negative integer.\<close>

definition digit_char :: "nat \<Rightarrow> char" where
  "digit_char d = char_of (48 + d)"

fun itoa :: "nat \<Rightarrow> string" where
  "itoa n = (if n < 10 then [digit_char n] else itoa (n div 10) @ [digit_char (n mod 10)])"

declare itoa.simps [simp del]

text \<open>Reading the digits back, to show that printing loses nothing.\<close>

definition atoi :: "string \<Rightarrow> nat" where
  "atoi s = foldl (\<lambda>n c. 10 * n + (of_char c - 48)) 0 s"

lemma of_digit_char: "d < 10 \<Longrightarrow> of_char (digit_char d) = 48 + d"
  by (simp add: digit_char_def)

lemma atoi_itoa: "atoi (itoa n) = n"
proof (induction n rule: itoa.induct)
  case (1 n)
  show ?case
  proof (cases "n < 10")
    case True
    then show ?thesis by (simp add: itoa.simps [of n] atoi_def of_digit_char)
  next
    case False
    have "atoi (itoa n) = 10 * atoi (itoa (n div 10)) + n mod 10"
      using False by (simp add: itoa.simps [of n] atoi_def of_digit_char)
    with 1 False show ?thesis by simp
  qed
qed

lemma itoa_inj [simp]: "itoa m = itoa n \<longleftrightarrow> m = n"
  by (metis atoi_itoa)

lemma itoa_not_Nil [simp]: "itoa n \<noteq> []"
  by (subst itoa.simps) simp

section \<open>Paths\<close>

text \<open>Cutting a string after the last occurrence of a byte.\<close>

definition split_last :: "'a \<Rightarrow> 'a list \<Rightarrow> 'a list \<times> 'a list" where
  "split_last a p = (rev (dropWhile (\<lambda>c. c \<noteq> a) (rev p)), rev (takeWhile (\<lambda>c. c \<noteq> a) (rev p)))"

lemma split_last_append: "split_last a p = (d, f) \<Longrightarrow> p = d @ f"
  unfolding split_last_def
  by (metis Pair_inject rev_append rev_rev_ident takeWhile_dropWhile_id)

lemma split_last_file: "split_last a p = (d, f) \<Longrightarrow> a \<notin> set f"
  by (auto simp: split_last_def dest: set_takeWhileD)

lemma split_last_dir: "split_last a p = (d, f) \<Longrightarrow> d = [] \<or> last d = a"
  using hd_dropWhile [of "\<lambda>c. c \<noteq> a" "rev p"] by (auto simp: split_last_def last_rev)

lemma split_last_plain:
  assumes "a \<notin> set f"
  shows "split_last a f = ([], f)"
proof -
  have "\<forall>x \<in> set (rev f). x \<noteq> a" using assms by auto
  then have t: "takeWhile (\<lambda>c. c \<noteq> a) (rev f) = rev f" and d: "dropWhile (\<lambda>c. c \<noteq> a) (rev f) = []"
    by (simp_all only: takeWhile_eq_all_conv dropWhile_eq_Nil_conv)
  show ?thesis by (simp only: split_last_def t d rev_rev_ident rev.simps)
qed

lemma split_last_sep:
  assumes "a \<notin> set f"
  shows "split_last a (d @ a # f) = (d @ [a], f)"
proof -
  have all: "\<And>x. x \<in> set (rev f) \<Longrightarrow> x \<noteq> a" using assms by auto
  have "takeWhile (\<lambda>c. c \<noteq> a) (rev f @ a # rev d) = rev f @ takeWhile (\<lambda>c. c \<noteq> a) (a # rev d)"
    by (rule takeWhile_append2) (rule all)
  moreover have "dropWhile (\<lambda>c. c \<noteq> a) (rev f @ a # rev d) = dropWhile (\<lambda>c. c \<noteq> a) (a # rev d)"
    by (rule dropWhile_append2) (rule all)
  ultimately show ?thesis by (simp add: split_last_def)
qed

text \<open>\<open>filepath.Split\<close> on a Unix path: everything up to the last slash, and the rest.\<close>

definition path_split :: "string \<Rightarrow> string \<times> string" where
  "path_split p = split_last (CHR ''/'') p"

lemmas path_split_laws =
  split_last_append [of "CHR ''/''", folded path_split_def]
  split_last_file [of "CHR ''/''", folded path_split_def]
  split_last_dir [of "CHR ''/''", folded path_split_def]

lemmas path_split_plain = split_last_plain [of "CHR ''/''", folded path_split_def]
lemmas path_split_sep = split_last_sep [of "CHR ''/''", folded path_split_def]

end
