(* ===== verification/Json.thy ===== *)
theory Json
  imports Go_Strings
begin

text \<open>
  JSON values and the part of \<open>encoding/json\<close> the API types rely on: decoding a value into a
  struct field by field. A decoder takes the JSON value and the current Go value and returns the
  new value, or None where \<open>json.Unmarshal\<close> returns an \<open>UnmarshalTypeError\<close>.

  Raw messages are modelled after lexing (a \<open>json\<close> value). Keys are matched exactly first and
  case-insensitively second, unknown keys are ignored, a later key overwrites an earlier one and
  \<open>null\<close> leaves non-pointer values as they are. Slice memory beyond the current length
  (visible only when a key is repeated three times) is taken as zeroed.
\<close>

section \<open>Values\<close>

datatype json =
    JNull
  | JBool bool
  | JNum string
  | JStr string
  | JArr "json list"
  | JObj "(string \<times> json) list"

type_synonym 'a decoder = "json \<Rightarrow> 'a \<Rightarrow> 'a option"

section \<open>Key matching\<close>

text \<open>
  \<open>foldName\<close>: ASCII letters are raised; the two non-ASCII runes that fold to ASCII letters
  (long s, Kelvin sign) are replaced by them.
\<close>

fun fold_bytes :: "nat list \<Rightarrow> nat list" where
  "fold_bytes [] = []"
| "fold_bytes (b # r) =
     (if 97 \<le> b \<and> b \<le> 122 then (b - 32) # fold_bytes r
      else (case r of
        [] \<Rightarrow> [b]
      | c # r' \<Rightarrow>
          if b = 0xC5 \<and> c = 0xBF then 83 # fold_bytes r'
          else (case r' of
            [] \<Rightarrow> b # fold_bytes r
          | d # r'' \<Rightarrow>
              if b = 0xE2 \<and> c = 0x84 \<and> d = 0xAA then 75 # fold_bytes r''
              else b # fold_bytes r)))"

definition fold_name :: "string \<Rightarrow> nat list" where
  "fold_name s = fold_bytes (map of_char s)"

type_synonym 'r field = "string \<times> 'r decoder"

definition find_field :: "'r field list \<Rightarrow> string \<Rightarrow> 'r decoder option" where
  "find_field fs k =
     (case find (\<lambda>f. fst f = k) fs of
        Some f \<Rightarrow> Some (snd f)
      | None \<Rightarrow> map_option snd (find (\<lambda>f. fold_name (fst f) = fold_name k) fs))"

section \<open>Decoders\<close>

definition dec_string :: "string decoder" where
  "dec_string j cur = (case j of JStr s \<Rightarrow> Some s | JNull \<Rightarrow> Some cur | _ \<Rightarrow> None)"

definition dec_bool :: "bool decoder" where
  "dec_bool j cur = (case j of JBool b \<Rightarrow> Some b | JNull \<Rightarrow> Some cur | _ \<Rightarrow> None)"

text \<open>A pointer: \<open>null\<close> sets nil, anything else decodes into the pointee, new if there is none.\<close>

definition dec_ptr :: "'a \<Rightarrow> 'a decoder \<Rightarrow> 'a option decoder" where
  "dec_ptr zero d j cur =
     (case j of
        JNull \<Rightarrow> Some None
      | _ \<Rightarrow> map_option Some (d j (case cur of None \<Rightarrow> zero | Some v \<Rightarrow> v)))"

fun dec_elems :: "'a \<Rightarrow> 'a decoder \<Rightarrow> json list \<Rightarrow> 'a list \<Rightarrow> 'a list option" where
  "dec_elems zero d [] old = Some []"
| "dec_elems zero d (j # js) old =
     (case d j (case old of [] \<Rightarrow> zero | v # _ \<Rightarrow> v) of
        None \<Rightarrow> None
      | Some v \<Rightarrow> map_option (\<lambda>vs. v # vs) (dec_elems zero d js (drop 1 old)))"

text \<open>A slice: None is the nil slice, \<open>Some []\<close> an empty one.\<close>

definition dec_slice :: "'a \<Rightarrow> 'a decoder \<Rightarrow> 'a list option decoder" where
  "dec_slice zero d j cur =
     (case j of
        JNull \<Rightarrow> Some None
      | JArr js \<Rightarrow> map_option Some (dec_elems zero d js (case cur of None \<Rightarrow> [] | Some vs \<Rightarrow> vs))
      | _ \<Rightarrow> None)"

text \<open>A struct field: its JSON name, its reader and its update function.\<close>

definition field :: "string \<Rightarrow> ('r \<Rightarrow> 'a) \<Rightarrow> (('a \<Rightarrow> 'a) \<Rightarrow> 'r \<Rightarrow> 'r) \<Rightarrow> 'a decoder \<Rightarrow> 'r field" where
  "field k get upd d = (k, \<lambda>j r. map_option (\<lambda>v. upd (\<lambda>_. v) r) (d j (get r)))"

fun dec_members :: "'r field list \<Rightarrow> (string \<times> json) list \<Rightarrow> 'r \<Rightarrow> 'r option" where
  "dec_members fs [] r = Some r"
| "dec_members fs ((k, j) # kvs) r =
     (case find_field fs k of
        None \<Rightarrow> dec_members fs kvs r
      | Some d \<Rightarrow> (case d j r of None \<Rightarrow> None | Some r' \<Rightarrow> dec_members fs kvs r'))"

definition dec_struct :: "'r field list \<Rightarrow> 'r decoder" where
  "dec_struct fs j r =
     (case j of JNull \<Rightarrow> Some r | JObj kvs \<Rightarrow> dec_members fs kvs r | _ \<Rightarrow> None)"

section \<open>Laws\<close>

lemma dec_members_append:
  "dec_members fs (kvs @ kvs') r = Option.bind (dec_members fs kvs r) (dec_members fs kvs')"
proof (induction fs kvs r rule: dec_members.induct)
  case (2 fs k j kvs r)
  then show ?case
  proof (cases "find_field fs k")
    case (Some d)
    with 2(2) show ?thesis by (cases "d j r") auto
  qed auto
qed simp

text \<open>A member no field matches is ignored wherever it stands.\<close>

lemma dec_members_unknown:
  "find_field fs k = None \<Longrightarrow> dec_members fs (kvs @ (k, j) # kvs') r = dec_members fs (kvs @ kvs') r"
  by (cases "dec_members fs kvs r") (simp_all add: dec_members_append)

text \<open>Whatever a lookup finds is one of the fields.\<close>

lemma find_field_in: "find_field fs k = Some d \<Longrightarrow> \<exists>n. (n, d) \<in> set fs"
  by (auto simp: find_field_def find_Some_iff split: option.splits) (metis nth_mem prod.collapse)+

text \<open>A property of the record that every field decoder keeps holds after decoding.\<close>

lemma dec_members_invariant:
  assumes keep: "\<And>n d j r r'. (n, d) \<in> set fs \<Longrightarrow> P r \<Longrightarrow> d j r = Some r' \<Longrightarrow> P r'"
  shows "P r \<Longrightarrow> dec_members fs kvs r = Some r' \<Longrightarrow> P r'"
proof (induction kvs arbitrary: r)
  case (Cons kv kvs)
  obtain k j where kv: "kv = (k, j)" by (cases kv)
  show ?case
  proof (cases "find_field fs k")
    case None
    with Cons kv show ?thesis by simp
  next
    case (Some d)
    then obtain n where n: "(n, d) \<in> set fs" using find_field_in by blast
    from Some Cons.prems(2) kv obtain r1 where r1: "d j r = Some r1" "dec_members fs kvs r1 = Some r'"
      by (auto split: option.splits)
    with keep [OF n Cons.prems(1)] Cons.IH show ?thesis by blast
  qed
qed simp

text \<open>With case-insensitively distinct names, a lookup is the case-insensitive one.\<close>

definition names_distinct :: "'r field list \<Rightarrow> bool" where
  "names_distinct fs = distinct (map (\<lambda>f. fold_name (fst f)) fs)"

definition find_folded :: "'r field list \<Rightarrow> string \<Rightarrow> 'r decoder option" where
  "find_folded fs k = map_option snd (find (\<lambda>f. fold_name (fst f) = fold_name k) fs)"

lemma find_exact_folded:
  "names_distinct fs \<Longrightarrow> find (\<lambda>f. fst f = k) fs = Some g
     \<Longrightarrow> find (\<lambda>f. fold_name (fst f) = fold_name k) fs = Some g"
proof (induction fs)
  case (Cons f fs)
  show ?case
  proof (cases "fst f = k")
    case True
    with Cons.prems show ?thesis by simp
  next
    case False
    with Cons.prems have g: "find (\<lambda>f. fst f = k) fs = Some g" by simp
    then have "g \<in> set fs" and "fst g = k" by (auto simp: find_Some_iff)
    then have "fold_name (fst f) \<noteq> fold_name k"
      using Cons.prems(1) by (auto simp: names_distinct_def)
    with g Cons show ?thesis by (simp add: names_distinct_def)
  qed
qed simp

lemma find_field_folded: "names_distinct fs \<Longrightarrow> find_field fs k = find_folded fs k"
  by (auto simp: find_field_def find_folded_def find_exact_folded split: option.split)

lemma find_folded_append:
  "find_folded (fs @ gs) k = (case find_folded fs k of Some d \<Rightarrow> Some d | None \<Rightarrow> find_folded gs k)"
  by (induction fs) (auto simp: find_folded_def)

text \<open>
  Decoding into a struct with embedded fields decodes the embedded part as it would be decoded
  alone: if every member decoder of the large struct projects to the member of the small struct
  with the same name, and members without a counterpart leave the projection alone, so does the
  whole decoder.
\<close>

lemma dec_members_project:
  assumes step: "\<And>k d j r r'. find_field fs k = Some d \<Longrightarrow> d j r = Some r' \<Longrightarrow>
      (case find_field gs k of None \<Rightarrow> p r' = p r | Some e \<Rightarrow> e j (p r) = Some (p r'))"
    and none: "\<And>k. find_field fs k = None \<Longrightarrow> find_field gs k = None"
  shows "dec_members fs kvs r = Some r' \<Longrightarrow> dec_members gs kvs (p r) = Some (p r')"
proof (induction kvs arbitrary: r)
  case (Cons kv kvs)
  obtain k j where kv: "kv = (k, j)" by (cases kv)
  show ?case
  proof (cases "find_field fs k")
    case None
    with Cons kv none show ?thesis by simp
  next
    case (Some d)
    with Cons.prems kv obtain r1 where r1: "d j r = Some r1" "dec_members fs kvs r1 = Some r'"
      by (auto split: option.splits)
    from Cons.IH [OF r1(2)] step [OF Some r1(1)] show ?thesis
      by (cases "find_field gs k") (simp_all add: kv)
  qed
qed simp

text \<open>Two member lists that agree name by name, the larger one followed by further members.\<close>

definition member_lifts :: "('r \<Rightarrow> 's) \<Rightarrow> 'r field \<Rightarrow> 's field \<Rightarrow> bool" where
  "member_lifts p f g \<longleftrightarrow> fst f = fst g
     \<and> (\<forall>j r r'. snd f j r = Some r' \<longrightarrow> snd g j (p r) = Some (p r'))"

definition member_frames :: "('r \<Rightarrow> 's) \<Rightarrow> 'r field \<Rightarrow> bool" where
  "member_frames p f \<longleftrightarrow> (\<forall>j r r'. snd f j r = Some r' \<longrightarrow> p r' = p r)"

lemma find_folded_lifts:
  assumes "list_all2 (member_lifts p) fs gs"
  shows "(case find_folded fs k of
            None \<Rightarrow> find_folded gs k = None
          | Some d \<Rightarrow> \<exists>e. find_folded gs k = Some e
              \<and> (\<forall>j r r'. d j r = Some r' \<longrightarrow> e j (p r) = Some (p r')))"
  using assms
  by (induction fs gs rule: list_all2_induct)
     (auto simp: find_folded_def member_lifts_def split: option.splits)

lemma find_folded_frames:
  "list_all (member_frames p) fs \<Longrightarrow> find_folded fs k = Some d \<Longrightarrow> d j r = Some r' \<Longrightarrow> p r' = p r"
  by (induction fs) (auto simp: find_folded_def member_frames_def split: if_splits)

lemma dec_struct_embedded:
  assumes lifts: "list_all2 (member_lifts p) fs gs" and frames: "list_all (member_frames p) es"
    and dist: "names_distinct (fs @ es)" "names_distinct gs"
    and dec: "dec_struct (fs @ es) j r = Some r'"
  shows "dec_struct gs j (p r) = Some (p r')"
proof -
  have "dec_members (fs @ es) kvs r = Some r' \<Longrightarrow> dec_members gs kvs (p r) = Some (p r')" for kvs
  proof (rule dec_members_project [where p = p and fs = "fs @ es" and gs = gs])
    fix k d j r r'
    assume "find_field (fs @ es) k = Some d" and d: "d j r = Some r'"
    then have "(case find_folded fs k of Some d \<Rightarrow> Some d | None \<Rightarrow> find_folded es k) = Some d"
      by (simp add: find_field_folded dist find_folded_append)
    then show "case find_field gs k of None \<Rightarrow> p r' = p r | Some e \<Rightarrow> e j (p r) = Some (p r')"
      using find_folded_lifts [OF lifts, of k] find_folded_frames [OF frames, of k d j r r'] d
      by (auto simp: find_field_folded dist split: option.splits)
  next
    fix k
    assume "find_field (fs @ es) k = None"
    then show "find_field gs k = None"
      using find_folded_lifts [OF lifts, of k]
      by (auto simp: find_field_folded dist find_folded_append split: option.splits)
  qed
  with dec show ?thesis by (cases j) (auto simp: dec_struct_def)
qed

lemma member_lifts_field:
  assumes "\<And>r. get' (p r) = get r" and "\<And>v r. p (upd (\<lambda>_. v) r) = upd' (\<lambda>_. v) (p r)"
  shows "member_lifts p (field k get upd d) (field k get' upd' d)"
  using assms by (auto simp: member_lifts_def field_def)

lemma member_frames_field:
  "(\<And>v r. p (upd (\<lambda>_. v) r) = p r) \<Longrightarrow> member_frames p (field k get upd d)"
  by (auto simp: member_frames_def field_def)

end
