(* ===== verification/Flow_Types.thy ===== *)
theory Flow_Types
  imports Json
begin

text \<open>
  The types of \<open>api/v1alpha1\<close>: triggers and steps with their common embedded fields (record
  extension stands for struct embedding), the \<open>Flow\<close> resource, and the sources that select a
  concrete trigger or step type. A pointer field is an \<open>option\<close>, and so is a slice for which
  the code distinguishes nil.

  \<open>OtherTrigger\<close> and \<open>OtherStep\<close> stand for any other dynamic type behind the two Go
  interfaces (with its \<open>%T\<close> name), so that the \<open>default\<close> branches of the type switches
  are branches of the model. The parser never makes them.
\<close>

section \<open>Kubernetes values carried through\<close>

text \<open>
  \<open>corev1.Volume\<close> and \<open>corev1.VolumeMount\<close>: the cases that the code builds itself are
  constructors, everything else is kept as the JSON it came from.
\<close>

datatype volume_source =
    SecretSource string
  | EmptyDirSource
  | PersistentVolumeClaimSource string
  | OtherSource json

record volume =
  vol_Name :: string
  vol_Source :: volume_source

record volume_mount =
  mnt_Name :: string
  mnt_MountPath :: string
  mnt_Rest :: json

definition zero_volume :: volume where
  "zero_volume = \<lparr>vol_Name = [], vol_Source = OtherSource JNull\<rparr>"

definition zero_volume_mount :: volume_mount where
  "zero_volume_mount = \<lparr>mnt_Name = [], mnt_MountPath = [], mnt_Rest = JNull\<rparr>"

section \<open>Triggers\<close>

definition gitHubPullRequestTriggerSource :: string where
  "gitHubPullRequestTriggerSource = ''GitHubPullRequest''"

definition gitHubPushTriggerSource :: string where
  "gitHubPushTriggerSource = ''GitHubPush''"

definition triggerSources :: "string list" where
  "triggerSources = [gitHubPullRequestTriggerSource, gitHubPushTriggerSource]"

record base_trigger_fields =
  TriggerName :: string
  TriggerSource :: string

record github_pull_request_trigger = base_trigger_fields +
  prt_RepoUrl :: string
  PullRequestEvents :: "string list option"

record github_push_trigger = base_trigger_fields +
  pst_RepoUrl :: string
  pst_BaseRef :: "string option"

datatype base_trigger =
    GitHubPullRequestTrigger github_pull_request_trigger
  | GitHubPushTrigger github_push_trigger
  | OtherTrigger string

section \<open>Steps\<close>

definition dockerBuildTestStepSource :: string where
  "dockerBuildTestStepSource = ''DockerBuildTest''"

definition dockerBuildTestPublishStepSource :: string where
  "dockerBuildTestPublishStepSource = ''DockerBuildTestPublish''"

definition argoCDStepSource :: string where
  "argoCDStepSource = ''ArgoCD''"

definition gitHubCreatePrStepSource :: string where
  "gitHubCreatePrStepSource = ''GitHubCreatePR''"

definition stepSources :: "string list" where
  "stepSources =
     [dockerBuildTestStepSource, dockerBuildTestPublishStepSource, argoCDStepSource,
      gitHubCreatePrStepSource]"

record base_step_fields =
  StepName :: "string option"
  StepSource :: string
  DependsOn :: "string list option"
  Volumes :: "volume list option"
  VolumeMounts :: "volume_mount list option"

record docker_build_artifact =
  art_Path :: string
  art_Key :: string
  art_Optional :: "bool option"

text \<open>\<open>DockerBuildTestStep\<close> and \<open>DockerBuildTestPublishStep\<close> have the same fields.\<close>

record docker_build_step = base_step_fields +
  DockerfilePath :: "string option"
  DockerContextDir :: "string option"
  Artifacts :: "docker_build_artifact list option"

record argocd_step = base_step_fields +
  acd_RepoUrl :: string
  acd_RepoPath :: string
  acd_BaseRef :: "string option"
  acd_PauseReason :: "string option"

record github_create_pr_step = base_step_fields +
  cpr_RepoUrl :: string
  cpr_BaseRef :: "string option"
  cpr_FilePaths :: "string list option"

datatype base_step =
    DockerBuildTestStep docker_build_step
  | DockerBuildTestPublishStep docker_build_step
  | ArgoCDStep argocd_step
  | GitHubCreatePrStep github_create_pr_step
  | OtherStep string base_step_fields

text \<open>A slice read with \<open>len\<close> or \<open>range\<close>: nil counts as empty.\<close>

definition items :: "'a list option \<Rightarrow> 'a list" where
  "items s = (case s of None \<Rightarrow> [] | Some xs \<Rightarrow> xs)"

lemma items_simps [simp]: "items None = []" "items (Some xs) = xs"
  by (simp_all add: items_def)

text \<open>The embedded fields of a step, and the methods they give it.\<close>

fun step_base :: "base_step \<Rightarrow> base_step_fields" where
  "step_base (DockerBuildTestStep s) = base_step_fields.truncate s"
| "step_base (DockerBuildTestPublishStep s) = base_step_fields.truncate s"
| "step_base (ArgoCDStep s) = base_step_fields.truncate s"
| "step_base (GitHubCreatePrStep s) = base_step_fields.truncate s"
| "step_base (OtherStep n b) = b"

definition GetStepName :: "base_step \<Rightarrow> string res" where
  "GetStepName s = deref (StepName (step_base s))"

definition GetStepSource :: "base_step \<Rightarrow> string" where
  "GetStepSource s = StepSource (step_base s)"

definition GetDependsOn :: "base_step \<Rightarrow> string list option" where
  "GetDependsOn s = DependsOn (step_base s)"

fun GetTriggerSource :: "base_trigger \<Rightarrow> string option" where
  "GetTriggerSource (GitHubPullRequestTrigger t) = Some (TriggerSource t)"
| "GetTriggerSource (GitHubPushTrigger t) = Some (TriggerSource t)"
| "GetTriggerSource (OtherTrigger n) = None"

text \<open>\<open>BaseStepFields.ApplyDefaults\<close>, on any struct that embeds the fields.\<close>

definition apply_base_defaults :: "'a base_step_fields_scheme \<Rightarrow> 'a base_step_fields_scheme" where
  "apply_base_defaults s =
     (case StepName s of None \<Rightarrow> s\<lparr>StepName := Some (StepSource s)\<rparr> | Some _ \<Rightarrow> s)"

section \<open>Flow\<close>

record condition =
  cond_Type :: string
  cond_Status :: string
  cond_Reason :: string
  cond_Message :: string

record flow =
  flow_Name :: string
  flow_Namespace :: string
  ActiveDeadlineSeconds :: "int option"
  Triggers :: "json list"
  Steps :: "json list"
  Conditions :: "condition list"

end
