(* ===== verification/Cluster_Builders.thy ===== *)
theory Cluster_Builders
  imports Flow_Types
begin

text \<open>
  Kubernetes objects and the builders of the objects that all flows of a namespace share: the
  EventBus, the BuildKit cache claim, the sensor's service account, role and role binding
  (\<open>internal/controller/eventbusbuilder\<close>, \<open>pvcbuilder\<close>, \<open>rbacbuilder\<close>), and the one
  EventSource of the cluster (\<open>eventsourcebuilder\<close>).

  An object is its type, its metadata and a spec of its own type. Library constants (kinds, API
  versions) have the values that the YAML files under \<open>testdata\<close> give them.
\<close>

record 'spec object =
  obj_Kind :: string
  obj_APIVersion :: string
  obj_Namespace :: string
  obj_Name :: string
  obj_Finalizers :: "string list"
  obj_Owner :: "string option"
  obj_Spec :: 'spec

definition new_object :: "string \<Rightarrow> string \<Rightarrow> string \<Rightarrow> string \<Rightarrow> 'spec \<Rightarrow> 'spec object" where
  "new_object kind api ns name spec =
     \<lparr>obj_Kind = kind, obj_APIVersion = api, obj_Namespace = ns, obj_Name = name,
      obj_Finalizers = [], obj_Owner = None, obj_Spec = spec\<rparr>"

lemma new_object_sel [simp]:
  "obj_Kind (new_object k a ns n s) = k" "obj_APIVersion (new_object k a ns n s) = a"
  "obj_Namespace (new_object k a ns n s) = ns" "obj_Name (new_object k a ns n s) = n"
  "obj_Finalizers (new_object k a ns n s) = []" "obj_Owner (new_object k a ns n s) = None"
  "obj_Spec (new_object k a ns n s) = s"
  by (simp_all add: new_object_def)

text \<open>The spec of one type as a member of a sum of spec types.\<close>

definition map_spec :: "('a \<Rightarrow> 'b) \<Rightarrow> 'a object \<Rightarrow> 'b object" where
  "map_spec f ob =
     \<lparr>obj_Kind = obj_Kind ob, obj_APIVersion = obj_APIVersion ob, obj_Namespace = obj_Namespace ob,
      obj_Name = obj_Name ob, obj_Finalizers = obj_Finalizers ob, obj_Owner = obj_Owner ob,
      obj_Spec = f (obj_Spec ob)\<rparr>"

lemma map_spec_sel [simp]:
  "obj_Kind (map_spec f ob) = obj_Kind ob" "obj_APIVersion (map_spec f ob) = obj_APIVersion ob"
  "obj_Namespace (map_spec f ob) = obj_Namespace ob" "obj_Name (map_spec f ob) = obj_Name ob"
  "obj_Finalizers (map_spec f ob) = obj_Finalizers ob" "obj_Owner (map_spec f ob) = obj_Owner ob"
  "obj_Spec (map_spec f ob) = f (obj_Spec ob)"
  by (simp_all add: map_spec_def)

section \<open>EventBus\<close>

definition eventBusName :: string where
  "eventBusName = ''default''"

definition jetStreamUrl :: string where
  "jetStreamUrl = ''nats://nats.nats''"

text \<open>Fields of the spec that the controller does not set are kept in \<open>eb_Rest\<close>.\<close>

record event_bus_spec =
  eb_JetStreamURL :: "string option"
  eb_Rest :: json

definition BuildEventBus :: "string \<Rightarrow> event_bus_spec object" where
  "BuildEventBus namespace = new_object ''EventBus'' ''argoproj.io/v1alpha1'' namespace eventBusName
     \<lparr>eb_JetStreamURL = Some jetStreamUrl, eb_Rest = JNull\<rparr>"

section \<open>BuildKit cache claim\<close>

definition BuildKitCachePVCName :: string where
  "BuildKitCachePVCName = ''buildkit-cache-pvc''"

definition buildKitCacheStorage :: string where
  "buildKitCacheStorage = ''15Gi''"

record pvc_spec =
  pvc_AccessModes :: "string list"
  pvc_Requests :: "(string \<times> string) list"
  pvc_Rest :: json

definition BuildBuildKitCachePVC :: "string \<Rightarrow> pvc_spec object" where
  "BuildBuildKitCachePVC namespace =
     new_object ''PersistentVolumeClaim'' ''v1'' namespace BuildKitCachePVCName
       \<lparr>pvc_AccessModes = [''ReadWriteOnce''],
        pvc_Requests = [(''storage'', buildKitCacheStorage)], pvc_Rest = JNull\<rparr>"

section \<open>Sensor RBAC\<close>

definition SensorServiceAccountName :: string where
  "SensorServiceAccountName = ''operate-workflow-sa''"

definition sensorRoleName :: string where
  "sensorRoleName = ''operate-workflow-role''"

definition sensorRoleBindingName :: string where
  "sensorRoleBindingName = ''operate-workflow-role-binding''"

record policy_rule =
  pr_APIGroups :: "string list"
  pr_Verbs :: "string list"
  pr_Resources :: "string list"

record role_ref =
  rr_APIGroup :: string
  rr_Kind :: string
  rr_Name :: string

record subject =
  sub_Kind :: string
  sub_Name :: string

record role_binding_spec =
  rb_RoleRef :: role_ref
  rb_Subjects :: "subject list"

definition BuildSensorServiceAccount :: "string \<Rightarrow> unit object" where
  "BuildSensorServiceAccount namespace =
     new_object ''ServiceAccount'' ''v1'' namespace SensorServiceAccountName ()"

definition BuildSensorRole :: "string \<Rightarrow> policy_rule list object" where
  "BuildSensorRole namespace =
     new_object ''Role'' ''rbac.authorization.k8s.io/v1'' namespace sensorRoleName
       [\<lparr>pr_APIGroups = [''argoproj.io''],
         pr_Verbs = [''create'', ''delete'', ''get'', ''list'', ''patch'', ''update'', ''watch''],
         pr_Resources = [''workflows'']\<rparr>]"

definition BuildSensorRoleBinding :: "string \<Rightarrow> role_binding_spec object" where
  "BuildSensorRoleBinding namespace =
     new_object ''RoleBinding'' ''rbac.authorization.k8s.io/v1'' namespace sensorRoleBindingName
       \<lparr>rb_RoleRef = \<lparr>rr_APIGroup = ''rbac.authorization.k8s.io'', rr_Kind = ''Role'',
                      rr_Name = sensorRoleName\<rparr>,
        rb_Subjects = [\<lparr>sub_Kind = ''ServiceAccount'', sub_Name = SensorServiceAccountName\<rparr>]\<rparr>"

section \<open>EventSource\<close>

definition eventSourceNamespace :: string where
  "eventSourceNamespace = ''argo-events''"

definition eventSourceName :: string where
  "eventSourceName = ''github''"

definition EventSourceSectionName :: string where
  "EventSourceSectionName = ''ghwebhook''"

record webhook_context =
  wh_Endpoint :: string
  wh_Method :: string
  wh_Port :: string
  wh_URL :: string

record secret_key_selector =
  sk_Name :: string
  sk_Key :: string

record owned_repositories =
  or_Owner :: string
  or_Names :: "string list"

record github_event_source =
  ges_Webhook :: "webhook_context option"
  ges_Events :: "string list"
  ges_APIToken :: "secret_key_selector option"
  ges_WebhookSecret :: "secret_key_selector option"
  ges_Insecure :: bool
  ges_Active :: bool
  ges_ContentType :: string
  ges_Repositories :: "owned_repositories list"
  ges_Rest :: json

record service_port =
  sp_Name :: string
  sp_Port :: int
  sp_TargetPort :: int

text \<open>\<open>Github\<close> is a Go map from section names, None being the nil map.\<close>

record event_source_spec =
  ess_Service :: "service_port list option"
  ess_Github :: "(string \<rightharpoonup> github_event_source) option"
  ess_Rest :: json

definition zero_github_event_source :: github_event_source where
  "zero_github_event_source =
     \<lparr>ges_Webhook = None, ges_Events = [], ges_APIToken = None, ges_WebhookSecret = None,
      ges_Insecure = False, ges_Active = False, ges_ContentType = [], ges_Repositories = [],
      ges_Rest = JNull\<rparr>"

definition githubEventSource :: github_event_source where
  "githubEventSource =
     \<lparr>ges_Webhook = Some \<lparr>wh_Endpoint = ''/push'', wh_Method = ''POST'', wh_Port = ''12000'',
                          wh_URL = ''https://argo-github.osoriano.com''\<rparr>,
      ges_Events = [''*''],
      ges_APIToken = Some \<lparr>sk_Name = ''github-access'', sk_Key = ''token''\<rparr>,
      ges_WebhookSecret = Some \<lparr>sk_Name = ''github-access'', sk_Key = ''secret''\<rparr>,
      ges_Insecure = False,
      ges_Active = True,
      ges_ContentType = ''json'',
      ges_Repositories = [],
      ges_Rest = JNull\<rparr>"

definition eventSourceSpec :: event_source_spec where
  "eventSourceSpec =
     \<lparr>ess_Service = Some [\<lparr>sp_Name = EventSourceSectionName, sp_Port = 12000, sp_TargetPort = 12000\<rparr>],
      ess_Github = Some [EventSourceSectionName \<mapsto> githubEventSource],
      ess_Rest = JNull\<rparr>"

definition getEventSourceSpecWithRepos :: "string \<Rightarrow> string \<Rightarrow> event_source_spec" where
  "getEventSourceSpecWithRepos repoOrg repoName =
     (let withRepos = githubEventSource
            \<lparr>ges_Repositories := [\<lparr>or_Owner = repoOrg, or_Names = [repoName]\<rparr>]\<rparr>
      in eventSourceSpec\<lparr>ess_Github := Some [EventSourceSectionName \<mapsto> withRepos]\<rparr>)"

definition BuildEventSource :: "string \<Rightarrow> string \<Rightarrow> event_source_spec object" where
  "BuildEventSource repoOrg repoName =
     new_object ''EventSource'' ''argoproj.io/v1alpha1'' eventSourceNamespace eventSourceName
       (getEventSourceSpecWithRepos repoOrg repoName)"

section \<open>Owned repositories\<close>

text \<open>
  \<open>mergeOwnedRepos\<close> of \<open>flow_controller.go\<close>: the first entry of the owner decides; the
  result is the list of entries and whether it changed.
\<close>

fun merge_owned :: "string \<Rightarrow> string \<Rightarrow> owned_repositories list \<Rightarrow> owned_repositories list \<times> bool" where
  "merge_owned repoOrg repoName [] = ([\<lparr>or_Owner = repoOrg, or_Names = [repoName]\<rparr>], True)"
| "merge_owned repoOrg repoName (r # rs) =
     (if or_Owner r = repoOrg
      then (if repoName \<in> set (or_Names r) then (r # rs, False)
            else (r\<lparr>or_Names := or_Names r @ [repoName]\<rparr> # rs, True))
      else (case merge_owned repoOrg repoName rs of (rs', changed) \<Rightarrow> (r # rs', changed)))"

text \<open>
  Reading a section of a nil or incomplete map gives the zero value; writing to a nil map panics.
\<close>

definition mergeOwnedRepos ::
  "event_source_spec \<Rightarrow> string \<Rightarrow> string \<Rightarrow> (event_source_spec \<times> bool) res" where
  "mergeOwnedRepos spec repoOrg repoName =
     (let sect = (case ess_Github spec of
                       None \<Rightarrow> zero_github_event_source
                     | Some m \<Rightarrow> (case m EventSourceSectionName of
                           None \<Rightarrow> zero_github_event_source | Some g \<Rightarrow> g)) in
      case merge_owned repoOrg repoName (ges_Repositories sect) of
        (repos, False) \<Rightarrow> Inr (spec, False)
      | (repos, True) \<Rightarrow>
          (case ess_Github spec of
             None \<Rightarrow> Inl Panicked
           | Some m \<Rightarrow> Inr (spec\<lparr>ess_Github := Some (m(EventSourceSectionName \<mapsto>
                            sect\<lparr>ges_Repositories := repos\<rparr>))\<rparr>, True)))"

text \<open>The repositories that the event source watches: the pairs of owner and name.\<close>

definition owned_set :: "owned_repositories list \<Rightarrow> (string \<times> string) set" where
  "owned_set rs = {(or_Owner r, n) | r n. r \<in> set rs \<and> n \<in> set (or_Names r)}"

text \<open>Entries with one owner at most, as the code leaves them.\<close>

definition owners_distinct :: "owned_repositories list \<Rightarrow> bool" where
  "owners_distinct rs \<longleftrightarrow> distinct (map or_Owner rs)"

lemma owned_set_simps [simp]:
  "owned_set [] = {}"
  "owned_set (r # rs) = (\<lambda>n. (or_Owner r, n)) ` set (or_Names r) \<union> owned_set rs"
  by (auto simp: owned_set_def)

lemma owned_set_fresh: "repoOrg \<notin> or_Owner ` set rs \<Longrightarrow> (repoOrg, n) \<notin> owned_set rs"
  by (auto simp: owned_set_def)

lemma merge_owned_set: "owned_set (fst (merge_owned o1 n rs)) = insert (o1, n) (owned_set rs)"
  by (induction o1 n rs rule: merge_owned.induct) (auto split: prod.splits)

lemma merge_owned_owners:
  "or_Owner ` set (fst (merge_owned o1 n rs)) = insert o1 (or_Owner ` set rs)"
proof (induction o1 n rs rule: merge_owned.induct)
  case (2 o1 n r rs)
  then show ?case by (cases "merge_owned o1 n rs") (simp add: insert_commute insert_absorb)
qed simp

lemma merge_owned_distinct: "owners_distinct rs \<Longrightarrow> owners_distinct (fst (merge_owned o1 n rs))"
proof (induction o1 n rs rule: merge_owned.induct)
  case (2 o1 n r rs)
  then show ?case
    using merge_owned_owners [of o1 n rs]
    by (auto simp: owners_distinct_def split: prod.splits)
qed (simp add: owners_distinct_def)

lemma merge_owned_unchanged: "\<not> snd (merge_owned o1 n rs) \<Longrightarrow> fst (merge_owned o1 n rs) = rs"
  by (induction o1 n rs rule: merge_owned.induct) (auto split: prod.splits if_splits)

lemma merge_owned_changed:
  "owners_distinct rs \<Longrightarrow> snd (merge_owned o1 n rs) \<longleftrightarrow> (o1, n) \<notin> owned_set rs"
proof (induction o1 n rs rule: merge_owned.induct)
  case (2 o1 n r rs)
  then show ?case
    by (auto simp: owners_distinct_def owned_set_fresh image_iff split: prod.splits)
qed simp

lemma merge_owned_again: "snd (merge_owned o1 n (fst (merge_owned o1 n rs))) = False"
  by (induction o1 n rs rule: merge_owned.induct) (auto split: prod.splits)

text \<open>Whether the first entry of the owner has the name: all that the code looks at.\<close>

definition in_first_entry :: "string \<Rightarrow> string \<Rightarrow> owned_repositories list \<Rightarrow> bool" where
  "in_first_entry repoOrg repoName rs \<longleftrightarrow>
     (case List.find (\<lambda>r. or_Owner r = repoOrg) rs of
        None \<Rightarrow> False | Some r \<Rightarrow> repoName \<in> set (or_Names r))"

lemma merge_owned_first: "snd (merge_owned o1 n rs) \<longleftrightarrow> \<not> in_first_entry o1 n rs"
  by (induction o1 n rs rule: merge_owned.induct) (auto simp: in_first_entry_def split: prod.splits)

lemma merge_owned_owner_list:
  "map or_Owner (fst (merge_owned o1 n rs)) =
     map or_Owner rs @ (if o1 \<in> or_Owner ` set rs then [] else [o1])"
  by (induction o1 n rs rule: merge_owned.induct) (auto split: prod.splits)

text \<open>The entries of the webhook section of a spec with a non-nil section map.\<close>

definition section_repos :: "event_source_spec \<Rightarrow> owned_repositories list" where
  "section_repos spec =
     (case ess_Github spec of
        None \<Rightarrow> []
      | Some m \<Rightarrow> (case m EventSourceSectionName of None \<Rightarrow> [] | Some g \<Rightarrow> ges_Repositories g))"

lemma mergeOwnedRepos_eq:
  "ess_Github spec = Some m \<Longrightarrow>
     mergeOwnedRepos spec repoOrg repoName =
       (let (repos, changed) = merge_owned repoOrg repoName (section_repos spec);
            g = (case m EventSourceSectionName of None \<Rightarrow> zero_github_event_source | Some g \<Rightarrow> g)
        in if changed
           then Inr (spec\<lparr>ess_Github := Some (m(EventSourceSectionName \<mapsto> g\<lparr>ges_Repositories := repos\<rparr>))\<rparr>, True)
           else Inr (spec, False))"
  by (auto simp: mergeOwnedRepos_def section_repos_def zero_github_event_source_def Let_def
      split: option.splits prod.splits)

lemma mergeOwnedRepos_result:
  assumes "ess_Github spec = Some m"
  shows "\<exists>spec' changed. mergeOwnedRepos spec repoOrg repoName = Inr (spec', changed)
    \<and> owned_set (section_repos spec') = insert (repoOrg, repoName) (owned_set (section_repos spec))
    \<and> map or_Owner (section_repos spec') = map or_Owner (section_repos spec)
        @ (if repoOrg \<in> or_Owner ` set (section_repos spec) then [] else [repoOrg])
    \<and> (changed \<longleftrightarrow> \<not> in_first_entry repoOrg repoName (section_repos spec))
    \<and> (owners_distinct (section_repos spec) \<longrightarrow>
         (changed \<longleftrightarrow> (repoOrg, repoName) \<notin> owned_set (section_repos spec)))
    \<and> (\<not> changed \<longrightarrow> spec' = spec)
    \<and> (\<forall>s. s \<noteq> EventSourceSectionName \<longrightarrow> the (ess_Github spec') s = m s)
    \<and> mergeOwnedRepos spec' repoOrg repoName = Inr (spec', False)"
proof -
  obtain repos changed where mo: "merge_owned repoOrg repoName (section_repos spec) = (repos, changed)"
    by fastforce
  have set: "owned_set repos = insert (repoOrg, repoName) (owned_set (section_repos spec))"
    and owners: "map or_Owner repos = map or_Owner (section_repos spec)
        @ (if repoOrg \<in> or_Owner ` set (section_repos spec) then [] else [repoOrg])"
    and first: "changed \<longleftrightarrow> \<not> in_first_entry repoOrg repoName (section_repos spec)"
    and ch: "owners_distinct (section_repos spec) \<longrightarrow>
        (changed \<longleftrightarrow> (repoOrg, repoName) \<notin> owned_set (section_repos spec))"
    and un: "\<not> changed \<Longrightarrow> repos = section_repos spec"
    and again: "snd (merge_owned repoOrg repoName repos) = False"
    using merge_owned_set [of repoOrg repoName "section_repos spec"]
      merge_owned_owner_list [of repoOrg repoName "section_repos spec"]
      merge_owned_first [of repoOrg repoName "section_repos spec"]
      merge_owned_changed [of "section_repos spec" repoOrg repoName]
      merge_owned_unchanged [of repoOrg repoName "section_repos spec"]
      merge_owned_again [of repoOrg repoName "section_repos spec"]
    by (simp_all add: mo)
  define g where "g = (case m EventSourceSectionName of None \<Rightarrow> zero_github_event_source | Some g \<Rightarrow> g)"
  define spec' where "spec' = (if changed
     then spec\<lparr>ess_Github := Some (m(EventSourceSectionName \<mapsto> g\<lparr>ges_Repositories := repos\<rparr>))\<rparr> else spec)"
  have run: "mergeOwnedRepos spec repoOrg repoName = Inr (spec', changed)"
    by (simp add: mergeOwnedRepos_eq [OF assms] mo spec'_def g_def)
  have repos': "section_repos spec' = repos"
    using un by (auto simp: spec'_def section_repos_def)
  have "\<exists>m'. ess_Github spec' = Some m' \<and> (\<forall>s. s \<noteq> EventSourceSectionName \<longrightarrow> m' s = m s)"
    using assms by (auto simp: spec'_def)
  then obtain m' where m': "ess_Github spec' = Some m'" "\<forall>s. s \<noteq> EventSourceSectionName \<longrightarrow> m' s = m s"
    by blast
  have "mergeOwnedRepos spec' repoOrg repoName = Inr (spec', False)"
    using again by (auto simp: mergeOwnedRepos_eq [OF m'(1)] repos' Let_def split: prod.splits)
  moreover have "\<not> changed \<longrightarrow> spec' = spec" by (simp add: spec'_def)
  ultimately show ?thesis
    using run set owners first ch m'
    by (intro exI [of _ spec'] exI [of _ changed]) (simp only: repos' option.sel simp_thms)
qed

text \<open>
  C31. Merging a repository into the EventSource succeeds whenever the section map exists, and adds
  exactly that repository to the watched set. It adds an entry at the end if the owner has none and
  no entry otherwise. It reports a change exactly if the first entry of the owner does not have the
  repository; if no two entries have the same owner, this is exactly if the repository was not
  watched. It leaves the spec alone when it reports no change, touches no other section, and has
  nothing left to do when repeated.
\<close>

theorem mergeOwnedRepos_correct:
  assumes "ess_Github spec = Some m"
  shows "\<exists>spec' changed. mergeOwnedRepos spec repoOrg repoName = Inr (spec', changed)
    \<and> owned_set (section_repos spec') = insert (repoOrg, repoName) (owned_set (section_repos spec))
    \<and> map or_Owner (section_repos spec') = map or_Owner (section_repos spec)
        @ (if repoOrg \<in> or_Owner ` set (section_repos spec) then [] else [repoOrg])
    \<and> (changed \<longleftrightarrow> \<not> in_first_entry repoOrg repoName (section_repos spec))
    \<and> (owners_distinct (section_repos spec) \<longrightarrow>
         (changed \<longleftrightarrow> (repoOrg, repoName) \<notin> owned_set (section_repos spec)))
    \<and> (\<not> changed \<longrightarrow> spec' = spec)
    \<and> (\<forall>s. s \<noteq> EventSourceSectionName \<longrightarrow> the (ess_Github spec') s = m s)
    \<and> mergeOwnedRepos spec' repoOrg repoName = Inr (spec', False)"
  by (rule mergeOwnedRepos_result [OF assms])

theorem mergeOwnedRepos_correct_witness:
  "\<exists>spec' changed. mergeOwnedRepos (getEventSourceSpecWithRepos ''org'' ''app'') ''org'' ''lib''
     = Inr (spec', changed) \<and> changed"
proof -
  let ?spec = "getEventSourceSpecWithRepos ''org'' ''app''"
  have sec: "section_repos ?spec = [\<lparr>or_Owner = ''org'', or_Names = [''app'']\<rparr>]"
    by (simp add: getEventSourceSpecWithRepos_def section_repos_def Let_def)
  obtain m where "ess_Github ?spec = Some m"
    by (simp add: getEventSourceSpecWithRepos_def Let_def)
  from mergeOwnedRepos_correct [OF this, of "''org''" "''lib''"] show ?thesis
    by (auto simp: sec in_first_entry_def)
qed

text \<open>
  A freshly built EventSource already watches its repository: merging the repository it was
  built for changes nothing, so a create and a later merge agree.
\<close>

lemma BuildEventSource_merged:
  "mergeOwnedRepos (obj_Spec (BuildEventSource repoOrg repoName)) repoOrg repoName
     = Inr (obj_Spec (BuildEventSource repoOrg repoName), False)
   \<and> owned_set (section_repos (obj_Spec (BuildEventSource repoOrg repoName))) = {(repoOrg, repoName)}"
  by (simp add: BuildEventSource_def getEventSourceSpecWithRepos_def mergeOwnedRepos_def
      section_repos_def Let_def)

end
