(* ===== verification/App_Builder.thy ===== *)
theory App_Builder
  imports Cluster_Builders Gitutil
begin

text \<open>
  The ArgoCD projects and applications of a flow
  (\<open>internal/controller/appbuilder/app_builder.go\<close>): one project per repository organisation
  and one application per application name, in the order of the ArgoCD steps. The loop with its two
  sets of names is shown to compute the first occurrences of each key.
\<close>

section \<open>Types and constants\<close>

definition argocdNamespace :: string where
  "argocdNamespace = ''argocd''"

definition configRepoSuffix :: string where
  "configRepoSuffix = ''-argo-configs''"

definition defaultFinalizer :: string where
  "defaultFinalizer = ''resources-finalizer.argocd.argoproj.io''"

definition targetRevision :: string where
  "targetRevision = ''HEAD''"

definition destinationServer :: string where
  "destinationServer = ''https://kubernetes.default.svc''"

definition syncOption :: string where
  "syncOption = ''CreateNamespace=true''"

record destination =
  dst_Server :: string
  dst_Namespace :: string

record cluster_resource =
  cr_Group :: string
  cr_Kind :: string
  cr_Name :: string

record app_project_spec =
  ap_SourceRepos :: "string list"
  ap_Destinations :: "destination list"
  ap_SourceNamespaces :: "string list"
  ap_ClusterResourceWhitelist :: "cluster_resource list"
  ap_Rest :: json

record application_source =
  as_RepoURL :: string
  as_Path :: string
  as_TargetRevision :: string

record sync_policy =
  sy_Prune :: bool
  sy_SelfHeal :: bool
  sy_Enabled :: "bool option"
  sy_SyncOptions :: "string list"
  sy_RetryRefresh :: "bool option"

record application_spec =
  app_Source :: "application_source option"
  app_Destination :: destination
  app_Project :: string
  app_SyncPolicy :: "sync_policy option"
  app_Rest :: json

section \<open>Building\<close>

definition GetAppName :: "string \<Rightarrow> string \<Rightarrow> string" where
  "GetAppName repoName repoPath =
     trim_suffix configRepoSuffix repoName @ ''-'' @ replace_char (CHR ''/'') (CHR ''-'') repoPath"

definition build_project :: "string \<Rightarrow> app_project_spec object" where
  "build_project repoOrg =
     new_object ''AppProject'' ''argoproj.io/v1alpha1'' argocdNamespace repoOrg
       \<lparr>ap_SourceRepos = [GetSourceRepoGlob repoOrg],
        ap_Destinations = [\<lparr>dst_Server = destinationServer, dst_Namespace = repoOrg\<rparr>],
        ap_SourceNamespaces = [repoOrg],
        ap_ClusterResourceWhitelist =
          [\<lparr>cr_Group = ''*'', cr_Kind = ''*'', cr_Name = repoOrg @ ''-*''\<rparr>],
        ap_Rest = JNull\<rparr>"

definition step_enabled :: "argocd_step \<Rightarrow> bool" where
  "step_enabled s = (case acd_PauseReason s of None \<Rightarrow> True | Some r \<Rightarrow> is_blank r)"

definition build_application :: "string \<Rightarrow> string \<Rightarrow> argocd_step \<Rightarrow> application_spec object" where
  "build_application repoOrg appName s =
     (new_object ''Application'' ''argoproj.io/v1alpha1'' repoOrg appName
       \<lparr>app_Source = Some \<lparr>as_RepoURL = acd_RepoUrl s, as_Path = acd_RepoPath s,
                           as_TargetRevision = targetRevision\<rparr>,
        app_Destination = \<lparr>dst_Server = destinationServer, dst_Namespace = repoOrg\<rparr>,
        app_Project = repoOrg,
        app_SyncPolicy = Some \<lparr>sy_Prune = True, sy_SelfHeal = True, sy_Enabled = Some (step_enabled s),
                               sy_SyncOptions = [syncOption], sy_RetryRefresh = Some True\<rparr>,
        app_Rest = JNull\<rparr>)\<lparr>obj_Finalizers := [defaultFinalizer]\<rparr>"

text \<open>The state of the loop: the two name sets and the two slices.\<close>

record apps_state =
  projectNames :: "string set"
  appNames :: "string set"
  projects :: "app_project_spec object list"
  applications :: "application_spec object list"

definition argocd_iteration :: "argocd_step \<Rightarrow> apps_state \<Rightarrow> apps_state res" where
  "argocd_iteration s st =
     and_then (GetRepoOrgName (acd_RepoUrl s)) (\<lambda>(repoOrg, repoName).
       let st1 = (if repoOrg \<notin> projectNames st
                  then st\<lparr>projectNames := insert repoOrg (projectNames st),
                          projects := projects st @ [build_project repoOrg]\<rparr>
                  else st);
           appName = GetAppName repoName (acd_RepoPath s);
           st2 = (if appName \<notin> appNames st1
                  then st1\<lparr>appNames := insert appName (appNames st1),
                           applications := applications st1 @ [build_application repoOrg appName s]\<rparr>
                  else st1)
       in Inr st2)"

fun apps_loop :: "base_step list \<Rightarrow> apps_state \<Rightarrow> apps_state res" where
  "apps_loop [] st = Inr st"
| "apps_loop (ArgoCDStep s # ss) st = and_then (argocd_iteration s st) (apps_loop ss)"
| "apps_loop (s # ss) st = apps_loop ss st"

definition BuildArgoApps ::
  "base_step list \<Rightarrow> (app_project_spec object list \<times> application_spec object list) res" where
  "BuildArgoApps flowSteps =
     and_then (apps_loop flowSteps
         \<lparr>projectNames = {}, appNames = {}, projects = [], applications = []\<rparr>)
       (\<lambda>st. Inr (projects st, applications st))"

section \<open>What the loop computes\<close>

fun argocd_steps :: "base_step list \<Rightarrow> argocd_step list" where
  "argocd_steps [] = []"
| "argocd_steps (ArgoCDStep s # ss) = s # argocd_steps ss"
| "argocd_steps (s # ss) = argocd_steps ss"

text \<open>A step with its parsed repository: organisation, application name, step.\<close>

definition resolve :: "argocd_step \<Rightarrow> (string \<times> string \<times> argocd_step) res" where
  "resolve s =
     and_then (GetRepoOrgName (acd_RepoUrl s)) (\<lambda>(repoOrg, repoName).
       Inr (repoOrg, GetAppName repoName (acd_RepoPath s), s))"

definition project_list ::
  "string set \<Rightarrow> (string \<times> string \<times> argocd_step) list \<Rightarrow> app_project_spec object list" where
  "project_list seen rs = map (\<lambda>(org, name, s). build_project org) (firsts fst seen rs)"

definition application_list ::
  "string set \<Rightarrow> (string \<times> string \<times> argocd_step) list \<Rightarrow> application_spec object list" where
  "application_list seen rs =
     map (\<lambda>(org, name, s). build_application org name s) (firsts (\<lambda>(org, name, s). name) seen rs)"

lemma argocd_iteration_eq:
  "argocd_iteration s st = and_then (resolve s) (\<lambda>(org, name, s').
     Inr (st\<lparr>projectNames := insert org (projectNames st),
             projects := projects st @ project_list (projectNames st) [(org, name, s')],
             appNames := insert name (appNames st),
             applications := applications st @ application_list (appNames st) [(org, name, s')]\<rparr>))"
  by (cases st; cases "GetRepoOrgName (acd_RepoUrl s)")
     (auto simp: argocd_iteration_def resolve_def project_list_def application_list_def Let_def insert_absorb)

lemma lists_Cons:
  "project_list A [(org, name, s)] @ project_list (insert org A) rs
     = project_list A ((org, name, s) # rs)"
  "application_list B [(org, name, s)] @ application_list (insert name B) rs
     = application_list B ((org, name, s) # rs)"
  by (auto simp: project_list_def application_list_def insert_absorb)

lemma apps_loop_eq:
  "apps_loop ss st = and_then (traverse resolve (argocd_steps ss)) (\<lambda>rs.
     Inr (st\<lparr>projectNames := projectNames st \<union> fst ` set rs,
             appNames := appNames st \<union> (\<lambda>(org, name, s). name) ` set rs,
             projects := projects st @ project_list (projectNames st) rs,
             applications := applications st @ application_list (appNames st) rs\<rparr>))"
proof (induction ss st rule: apps_loop.induct)
  case (1 st)
  show ?case by (simp add: project_list_def application_list_def)
next
  case (2 s ss st)
  show ?case
  proof (cases "resolve s")
    case (Inl e)
    then show ?thesis by (simp add: argocd_iteration_eq)
  next
    case (Inr r)
    obtain org name s' where r: "r = (org, name, s')" by (cases r)
    let ?st = "st\<lparr>projectNames := insert org (projectNames st),
             projects := projects st @ project_list (projectNames st) [(org, name, s')],
             appNames := insert name (appNames st),
             applications := applications st @ application_list (appNames st) [(org, name, s')]\<rparr>"
    have it: "argocd_iteration s st = Inr ?st" by (simp add: argocd_iteration_eq Inr r)
    show ?thesis
    proof (cases "traverse resolve (argocd_steps ss)")
      case (Inl e)
      with 2 [OF it] it Inr show ?thesis by simp
    next
      case (Inr rs)
      with 2 [OF it] it \<open>resolve s = Inr r\<close> show ?thesis
        by (simp add: r lists_Cons)
    qed
  qed
qed simp_all

lemma BuildArgoApps_eq:
  "BuildArgoApps ss = and_then (traverse resolve (argocd_steps ss)) (\<lambda>rs. 
     Inr (project_list {} rs, application_list {} rs))"
  by (cases "traverse resolve (argocd_steps ss)")
     (simp_all add: BuildArgoApps_def apps_loop_eq project_list_def application_list_def)

text \<open>
  C32. The projects and applications of a flow are exactly the following. If the repository URL of
  every ArgoCD step parses, there is one project for each organisation and one application for each
  application name, in the order of first occurrence, the application being the one of the first
  step of that name; otherwise the result is the error of the first step whose URL does not parse.
\<close>

theorem BuildArgoApps_exact:
  "BuildArgoApps ss = and_then (traverse resolve (argocd_steps ss)) (\<lambda>rs. 
     Inr (project_list {} rs, application_list {} rs))"
  by (rule BuildArgoApps_eq)

section \<open>Consequences\<close>

lemma argocd_steps_iff: "s \<in> set (argocd_steps ss) \<longleftrightarrow> ArgoCDStep s \<in> set ss"
  by (induction ss rule: argocd_steps.induct) auto

lemma resolve_Inr:
  "resolve s = Inr (org, name, s') \<longleftrightarrow>
     s' = s \<and> (\<exists>repo. GetRepoOrgName (acd_RepoUrl s) = Inr (org, repo) \<and> name = GetAppName repo (acd_RepoPath s))"
  by (auto simp: resolve_def)

lemma BuildArgoApps_no_panic: "BuildArgoApps ss \<noteq> Inl Panicked"
proof -
  have "traverse resolve (argocd_steps ss) \<noteq> Inl Panicked"
    by (rule traverse_Inl_not)
       (auto simp: resolve_def and_then_Inl_iff GetRepoOrgName_no_panic split: prod.splits)
  then show ?thesis by (simp add: BuildArgoApps_eq and_then_Inl_iff)
qed

lemma build_application_sel [simp]:
  "obj_Name (build_application org name s) = name"
  "obj_Namespace (build_application org name s) = org"
  "obj_Kind (build_application org name s) = ''Application''"
  "obj_Owner (build_application org name s) = None"
  by (simp_all add: build_application_def)

lemma build_project_sel [simp]:
  "obj_Name (build_project org) = org"
  "obj_Namespace (build_project org) = argocdNamespace"
  "obj_Kind (build_project org) = ''AppProject''"
  by (simp_all add: build_project_def)

lemma project_list_names:
  "map obj_Name (project_list A rs) = map fst (firsts fst A rs)"
  by (induction rs arbitrary: A) (auto simp: project_list_def application_list_def)

lemma application_list_names:
  "map obj_Name (application_list B rs) = map (\<lambda>(org, name, s). name) (firsts (\<lambda>(org, name, s). name) B rs)"
  by (induction rs arbitrary: B) (auto simp: project_list_def application_list_def)

lemma BuildArgoApps_built:
  "BuildArgoApps ss = Inr (ps, apps) \<Longrightarrow> p \<in> set ps \<Longrightarrow> \<exists>org. p = build_project org"
  by (auto simp: BuildArgoApps_eq project_list_def)

lemma BuildArgoApps_distinct:
  assumes "BuildArgoApps ss = Inr (ps, apps)"
  shows "distinct (map obj_Name ps) \<and> distinct (map obj_Name apps)
    \<and> (\<forall>a \<in> set apps. \<exists>p \<in> set ps. obj_Name p = obj_Namespace a
          \<and> app_Project (obj_Spec a) = obj_Name p
          \<and> dst_Namespace (app_Destination (obj_Spec a)) = obj_Name p)
    \<and> (\<forall>s. ArgoCDStep s \<in> set ss \<longrightarrow>
          (\<exists>org repo. GetRepoOrgName (acd_RepoUrl s) = Inr (org, repo)
             \<and> (\<exists>a \<in> set apps. obj_Name a = GetAppName repo (acd_RepoPath s))))"
proof -
  from assms obtain rs where rs: "traverse resolve (argocd_steps ss) = Inr rs"
    and ps: "ps = project_list {} rs" and apps: "apps = application_list {} rs"
    by (auto simp: BuildArgoApps_eq)
  have dp: "distinct (map obj_Name ps)" and da: "distinct (map obj_Name apps)"
    unfolding ps apps project_list_names application_list_names by (rule firsts_distinct)+
  have names: "obj_Name ` set ps = fst ` set rs"
    using arg_cong [OF project_list_names [of "{}" rs], of set] firsts_keys [of fst "{}" rs]
    by (simp add: ps)
  have anames: "obj_Name ` set apps = (\<lambda>(org, name, s). name) ` set rs"
    using arg_cong [OF application_list_names [of "{}" rs], of set]
      firsts_keys [of "\<lambda>(org, name, s). name" "{}" rs]
    by (simp add: apps)
  have closed: "\<exists>p \<in> set ps. obj_Name p = obj_Namespace a \<and> app_Project (obj_Spec a) = obj_Name p
      \<and> dst_Namespace (app_Destination (obj_Spec a)) = obj_Name p" if a: "a \<in> set apps" for a
  proof -
    from a obtain org name s where s: "(org, name, s) \<in> set rs" "a = build_application org name s"
      using firsts_subset [of "\<lambda>(org, name, s). name" "{}" rs] by (auto simp: apps project_list_def application_list_def)
    from s(1) have "org \<in> obj_Name ` set ps" by (force simp: names)
    with s(2) show ?thesis by (auto simp: build_application_def)
  qed
  have cover: "\<exists>org repo. GetRepoOrgName (acd_RepoUrl s) = Inr (org, repo)
      \<and> (\<exists>a \<in> set apps. obj_Name a = GetAppName repo (acd_RepoPath s))" if s: "ArgoCDStep s \<in> set ss" for s
  proof -
    from s obtain i where i: "i < length (argocd_steps ss)" "argocd_steps ss ! i = s"
      by (metis argocd_steps_iff in_set_conv_nth)
    obtain org name s' where r: "rs ! i = (org, name, s')" by (cases "rs ! i")
    from traverse_nth [OF rs i(1)] i(2) r have res: "resolve s = Inr (org, name, s')" by simp
    have "(org, name, s') \<in> set rs"
      using i(1) traverse_length [OF rs] r by (metis nth_mem)
    then have "name \<in> obj_Name ` set apps" by (force simp: anames)
    with res show ?thesis by (auto simp: resolve_Inr)
  qed
  from dp da closed cover show ?thesis by blast
qed

text \<open>
  The result is closed and free of duplicates: project names are distinct, application names are
  distinct, every application belongs to a project of the result that also is its namespace and its
  destination, and every ArgoCD step has an application of its name, synchronised automatically
  unless that application's step is paused.
\<close>

lemma BuildArgoApps_closed:
  assumes "BuildArgoApps ss = Inr (ps, apps)"
  shows "distinct (map obj_Name ps) \<and> distinct (map obj_Name apps)
    \<and> (\<forall>a \<in> set apps. \<exists>p \<in> set ps. obj_Name p = obj_Namespace a
          \<and> app_Project (obj_Spec a) = obj_Name p
          \<and> dst_Namespace (app_Destination (obj_Spec a)) = obj_Name p)
    \<and> (\<forall>s. ArgoCDStep s \<in> set ss \<longrightarrow>
          (\<exists>org repo. GetRepoOrgName (acd_RepoUrl s) = Inr (org, repo)
             \<and> (\<exists>a \<in> set apps. obj_Name a = GetAppName repo (acd_RepoPath s))))"
  by (rule BuildArgoApps_distinct [OF assms])

definition sample_argocd :: "string \<Rightarrow> string \<Rightarrow> string \<Rightarrow> argocd_step" where
  "sample_argocd name url path =
     \<lparr>StepName = Some name, StepSource = ''ArgoCD'', DependsOn = None, Volumes = None,
      VolumeMounts = None, acd_RepoUrl = url, acd_RepoPath = path, acd_BaseRef = Some ''main'',
      acd_PauseReason = None\<rparr>"

lemma sample_resolve:
  "no_slash org \<Longrightarrow> no_slash repo \<Longrightarrow>
     resolve (sample_argocd name (repo_url org repo @ gitSuffix) path)
       = Inr (org, GetAppName repo path, sample_argocd name (repo_url org repo @ gitSuffix) path)"
  by (simp add: resolve_def sample_argocd_def)

theorem BuildArgoApps_closed_witness:
  "\<exists>ps apps. BuildArgoApps [ArgoCDStep (sample_argocd ''dev'' (repo_url ''org'' ''app'' @ gitSuffix) ''dev'')]
     = Inr (ps, apps) \<and> distinct (map obj_Name ps) \<and> apps \<noteq> []"
proof -
  let ?s = "sample_argocd ''dev'' (repo_url ''org'' ''app'' @ gitSuffix) ''dev''"
  have "resolve ?s = Inr (''org'', GetAppName ''app'' ''dev'', ?s)"
    by (rule sample_resolve) (simp_all add: no_slash_def)
  then obtain ps apps where run: "BuildArgoApps [ArgoCDStep ?s] = Inr (ps, apps)" and "apps \<noteq> []"
    by (simp add: BuildArgoApps_eq project_list_def application_list_def)
  with BuildArgoApps_closed [OF run] show ?thesis by blast
qed

text \<open>
  Application names are tracked without their namespace. Two ArgoCD steps whose repositories
  have the same name in two organisations and whose paths agree up to \<open>/\<close> and \<open>-\<close> yield two
  projects but a single application, in the organisation of the first step: the deployment of the
  second step has no application.
\<close>

lemma application_of_second_org_dropped:
  assumes "no_slash org1" and "no_slash org2" and "no_slash repo" and "org1 \<noteq> org2"
    and "replace_char (CHR ''/'') (CHR ''-'') path1 = replace_char (CHR ''/'') (CHR ''-'') path2"
    and "acd_RepoUrl s1 = repo_url org1 repo @ gitSuffix" and "acd_RepoPath s1 = path1"
    and "acd_RepoUrl s2 = repo_url org2 repo @ gitSuffix" and "acd_RepoPath s2 = path2"
  shows "\<exists>ps a. BuildArgoApps [ArgoCDStep s1, ArgoCDStep s2] = Inr (ps, [a])
    \<and> map obj_Name ps = [org1, org2] \<and> obj_Namespace a = org1"
  using assms
  by (simp add: BuildArgoApps_eq resolve_def project_list_def application_list_def GetAppName_def)

theorem application_of_second_org_dropped_witness:
  "\<exists>ps a. BuildArgoApps
      [ArgoCDStep (sample_argocd ''a'' (repo_url ''org1'' ''app'' @ gitSuffix) ''dev''),
       ArgoCDStep (sample_argocd ''b'' (repo_url ''org2'' ''app'' @ gitSuffix) ''dev'')] = Inr (ps, [a])
    \<and> map obj_Name ps = [''org1'', ''org2''] \<and> obj_Namespace a = ''org1''"
  by (rule application_of_second_org_dropped [where repo = "''app''" and ?path1.0 = "''dev''" and ?path2.0 = "''dev''"])
     (simp_all add: no_slash_def sample_argocd_def)

end
