(* ===== verification/Workflow_Templates.thy ===== *)
theory Workflow_Templates
  imports Flow_Types
begin

text \<open>
  The Argo workflow types the controller fills in, and the cluster workflow template with its six
  templates (\<open>internal/workflowtemplates/workflowtemplates.go\<close>).

  The templates are checked as programs are: every parameter a container refers to is an input of
  its template, every mounted volume is declared, container dependencies exist, names are distinct.
\<close>

section \<open>Types\<close>

record parameter =
  par_Name :: string
  par_Value :: "string option"
  par_ValueFromPath :: "string option"
  par_GlobalName :: string

record container =
  ctr_Image :: string
  ctr_Args :: "string list"
  ctr_VolumeMounts :: "volume_mount list"

record security_context =
  sc_RunAsUser :: int
  sc_RunAsGroup :: int
  sc_SeccompProfile :: string
  sc_AppArmorProfile :: string

record container_node =
  cn_Name :: string
  cn_Image :: string
  cn_Args :: "string list"
  cn_Env :: "(string \<times> string) list"
  cn_SecurityContext :: "security_context option"
  cn_VolumeMounts :: "volume_mount list"
  cn_Dependencies :: "string list"

record container_set =
  cs_Containers :: "container_node list"
  cs_VolumeMounts :: "volume_mount list"

record artifact =
  af_Name :: string
  af_Path :: string
  af_S3Key :: string
  af_Optional :: bool

record template_ref =
  tr_Name :: string
  tr_Template :: string
  tr_ClusterScope :: bool

record dag_task =
  dt_Name :: string
  dt_Arguments :: "parameter list"
  dt_TemplateRef :: "template_ref option"
  dt_Template :: string
  dt_Depends :: string
  dt_When :: string

record wf_template =
  tpl_Name :: string
  tpl_ActiveDeadlineSeconds :: "int option"
  tpl_Inputs :: "parameter list"
  tpl_DAG :: "dag_task list option"
  tpl_Container :: "container option"
  tpl_ContainerSet :: "container_set option"
  tpl_Volumes :: "volume list"
  tpl_OutputParameters :: "parameter list"
  tpl_OutputArtifacts :: "artifact list"
  tpl_Mutexes :: "string list"

record cluster_workflow_template =
  cwt_Kind :: string
  cwt_APIVersion :: string
  cwt_Name :: string
  cwt_Templates :: "wf_template list"

text \<open>A parameter without a value, one with \<open>AnyStringPtr(v)\<close>, and one read from a file.\<close>

definition param :: "string \<Rightarrow> parameter" where
  "param n = \<lparr>par_Name = n, par_Value = None, par_ValueFromPath = None, par_GlobalName = []\<rparr>"

definition param_val :: "string \<Rightarrow> string \<Rightarrow> parameter" where
  "param_val n v = (param n)\<lparr>par_Value := Some v\<rparr>"

definition param_file :: "string \<Rightarrow> string \<Rightarrow> parameter" where
  "param_file n path = (param n)\<lparr>par_ValueFromPath := Some path\<rparr>"

definition mount :: "string \<Rightarrow> string \<Rightarrow> volume_mount" where
  "mount n path = \<lparr>mnt_Name = n, mnt_MountPath = path, mnt_Rest = JNull\<rparr>"

definition vol :: "string \<Rightarrow> volume_source \<Rightarrow> volume" where
  "vol n src = \<lparr>vol_Name = n, vol_Source = src\<rparr>"

definition empty_template :: "string \<Rightarrow> wf_template" where
  "empty_template n =
     \<lparr>tpl_Name = n, tpl_ActiveDeadlineSeconds = None, tpl_Inputs = [], tpl_DAG = None,
      tpl_Container = None, tpl_ContainerSet = None, tpl_Volumes = [], tpl_OutputParameters = [],
      tpl_OutputArtifacts = [], tpl_Mutexes = []\<rparr>"

section \<open>Constants\<close>

definition imageRegistry :: string where
  "imageRegistry = ''ghcr.io/''"

definition githubAppId :: string where
  "githubAppId = ''1682308''"

definition githubAppUserId :: string where
  "githubAppUserId = ''223206062''"

definition githubAppUserName :: string where
  "githubAppUserName = ''jettisonproj[bot]''"

definition deployStepsGitHubCheckImage :: string where
  "deployStepsGitHubCheckImage =
     ''ghcr.io/jettisonproj/deploy-steps/github-check:e0d5ee67db38370b45a574df26e4c98fe2b36a5c''"

definition deployStepsArgoCDImage :: string where
  "deployStepsArgoCDImage =
     ''ghcr.io/jettisonproj/deploy-steps/argocd:b1bd723eae2a563d92f6593bf571d8b7f6ace363''"

definition deployStepsDockerBuildDiffCheckImage :: string where
  "deployStepsDockerBuildDiffCheckImage =
     ''ghcr.io/jettisonproj/deploy-steps/docker-build-diff-check:ba8c89a72600d23e81065c8d215ff35524d9aae8''"

definition deployStepsDockerBuildImage :: string where
  "deployStepsDockerBuildImage =
     ''ghcr.io/jettisonproj/deploy-steps/docker-build:6d13a90de9809f9a122324b7c0407ed33af920fa''"

definition deployStepsGitHubCreatePr :: string where
  "deployStepsGitHubCreatePr =
     ''ghcr.io/jettisonproj/deploy-steps/create-pr:636f1db062a7f8fd5b1a8d177a310e1412d525a8''"

definition workflow_url :: string where
  "workflow_url = ''https://argo.osoriano.com/workflows/{{workflow.namespace}}/{{workflow.name}}''"

definition build_env :: "(string \<times> string) list" where
  "build_env = [(''BUILDKITD_FLAGS'', ''--oci-worker-no-process-sandbox'')]"

definition build_security_context :: security_context where
  "build_security_context =
     \<lparr>sc_RunAsUser = 1000, sc_RunAsGroup = 1000, sc_SeccompProfile = ''Unconfined'',
      sc_AppArmorProfile = ''Unconfined''\<rparr>"

definition status_file :: string where
  "status_file = ''/workspace/jettison-deploy-step-status.txt''"

section \<open>Templates\<close>

definition GitHubCheckStartTemplate :: wf_template where
  "GitHubCheckStartTemplate = (empty_template ''deploy-step-github-check-start'')
     \<lparr>tpl_ActiveDeadlineSeconds := Some 300,
      tpl_Inputs :=
        [param_val ''github-app-id'' githubAppId,
         param ''repo-short'',
         param_val ''workflow-url'' workflow_url,
         param ''event-type'',
         param ''revision''],
      tpl_Container := Some
        \<lparr>ctr_Image = deployStepsGitHubCheckImage,
         ctr_Args =
           [''./github-check-start.sh'',
            ''{{inputs.parameters.github-app-id}}'',
            ''/github-key/private-key.pem'',
            ''{{inputs.parameters.repo-short}}'',
            ''{{inputs.parameters.workflow-url}}'',
            ''{{inputs.parameters.event-type}}'',
            ''{{inputs.parameters.revision}}'',
            ''/tmp/check-run-id.txt''],
         ctr_VolumeMounts = [mount ''github-key'' ''/github-key'']\<rparr>,
      tpl_Volumes := [vol ''github-key'' (SecretSource ''github-key'')],
      tpl_OutputParameters :=
        [(param_file ''check-run-id'' ''/tmp/check-run-id.txt'')\<lparr>par_GlobalName := ''check-run-id''\<rparr>]\<rparr>"

definition DockerBuildTestTemplate :: wf_template where
  "DockerBuildTestTemplate = (empty_template ''docker-build-test'')
     \<lparr>tpl_Inputs :=
        [param ''repo'', param ''revision'', param ''dockerfile-path'', param ''docker-context-dir'',
         param ''revision-ref'', param ''base-revision'', param ''base-revision-ref'',
         param ''num-artifacts''],
      tpl_ContainerSet := Some
        \<lparr>cs_Containers =
           [\<lparr>cn_Name = ''docker-build-diff-check-pr'',
             cn_Image = deployStepsDockerBuildDiffCheckImage,
             cn_Args =
               [''./docker-build-diff-check-pr.sh'',
                ''{{inputs.parameters.repo}}'',
                ''/workspace'',
                ''{{inputs.parameters.revision}}'',
                ''{{inputs.parameters.revision-ref}}'',
                ''{{inputs.parameters.base-revision}}'',
                ''{{inputs.parameters.base-revision-ref}}'',
                ''{{inputs.parameters.dockerfile-path}}'',
                ''{{inputs.parameters.docker-context-dir}}'',
                status_file,
                ''/repo''],
             cn_Env = [], cn_SecurityContext = None, cn_VolumeMounts = [], cn_Dependencies = []\<rparr>,
            \<lparr>cn_Name = ''main'',
             cn_Image = deployStepsDockerBuildImage,
             cn_Args =
               [''pr'', ''--clone-path'', ''/workspace'',
                ''--dockerfile'', ''{{inputs.parameters.dockerfile-path}}'',
                ''--docker-context-dir'', ''{{inputs.parameters.docker-context-dir}}'',
                ''--status-file'', status_file,
                ''--artifacts-dir'', ''/artifacts'',
                ''--num-artifacts'', ''{{inputs.parameters.num-artifacts}}''],
             cn_Env = build_env, cn_SecurityContext = Some build_security_context,
             cn_VolumeMounts = [mount ''buildkit-cache'' ''/home/user/.local/share/buildkit''],
             cn_Dependencies = [''docker-build-diff-check-pr'']\<rparr>],
         cs_VolumeMounts =
           [mount ''docker-build-pr-workspace'' ''/workspace'',
            mount ''docker-build-pr-artifacts'' ''/artifacts'']\<rparr>,
      tpl_Volumes :=
        [vol ''docker-build-pr-workspace'' EmptyDirSource,
         vol ''docker-build-pr-artifacts'' EmptyDirSource,
         vol ''buildkit-cache'' (PersistentVolumeClaimSource ''buildkit-cache-pvc'')],
      tpl_OutputParameters := [param_file ''jettison-deploy-step-status'' status_file]\<rparr>"

definition DockerBuildTestPublishTemplate :: wf_template where
  "DockerBuildTestPublishTemplate = (empty_template ''docker-build-test-publish'')
     \<lparr>tpl_Inputs :=
        [param ''repo'', param ''revision'', param ''revision-ref'', param ''dockerfile-path'',
         param ''docker-context-dir'', param ''image-repo'', param ''dockerfile-dir'',
         param_val ''image-registry'' imageRegistry, param ''num-artifacts''],
      tpl_ContainerSet := Some
        \<lparr>cs_Containers =
           [\<lparr>cn_Name = ''docker-build-diff-check-commit'',
             cn_Image = deployStepsDockerBuildDiffCheckImage,
             cn_Args =
               [''./docker-build-diff-check-commit.sh'',
                ''{{inputs.parameters.repo}}'',
                ''/workspace'',
                ''{{inputs.parameters.revision}}'',
                ''{{inputs.parameters.revision-ref}}'',
                ''{{inputs.parameters.dockerfile-path}}'',
                ''{{inputs.parameters.docker-context-dir}}'',
                status_file,
                ''/repo''],
             cn_Env = [], cn_SecurityContext = None, cn_VolumeMounts = [], cn_Dependencies = []\<rparr>,
            \<lparr>cn_Name = ''main'',
             cn_Image = deployStepsDockerBuildImage,
             cn_Args =
               [''commit'', ''--clone-path'', ''/workspace'',
                ''--revision-hash'', ''{{inputs.parameters.revision}}'',
                ''--revision-ref'', ''{{inputs.parameters.revision-ref}}'',
                ''--dockerfile'', ''{{inputs.parameters.dockerfile-path}}'',
                ''--docker-context-dir'', ''{{inputs.parameters.docker-context-dir}}'',
                ''--image-registry'', ''{{inputs.parameters.image-registry}}'',
                ''--image-repo'', ''{{inputs.parameters.image-repo}}'',
                ''--dockerfile-dir'', ''{{inputs.parameters.dockerfile-dir}}'',
                ''--status-file'', status_file,
                ''--artifacts-dir'', ''/artifacts'',
                ''--num-artifacts'', ''{{inputs.parameters.num-artifacts}}''],
             cn_Env = build_env, cn_SecurityContext = Some build_security_context,
             cn_VolumeMounts =
               [mount ''docker-config'' ''/home/user/.docker'',
                mount ''buildkit-cache'' ''/home/user/.local/share/buildkit''],
             cn_Dependencies = [''docker-build-diff-check-commit'']\<rparr>],
         cs_VolumeMounts =
           [mount ''docker-build-commit-workspace'' ''/workspace'',
            mount ''docker-build-commit-artifacts'' ''/artifacts'']\<rparr>,
      tpl_Volumes :=
        [vol ''docker-build-commit-workspace'' EmptyDirSource,
         vol ''docker-build-commit-artifacts'' EmptyDirSource,
         vol ''docker-config'' (SecretSource ''regcred''),
         vol ''buildkit-cache'' (PersistentVolumeClaimSource ''buildkit-cache-pvc'')],
      tpl_OutputParameters := [param_file ''jettison-deploy-step-status'' status_file]\<rparr>"

definition ArgoCDTemplate :: wf_template where
  "ArgoCDTemplate = (empty_template ''deploy-step-argocd'')
     \<lparr>tpl_Inputs :=
        [param ''deploy-repo'', param ''deploy-revision'',
         param_val ''github-app-id'' githubAppId,
         param_val ''github-app-user-id'' githubAppUserId,
         param_val ''github-app-user-name'' githubAppUserName,
         param ''resource-path'', param ''image-repo'', param ''build-revision'',
         param ''dockerfile-dir'', param_val ''image-registry'' imageRegistry,
         param ''argocd-app-namespace'', param ''argocd-app-name''],
      tpl_Container := Some
        \<lparr>ctr_Image = deployStepsArgoCDImage,
         ctr_Args =
           [''./deploy-step-argocd.sh'',
            ''{{inputs.parameters.deploy-repo}}'',
            ''{{inputs.parameters.deploy-revision}}'',
            ''{{inputs.parameters.github-app-id}}'',
            ''{{inputs.parameters.github-app-user-id}}'',
            ''{{inputs.parameters.github-app-user-name}}'',
            ''/github-key/private-key.pem'',
            ''{{inputs.parameters.resource-path}}'',
            ''{{inputs.parameters.image-registry}}'',
            ''{{inputs.parameters.image-repo}}'',
            ''{{inputs.parameters.build-revision}}'',
            ''{{inputs.parameters.dockerfile-dir}}'',
            ''{{inputs.parameters.argocd-app-namespace}}'',
            ''{{inputs.parameters.argocd-app-name}}'',
            ''/tmp/jettison-deploy-step-status.txt''],
         ctr_VolumeMounts = [mount ''github-key'' ''/github-key'']\<rparr>,
      tpl_Volumes := [vol ''github-key'' (SecretSource ''github-key'')],
      tpl_OutputParameters :=
        [param_file ''jettison-deploy-step-status'' ''/tmp/jettison-deploy-step-status.txt''],
      tpl_Mutexes :=
        [''{{inputs.parameters.deploy-repo}}/{{inputs.parameters.resource-path}}'']\<rparr>"

definition GitHubCreatePrTemplate :: wf_template where
  "GitHubCreatePrTemplate = (empty_template ''deploy-step-create-pr'')
     \<lparr>tpl_Inputs :=
        [param ''target-repo'', param ''target-repo-short-name'', param ''target-branch'',
         param_val ''github-app-id'' githubAppId,
         param_val ''github-app-user-id'' githubAppUserId,
         param_val ''github-app-user-name'' githubAppUserName,
         param ''file-paths'', param ''image-repo'', param ''build-revision'',
         param ''dockerfile-dir'', param_val ''image-registry'' imageRegistry],
      tpl_Container := Some
        \<lparr>ctr_Image = deployStepsGitHubCreatePr,
         ctr_Args =
           [''./deploy-step-create-pr.sh'',
            ''{{inputs.parameters.target-repo}}'',
            ''{{inputs.parameters.target-repo-short-name}}'',
            ''{{inputs.parameters.target-branch}}'',
            ''{{inputs.parameters.github-app-id}}'',
            ''{{inputs.parameters.github-app-user-id}}'',
            ''{{inputs.parameters.github-app-user-name}}'',
            ''/github-key/private-key.pem'',
            ''{{inputs.parameters.file-paths}}'',
            ''{{inputs.parameters.image-registry}}'',
            ''{{inputs.parameters.image-repo}}'',
            ''{{inputs.parameters.build-revision}}'',
            ''{{inputs.parameters.dockerfile-dir}}'',
            ''/tmp/jettison-created-pr-number.txt''],
         ctr_VolumeMounts = [mount ''github-key'' ''/github-key'']\<rparr>,
      tpl_Volumes := [vol ''github-key'' (SecretSource ''github-key'')],
      tpl_OutputParameters :=
        [param_file ''jettison-created-pr-number'' ''/tmp/jettison-created-pr-number.txt'']\<rparr>"

definition GitHubCheckCompleteTemplate :: wf_template where
  "GitHubCheckCompleteTemplate = (empty_template ''deploy-step-github-check-complete'')
     \<lparr>tpl_ActiveDeadlineSeconds := Some 300,
      tpl_Inputs :=
        [param_val ''github-app-id'' githubAppId,
         param ''repo-short'',
         param_val ''workflow-url'' workflow_url,
         param ''event-type'',
         param ''check-run-id'',
         param ''workflow-status''],
      tpl_Container := Some
        \<lparr>ctr_Image = deployStepsGitHubCheckImage,
         ctr_Args =
           [''./github-check-complete.sh'',
            ''{{inputs.parameters.github-app-id}}'',
            ''/github-key/private-key.pem'',
            ''{{inputs.parameters.repo-short}}'',
            ''{{inputs.parameters.workflow-url}}'',
            ''{{inputs.parameters.event-type}}'',
            ''{{inputs.parameters.check-run-id}}'',
            ''{{inputs.parameters.workflow-status}}''],
         ctr_VolumeMounts = [mount ''github-key'' ''/github-key'']\<rparr>,
      tpl_Volumes := [vol ''github-key'' (SecretSource ''github-key'')]\<rparr>"

definition CICDTemplate :: cluster_workflow_template where
  "CICDTemplate =
     \<lparr>cwt_Kind = ''ClusterWorkflowTemplate'', cwt_APIVersion = ''argoproj.io/v1alpha1'',
      cwt_Name = ''cicd-templates'',
      cwt_Templates =
        [GitHubCheckStartTemplate, DockerBuildTestTemplate, DockerBuildTestPublishTemplate,
         ArgoCDTemplate, GitHubCreatePrTemplate, GitHubCheckCompleteTemplate]\<rparr>"

section \<open>Checking templates\<close>

text \<open>The name up to the closing braces, and the input parameters a string refers to.\<close>

fun until_braces :: "string \<Rightarrow> string" where
  "until_braces [] = []"
| "until_braces (c # cs) = (if has_prefix ''}}'' (c # cs) then [] else c # until_braces cs)"

fun input_refs :: "string \<Rightarrow> string list" where
  "input_refs [] = []"
| "input_refs (c # cs) =
     (case cut_prefix ''{{inputs.parameters.'' (c # cs) of
        Some r \<Rightarrow> until_braces r # input_refs cs
      | None \<Rightarrow> input_refs cs)"

definition template_strings :: "wf_template \<Rightarrow> string list" where
  "template_strings t =
     (case tpl_Container t of None \<Rightarrow> [] | Some c \<Rightarrow> ctr_Args c)
     @ (case tpl_ContainerSet t of None \<Rightarrow> [] | Some cs \<Rightarrow> concat (map cn_Args (cs_Containers cs)))
     @ tpl_Mutexes t"

definition template_mounts :: "wf_template \<Rightarrow> volume_mount list" where
  "template_mounts t =
     (case tpl_Container t of None \<Rightarrow> [] | Some c \<Rightarrow> ctr_VolumeMounts c)
     @ (case tpl_ContainerSet t of None \<Rightarrow> []
        | Some cs \<Rightarrow> concat (map cn_VolumeMounts (cs_Containers cs)) @ cs_VolumeMounts cs)"

definition refs_declared :: "wf_template \<Rightarrow> bool" where
  "refs_declared t =
     list_all (\<lambda>s. list_all (\<lambda>r. r \<in> set (map par_Name (tpl_Inputs t))) (input_refs s)) (template_strings t)"

definition mounts_declared :: "wf_template \<Rightarrow> bool" where
  "mounts_declared t =
     list_all (\<lambda>m. mnt_Name m \<in> set (map vol_Name (tpl_Volumes t))) (template_mounts t)"

definition containers_ordered :: "wf_template \<Rightarrow> bool" where
  "containers_ordered t =
     (case tpl_ContainerSet t of
        None \<Rightarrow> True
      | Some cs \<Rightarrow> distinct (map cn_Name (cs_Containers cs))
          \<and> list_all (\<lambda>c. list_all (\<lambda>d. d \<in> set (map cn_Name (cs_Containers cs)) \<and> d \<noteq> cn_Name c)
              (cn_Dependencies c)) (cs_Containers cs))"

definition well_formed_template :: "wf_template \<Rightarrow> bool" where
  "well_formed_template t \<longleftrightarrow>
     distinct (map par_Name (tpl_Inputs t)) \<and> distinct (map vol_Name (tpl_Volumes t))
     \<and> refs_declared t \<and> mounts_declared t \<and> containers_ordered t"

text \<open>The inputs that a caller of the template must supply.\<close>

definition required_inputs :: "wf_template \<Rightarrow> string list" where
  "required_inputs t = map par_Name (filter (\<lambda>p. par_Value p = None) (tpl_Inputs t))"

lemmas template_defs =
  GitHubCheckStartTemplate_def DockerBuildTestTemplate_def DockerBuildTestPublishTemplate_def
  ArgoCDTemplate_def GitHubCreatePrTemplate_def GitHubCheckCompleteTemplate_def
  empty_template_def param_def param_val_def param_file_def mount_def vol_def status_file_def

lemma template_names [simp]:
  "tpl_Name GitHubCheckStartTemplate = ''deploy-step-github-check-start''"
  "tpl_Name DockerBuildTestTemplate = ''docker-build-test''"
  "tpl_Name DockerBuildTestPublishTemplate = ''docker-build-test-publish''"
  "tpl_Name ArgoCDTemplate = ''deploy-step-argocd''"
  "tpl_Name GitHubCreatePrTemplate = ''deploy-step-create-pr''"
  "tpl_Name GitHubCheckCompleteTemplate = ''deploy-step-github-check-complete''"
  by (simp_all add: template_defs)

lemma cicd_names_distinct: "distinct (map tpl_Name (cwt_Templates CICDTemplate))"
  by (simp add: CICDTemplate_def)

text \<open>
  The cluster workflow template is well formed: its templates have distinct names, and in each
  of them input and volume names are distinct, every \<open>{{inputs.parameters.x}}\<close> in a container
  argument or a mutex name is a declared input, every volume mount names a declared volume, and
  every container dependency is another container of the set.
\<close>

lemma cicd_templates_well_formed:
  "distinct (map tpl_Name (cwt_Templates CICDTemplate))
   \<and> list_all well_formed_template (cwt_Templates CICDTemplate)"
  by code_simp

lemma required_inputs_simps [simp]:
  "required_inputs GitHubCheckStartTemplate = [''repo-short'', ''event-type'', ''revision'']"
  "required_inputs DockerBuildTestTemplate =
     [''repo'', ''revision'', ''dockerfile-path'', ''docker-context-dir'', ''revision-ref'',
      ''base-revision'', ''base-revision-ref'', ''num-artifacts'']"
  "required_inputs DockerBuildTestPublishTemplate =
     [''repo'', ''revision'', ''revision-ref'', ''dockerfile-path'', ''docker-context-dir'',
      ''image-repo'', ''dockerfile-dir'', ''num-artifacts'']"
  "required_inputs ArgoCDTemplate =
     [''deploy-repo'', ''deploy-revision'', ''resource-path'', ''image-repo'', ''build-revision'',
      ''dockerfile-dir'', ''argocd-app-namespace'', ''argocd-app-name'']"
  "required_inputs GitHubCreatePrTemplate =
     [''target-repo'', ''target-repo-short-name'', ''target-branch'', ''file-paths'', ''image-repo'',
      ''build-revision'', ''dockerfile-dir'']"
  "required_inputs GitHubCheckCompleteTemplate =
     [''repo-short'', ''event-type'', ''check-run-id'', ''workflow-status'']"
  by (simp_all add: required_inputs_def template_defs)

section \<open>Synchronising the template\<close>

text \<open>
  \<open>SyncWorkflowTemplates\<close> retries \<open>CreateOrUpdate\<close> until it succeeds. The call, on the
  state of the cluster, is a parameter; \<open>None\<close> is a loop that never ends.
\<close>

partial_function (option) SyncWorkflowTemplates ::
  "(cluster_workflow_template \<Rightarrow> 'w \<Rightarrow> bool \<times> 'w) \<Rightarrow> 'w \<Rightarrow> 'w option" where
  "SyncWorkflowTemplates create_or_update w =
     (case create_or_update CICDTemplate w of
        (ok, w') \<Rightarrow> if ok then Some w' else SyncWorkflowTemplates create_or_update w')"

text \<open>The state after \<open>n\<close> calls.\<close>

fun after_attempts :: "(cluster_workflow_template \<Rightarrow> 'w \<Rightarrow> bool \<times> 'w) \<Rightarrow> nat \<Rightarrow> 'w \<Rightarrow> 'w" where
  "after_attempts cou 0 w = w"
| "after_attempts cou (Suc n) w = after_attempts cou n (snd (cou CICDTemplate w))"

text \<open>
  C40. The start-up synchronisation returns as soon as one attempt succeeds, and only then: if the
  first \<open>n\<close> calls fail and the next one succeeds, the loop ends in the state which that call
  leaves, having made no further call.
\<close>

theorem SyncWorkflowTemplates_returns:
  assumes "\<And>i. i < n \<Longrightarrow> \<not> fst (cou CICDTemplate (after_attempts cou i w))"
    and "fst (cou CICDTemplate (after_attempts cou n w))"
  shows "SyncWorkflowTemplates cou w = Some (after_attempts cou (Suc n) w)"
  using assms
proof (induction n arbitrary: w)
  case 0
  then show ?case by (simp add: SyncWorkflowTemplates.simps case_prod_unfold)
next
  case (Suc n)
  let ?w' = "snd (cou CICDTemplate w)"
  have "\<not> fst (cou CICDTemplate w)" using Suc.prems(1) [of 0] by simp
  then have "SyncWorkflowTemplates cou w = SyncWorkflowTemplates cou ?w'"
    by (simp add: SyncWorkflowTemplates.simps [of cou w] case_prod_unfold)
  also have "\<dots> = Some (after_attempts cou (Suc n) ?w')"
  proof (rule Suc.IH)
    show "\<not> fst (cou CICDTemplate (after_attempts cou i ?w'))" if "i < n" for i
      using Suc.prems(1) [of "Suc i"] that by simp
    show "fst (cou CICDTemplate (after_attempts cou n ?w'))" using Suc.prems(2) by simp
  qed
  finally show ?case by simp
qed

text \<open>A cluster that refuses twice and then accepts.\<close>

definition flaky :: "cluster_workflow_template \<Rightarrow> nat \<Rightarrow> bool \<times> nat" where
  "flaky t n = (2 \<le> n, Suc n)"

theorem SyncWorkflowTemplates_returns_witness: "SyncWorkflowTemplates flaky 0 = Some 3"
proof -
  have "SyncWorkflowTemplates flaky 0 = Some (after_attempts flaky (Suc 2) 0)"
    by (rule SyncWorkflowTemplates_returns)
       (auto simp: flaky_def numeral_2_eq_2 less_Suc_eq)
  then show ?thesis by (simp add: flaky_def numeral_2_eq_2)
qed

end
