(* ===== verification/Flow_Processor.thy ===== *)
theory Flow_Processor
  imports Flow_Types
begin

text \<open>
  Parsing, defaulting, validation and preprocessing of a \<open>Flow\<close>
  (\<open>api/v1alpha1/flow_parser.go\<close>, \<open>flow_defaulter.go\<close>, \<open>flow_validator.go\<close>,
  \<open>flow_processor.go\<close>). Decoding of \<open>corev1.Volume\<close> and \<open>corev1.VolumeMount\<close>
  is a parameter (\<open>dv\<close>, \<open>dm\<close>): these are Kubernetes types.

  Defaulting is an instance of a contract shared by triggers and steps: it completes what it
  accepts and leaves complete values alone.
\<close>

section \<open>Parsing\<close>

definition base_trigger_members :: "'a base_trigger_fields_scheme field list" where
  "base_trigger_members =
     [field ''triggerName'' TriggerName TriggerName_update dec_string,
      field ''triggerSource'' TriggerSource TriggerSource_update dec_string]"

definition pr_trigger_members :: "github_pull_request_trigger field list" where
  "pr_trigger_members = base_trigger_members @
     [field ''repoUrl'' prt_RepoUrl prt_RepoUrl_update dec_string,
      field ''pullRequestEvents'' PullRequestEvents PullRequestEvents_update (dec_slice [] dec_string)]"

definition push_trigger_members :: "github_push_trigger field list" where
  "push_trigger_members = base_trigger_members @
     [field ''repoUrl'' pst_RepoUrl pst_RepoUrl_update dec_string,
      field ''baseRef'' pst_BaseRef pst_BaseRef_update (dec_ptr [] dec_string)]"

definition zero_base_trigger :: base_trigger_fields where
  "zero_base_trigger = \<lparr>TriggerName = [], TriggerSource = []\<rparr>"

definition zero_pr_trigger :: github_pull_request_trigger where
  "zero_pr_trigger =
     \<lparr>TriggerName = [], TriggerSource = [], prt_RepoUrl = [], PullRequestEvents = None\<rparr>"

definition zero_push_trigger :: github_push_trigger where
  "zero_push_trigger =
     \<lparr>TriggerName = [], TriggerSource = [], pst_RepoUrl = [], pst_BaseRef = None\<rparr>"

text \<open>\<open>json.Unmarshal\<close> with the error the caller wraps it in.\<close>

definition unmarshal :: "string \<Rightarrow> 'r field list \<Rightarrow> json \<Rightarrow> 'r \<Rightarrow> 'r res" where
  "unmarshal what fs j r =
     (case dec_struct fs j r of
        None \<Rightarrow> Inl (Failed (Wrapped (''failed to parse '' @ what) (LibError ''json'')))
      | Some r' \<Rightarrow> Inr r')"

definition parseTrigger :: "json \<Rightarrow> base_trigger res" where
  "parseTrigger raw =
     and_then (unmarshal ''base trigger'' base_trigger_members raw zero_base_trigger) (\<lambda>b.
       if TriggerSource b = gitHubPullRequestTriggerSource then
         and_then (unmarshal ''GitHubPullRequestTrigger'' pr_trigger_members raw zero_pr_trigger)
           (\<lambda>t. Inr (GitHubPullRequestTrigger t))
       else if TriggerSource b = gitHubPushTriggerSource then
         and_then (unmarshal ''GitHubPushTrigger'' push_trigger_members raw zero_push_trigger)
           (\<lambda>t. Inr (GitHubPushTrigger t))
       else Inl (Failed (Errorf (''unknown triggerSource: '' @ TriggerSource b
              @ '' should be one of: '' @ join '', '' triggerSources))))"

definition parseTriggers :: "flow \<Rightarrow> base_trigger list res" where
  "parseTriggers f = traverse parseTrigger (Triggers f)"

definition base_step_members ::
  "volume decoder \<Rightarrow> volume_mount decoder \<Rightarrow> 'a base_step_fields_scheme field list" where
  "base_step_members dv dm =
     [field ''stepName'' StepName StepName_update (dec_ptr [] dec_string),
      field ''stepSource'' StepSource StepSource_update dec_string,
      field ''dependsOn'' DependsOn DependsOn_update (dec_slice [] dec_string),
      field ''volumes'' Volumes Volumes_update (dec_slice zero_volume dv),
      field ''volumeMounts'' VolumeMounts VolumeMounts_update (dec_slice zero_volume_mount dm)]"

definition zero_artifact :: docker_build_artifact where
  "zero_artifact = \<lparr>art_Path = [], art_Key = [], art_Optional = None\<rparr>"

definition artifact_members :: "docker_build_artifact field list" where
  "artifact_members =
     [field ''path'' art_Path art_Path_update dec_string,
      field ''key'' art_Key art_Key_update dec_string,
      field ''optional'' art_Optional art_Optional_update (dec_ptr False dec_bool)]"

definition docker_step_members ::
  "volume decoder \<Rightarrow> volume_mount decoder \<Rightarrow> docker_build_step field list" where
  "docker_step_members dv dm = base_step_members dv dm @
     [field ''dockerfilePath'' DockerfilePath DockerfilePath_update (dec_ptr [] dec_string),
      field ''dockerContextDir'' DockerContextDir DockerContextDir_update (dec_ptr [] dec_string),
      field ''artifacts'' Artifacts Artifacts_update
        (dec_slice zero_artifact (dec_struct artifact_members))]"

definition argocd_step_members ::
  "volume decoder \<Rightarrow> volume_mount decoder \<Rightarrow> argocd_step field list" where
  "argocd_step_members dv dm = base_step_members dv dm @
     [field ''repoUrl'' acd_RepoUrl acd_RepoUrl_update dec_string,
      field ''repoPath'' acd_RepoPath acd_RepoPath_update dec_string,
      field ''baseRef'' acd_BaseRef acd_BaseRef_update (dec_ptr [] dec_string),
      field ''pauseReason'' acd_PauseReason acd_PauseReason_update (dec_ptr [] dec_string)]"

definition create_pr_step_members ::
  "volume decoder \<Rightarrow> volume_mount decoder \<Rightarrow> github_create_pr_step field list" where
  "create_pr_step_members dv dm = base_step_members dv dm @
     [field ''repoUrl'' cpr_RepoUrl cpr_RepoUrl_update dec_string,
      field ''baseRef'' cpr_BaseRef cpr_BaseRef_update (dec_ptr [] dec_string),
      field ''filePaths'' cpr_FilePaths cpr_FilePaths_update (dec_slice [] dec_string)]"

definition zero_base_step :: base_step_fields where
  "zero_base_step =
     \<lparr>StepName = None, StepSource = [], DependsOn = None, Volumes = None, VolumeMounts = None\<rparr>"

definition zero_docker_step :: docker_build_step where
  "zero_docker_step = base_step_fields.extend zero_base_step
     (docker_build_step.fields None None None)"

definition zero_argocd_step :: argocd_step where
  "zero_argocd_step = base_step_fields.extend zero_base_step (argocd_step.fields [] [] None None)"

definition zero_create_pr_step :: github_create_pr_step where
  "zero_create_pr_step = base_step_fields.extend zero_base_step
     (github_create_pr_step.fields [] None None)"

definition parseStep :: "volume decoder \<Rightarrow> volume_mount decoder \<Rightarrow> json \<Rightarrow> base_step res" where
  "parseStep dv dm raw =
     and_then (unmarshal ''base step'' (base_step_members dv dm) raw zero_base_step) (\<lambda>b.
       if StepSource b = dockerBuildTestStepSource then
         and_then (unmarshal ''DockerBuildTestStep'' (docker_step_members dv dm) raw zero_docker_step)
           (\<lambda>s. Inr (DockerBuildTestStep s))
       else if StepSource b = dockerBuildTestPublishStepSource then
         and_then (unmarshal ''DockerBuildTestPublishStep'' (docker_step_members dv dm) raw
             zero_docker_step)
           (\<lambda>s. Inr (DockerBuildTestPublishStep s))
       else if StepSource b = argoCDStepSource then
         and_then (unmarshal ''ArgoCDStep'' (argocd_step_members dv dm) raw zero_argocd_step)
           (\<lambda>s. Inr (ArgoCDStep s))
       else if StepSource b = gitHubCreatePrStepSource then
         and_then (unmarshal ''GitHubCreatePrStep'' (create_pr_step_members dv dm) raw
             zero_create_pr_step)
           (\<lambda>s. Inr (GitHubCreatePrStep s))
       else Inl (Failed (Errorf (''unknown stepSource: '' @ StepSource b
              @ '' should be one of: '' @ join '', '' stepSources))))"

definition parseSteps ::
  "volume decoder \<Rightarrow> volume_mount decoder \<Rightarrow> flow \<Rightarrow> base_step list res" where
  "parseSteps dv dm f = traverse (parseStep dv dm) (Steps f)"

section \<open>Defaults\<close>

definition defaultActiveDeadlineSecondsPR :: int where
  "defaultActiveDeadlineSecondsPR = 900"

definition defaultActiveDeadlineSecondsPush :: int where
  "defaultActiveDeadlineSecondsPush = 3600"

definition defaultBaseRef :: string where
  "defaultBaseRef = ''main''"

definition defaultDockerContextDir :: string where
  "defaultDockerContextDir = []"

definition defaultDockerfilePath :: string where
  "defaultDockerfilePath = ''Dockerfile''"

definition defaultPullRequestEvents :: "string list" where
  "defaultPullRequestEvents = [''opened'', ''reopened'', ''synchronize'']"

definition getDefaultDockerfilePath :: "string \<Rightarrow> string" where
  "getDefaultDockerfilePath dockerContextDir =
     (if dockerContextDir = [] then defaultDockerfilePath
      else dockerContextDir @ ''/'' @ defaultDockerfilePath)"

definition or_default :: "'a \<Rightarrow> 'a option \<Rightarrow> 'a option" where
  "or_default d p = (case p of None \<Rightarrow> Some d | Some v \<Rightarrow> Some v)"

fun trigger_defaults :: "base_trigger \<Rightarrow> base_trigger res" where
  "trigger_defaults (GitHubPullRequestTrigger t) = Inr (GitHubPullRequestTrigger
     (t\<lparr>PullRequestEvents := or_default defaultPullRequestEvents (PullRequestEvents t)\<rparr>))"
| "trigger_defaults (GitHubPushTrigger t) = Inr (GitHubPushTrigger
     (t\<lparr>pst_BaseRef := or_default defaultBaseRef (pst_BaseRef t)\<rparr>))"
| "trigger_defaults (OtherTrigger n) = Inl (Failed (Errorf (''unknown trigger type: '' @ n)))"

fun trigger_deadline :: "base_trigger \<Rightarrow> int" where
  "trigger_deadline (GitHubPushTrigger t) = defaultActiveDeadlineSecondsPush"
| "trigger_deadline _ = defaultActiveDeadlineSecondsPR"

text \<open>The loop over the triggers, with the running maximum of the deadline.\<close>

fun triggers_loop :: "int \<Rightarrow> base_trigger list \<Rightarrow> (base_trigger list \<times> int) res" where
  "triggers_loop d [] = Inr ([], d)"
| "triggers_loop d (t # ts) =
     and_then (trigger_defaults t) (\<lambda>t'.
       and_then (triggers_loop (max d (trigger_deadline t)) ts) (\<lambda>(ts', d'). Inr (t' # ts', d')))"

text \<open>
  Both Docker cases: the base defaults, then the context directory, then the Dockerfile path, which
  dereferences the context directory.
\<close>

definition docker_defaults :: "docker_build_step \<Rightarrow> docker_build_step res" where
  "docker_defaults s0 =
     (let s = apply_base_defaults s0;
          s1 = (if DockerContextDir s = None
                then s\<lparr>DockerContextDir := Some defaultDockerContextDir\<rparr> else s)
      in if DockerfilePath s1 = None
         then and_then (deref (DockerContextDir s1))
                (\<lambda>dir. Inr (s1\<lparr>DockerfilePath := Some (getDefaultDockerfilePath dir)\<rparr>))
         else Inr s1)"

fun step_defaults :: "base_step \<Rightarrow> base_step res" where
  "step_defaults (DockerBuildTestStep s) =
     and_then (docker_defaults s) (\<lambda>s'. Inr (DockerBuildTestStep s'))"
| "step_defaults (DockerBuildTestPublishStep s) =
     and_then (docker_defaults s) (\<lambda>s'. Inr (DockerBuildTestPublishStep s'))"
| "step_defaults (ArgoCDStep s) = Inr (ArgoCDStep
     ((apply_base_defaults s)\<lparr>acd_BaseRef := or_default defaultBaseRef (acd_BaseRef s)\<rparr>))"
| "step_defaults (GitHubCreatePrStep s) = Inr (GitHubCreatePrStep
     ((apply_base_defaults s)\<lparr>cpr_BaseRef := or_default defaultBaseRef (cpr_BaseRef s)\<rparr>))"
| "step_defaults (OtherStep n b) = Inl (Failed (Errorf (''unknown step type: '' @ n)))"

text \<open>
  \<open>applyDefaults\<close> writes through the trigger and step pointers and into the flow: the model
  returns the flow, which the caller keeps even when the steps then fail.
\<close>

definition applyDefaults ::
  "flow \<Rightarrow> base_trigger list \<Rightarrow> base_step list \<Rightarrow> flow \<times> (base_trigger list \<times> base_step list) res" where
  "applyDefaults f triggers steps =
     (case triggers_loop defaultActiveDeadlineSecondsPR triggers of
        Inl e \<Rightarrow> (f, Inl e)
      | Inr (triggers', d) \<Rightarrow>
          (f\<lparr>ActiveDeadlineSeconds := or_default d (ActiveDeadlineSeconds f)\<rparr>,
           and_then (traverse step_defaults steps) (\<lambda>steps'. Inr (triggers', steps'))))"

section \<open>Validation and preprocessing\<close>

fun validate_trigger :: "base_trigger \<Rightarrow> unit res" where
  "validate_trigger (GitHubPullRequestTrigger t) =
     (if items (PullRequestEvents t) = []
      then Inl (Failed (Errorf ''GitHubPullRequestTrigger pullRequestEvents cannot be empty''))
      else Inr ())"
| "validate_trigger (GitHubPushTrigger t) = Inr ()"
| "validate_trigger (OtherTrigger n) = Inl (Failed (Errorf (''unknown trigger type: '' @ n)))"

definition validate :: "base_trigger list \<Rightarrow> base_step list \<Rightarrow> unit res" where
  "validate triggers steps =
     (if triggers = [] then Inl (Failed (Errorf ''triggers cannot be empty''))
      else and_then (traverse validate_trigger triggers) (\<lambda>_.
        if steps = [] then Inl (Failed (Errorf ''steps cannot be empty'')) else Inr ()))"

definition PreProcessFlow ::
  "volume decoder \<Rightarrow> volume_mount decoder \<Rightarrow> flow
     \<Rightarrow> flow \<times> (base_trigger list \<times> base_step list) res" where
  "PreProcessFlow dv dm f =
     (case wrap ''failed to preprocess flow triggers'' (parseTriggers f) of
        Inl e \<Rightarrow> (f, Inl e)
      | Inr triggers \<Rightarrow>
     (case wrap ''failed to preprocess flow steps'' (parseSteps dv dm f) of
        Inl e \<Rightarrow> (f, Inl e)
      | Inr steps \<Rightarrow>
     (case applyDefaults f triggers steps of (f', r) \<Rightarrow>
     (case wrap ''failed to apply defaults to Flow'' r of
        Inl e \<Rightarrow> (f', Inl e)
      | Inr (triggers', steps') \<Rightarrow>
          (f', and_then (wrap ''failed to validate Flow'' (validate triggers' steps'))
                 (\<lambda>_. Inr (triggers', steps')))))))"

section \<open>The defaulting contract\<close>

locale defaulting =
  fixes apply_d :: "'a \<Rightarrow> 'a res" and complete :: "'a \<Rightarrow> bool"
  assumes completes: "apply_d x = Inr y \<Longrightarrow> complete y"
    and keeps: "complete x \<Longrightarrow> apply_d x = Inr x"
begin

lemma idempotent: "apply_d x = Inr y \<Longrightarrow> apply_d y = Inr y"
  by (rule keeps) (rule completes)

lemma fixed_iff: "apply_d x = Inr x \<longleftrightarrow> complete x"
  using completes keeps by blast

lemma traverse_completes: "traverse apply_d xs = Inr ys \<Longrightarrow> y \<in> set ys \<Longrightarrow> complete y"
  by (auto dest: traverse_in_set completes)

lemma traverse_keeps: "(\<And>x. x \<in> set xs \<Longrightarrow> complete x) \<Longrightarrow> traverse apply_d xs = Inr xs"
  by (intro traverse_id keeps)

lemma traverse_idempotent: "traverse apply_d xs = Inr ys \<Longrightarrow> traverse apply_d ys = Inr ys"
  by (intro traverse_keeps traverse_completes)

end

text \<open>A trigger or step whose optional fields are all set.\<close>

fun trigger_complete :: "base_trigger \<Rightarrow> bool" where
  "trigger_complete (GitHubPullRequestTrigger t) = (PullRequestEvents t \<noteq> None)"
| "trigger_complete (GitHubPushTrigger t) = (pst_BaseRef t \<noteq> None)"
| "trigger_complete (OtherTrigger n) = False"

fun step_complete :: "base_step \<Rightarrow> bool" where
  "step_complete (DockerBuildTestStep s) =
     (StepName s \<noteq> None \<and> DockerfilePath s \<noteq> None \<and> DockerContextDir s \<noteq> None)"
| "step_complete (DockerBuildTestPublishStep s) =
     (StepName s \<noteq> None \<and> DockerfilePath s \<noteq> None \<and> DockerContextDir s \<noteq> None)"
| "step_complete (ArgoCDStep s) = (StepName s \<noteq> None \<and> acd_BaseRef s \<noteq> None)"
| "step_complete (GitHubCreatePrStep s) = (StepName s \<noteq> None \<and> cpr_BaseRef s \<noteq> None)"
| "step_complete (OtherStep n b) = False"

lemma or_default_simps [simp]:
  "or_default d None = Some d" "or_default d (Some v) = Some v" "or_default d p \<noteq> None"
  by (simp_all add: or_default_def split: option.split)

lemma or_default_id [simp]: "p \<noteq> None \<Longrightarrow> or_default d p = p"
  by auto

lemma apply_base_defaults_StepName [simp]: "StepName (apply_base_defaults s) \<noteq> None"
  by (simp add: apply_base_defaults_def split: option.split)

lemma apply_base_defaults_complete: "\<exists>n. StepName (apply_base_defaults s) = Some n"
  using apply_base_defaults_StepName [of s] by (simp del: apply_base_defaults_StepName)

lemma apply_base_defaults_id [simp]: "StepName s \<noteq> None \<Longrightarrow> apply_base_defaults s = s"
  by (auto simp: apply_base_defaults_def)

lemma docker_defaults_complete:
  "docker_defaults s = Inr s' \<Longrightarrow>
     StepName s' \<noteq> None \<and> DockerfilePath s' \<noteq> None \<and> DockerContextDir s' \<noteq> None"
  using apply_base_defaults_complete [of s]
  by (auto simp: docker_defaults_def Let_def split: if_splits)

lemma docker_defaults_id:
  "StepName s \<noteq> None \<Longrightarrow> DockerfilePath s \<noteq> None \<Longrightarrow> DockerContextDir s \<noteq> None
     \<Longrightarrow> docker_defaults s = Inr s"
  by (auto simp: docker_defaults_def Let_def)

text \<open>The context directory is set before the line that dereferences it.\<close>

lemma docker_defaults_total: "\<exists>s'. docker_defaults s = Inr s'"
  by (auto simp: docker_defaults_def Let_def)

lemma docker_defaults_no_error [simp]: "docker_defaults s \<noteq> Inl e"
  using docker_defaults_total [of s] by auto

lemma set_PullRequestEvents_id: "PullRequestEvents t = p \<Longrightarrow> t\<lparr>PullRequestEvents := p\<rparr> = t"
  by (cases t) simp

lemma set_pst_BaseRef_id: "pst_BaseRef t = p \<Longrightarrow> t\<lparr>pst_BaseRef := p\<rparr> = t"
  by (cases t) simp

lemma set_acd_BaseRef_id: "acd_BaseRef t = p \<Longrightarrow> t\<lparr>acd_BaseRef := p\<rparr> = t"
  by (cases t) simp

lemma set_cpr_BaseRef_id: "cpr_BaseRef t = p \<Longrightarrow> t\<lparr>cpr_BaseRef := p\<rparr> = t"
  by (cases t) simp

lemmas set_field_ids =
  set_PullRequestEvents_id set_pst_BaseRef_id set_acd_BaseRef_id set_cpr_BaseRef_id

interpretation triggers: defaulting trigger_defaults trigger_complete
proof
  fix t t'
  show "trigger_defaults t = Inr t' \<Longrightarrow> trigger_complete t'"
    by (cases t) (auto simp del: not_None_eq)
  show "trigger_complete t \<Longrightarrow> trigger_defaults t = Inr t"
    by (cases t) (auto simp: set_field_ids simp del: not_None_eq)
qed

interpretation steps: defaulting step_defaults step_complete
proof
  fix s s'
  show "step_defaults s = Inr s' \<Longrightarrow> step_complete s'"
    by (cases s) (auto dest: docker_defaults_complete simp del: not_None_eq)
  show "step_complete s \<Longrightarrow> step_defaults s = Inr s"
    by (cases s) (auto simp: docker_defaults_id set_field_ids simp del: not_None_eq)
qed

section \<open>The loop over the triggers\<close>

lemma triggers_loop_eq:
  "triggers_loop d ts =
     and_then (traverse trigger_defaults ts)
       (\<lambda>ts'. Inr (ts', foldl (\<lambda>m t. max m (trigger_deadline t)) d ts))"
proof (induction ts arbitrary: d)
  case (Cons t ts)
  show ?case
    by (cases "trigger_defaults t"; cases "traverse trigger_defaults ts") (simp_all add: Cons.IH)
qed simp

fun is_push :: "base_trigger \<Rightarrow> bool" where
  "is_push (GitHubPushTrigger t) = True"
| "is_push _ = False"

lemma is_push_defaults: "trigger_defaults t = Inr t' \<Longrightarrow> is_push t' = is_push t"
  by (cases t) auto

lemma is_push_traverse:
  "traverse trigger_defaults ts = Inr ts' \<Longrightarrow> (\<exists>t \<in> set ts'. is_push t) = (\<exists>t \<in> set ts. is_push t)"
  by (induction ts arbitrary: ts') (auto dest: is_push_defaults)

lemma trigger_deadline_cases: "trigger_deadline t = (if is_push t then 3600 else 900)"
  by (cases t) (simp_all add: defaultActiveDeadlineSecondsPush_def defaultActiveDeadlineSecondsPR_def)

lemma deadline_fold:
  "d = 900 \<or> d = 3600 \<Longrightarrow> foldl (\<lambda>m t. max m (trigger_deadline t)) d ts
     = (if d = 3600 \<or> (\<exists>t \<in> set ts. is_push t) then 3600 else 900)"
  by (induction ts arbitrary: d) (auto simp: trigger_deadline_cases)

lemma applyDefaults_Inr:
  "applyDefaults f ts ss = (f', Inr (ts', ss')) \<longleftrightarrow>
     traverse trigger_defaults ts = Inr ts' \<and> traverse step_defaults ss = Inr ss'
     \<and> f' = f\<lparr>ActiveDeadlineSeconds :=
           or_default (if \<exists>t \<in> set ts. is_push t then 3600 else 900) (ActiveDeadlineSeconds f)\<rparr>"
  by (cases "traverse trigger_defaults ts")
     (auto simp: applyDefaults_def triggers_loop_eq defaultActiveDeadlineSecondsPR_def deadline_fold)

lemma validate_Inr:
  "validate ts ss = Inr u \<longleftrightarrow> ts \<noteq> [] \<and> ss \<noteq> [] \<and> (\<forall>t \<in> set ts. validate_trigger t = Inr ())"
proof -
  have "(\<exists>us. traverse validate_trigger ts = Inr us) \<longleftrightarrow> (\<forall>t \<in> set ts. validate_trigger t = Inr ())"
    by (induction ts) auto
  then show ?thesis by (auto simp: validate_def)
qed

lemma PreProcessFlow_Inr:
  "PreProcessFlow dv dm f = (f', Inr (ts', ss')) \<longleftrightarrow>
     (\<exists>ts ss. parseTriggers f = Inr ts \<and> parseSteps dv dm f = Inr ss
        \<and> applyDefaults f ts ss = (f', Inr (ts', ss')) \<and> validate ts' ss' = Inr ())"
  by (auto simp: PreProcessFlow_def split: sum.splits prod.splits)

section \<open>What preprocessing guarantees\<close>

text \<open>A trigger a sensor can be built from: complete, and with at least one event for pull requests.\<close>

definition trigger_ready :: "base_trigger \<Rightarrow> bool" where
  "trigger_ready t \<longleftrightarrow> trigger_complete t \<and> validate_trigger t = Inr ()"

text \<open>
  C30. A flow that preprocesses without error yields at least one trigger and one step, one for
  each raw message; every trigger is complete (pull-request triggers with a non-empty event list),
  every step has its name, Dockerfile path, context directory or base ref set, and the flow's
  deadline is set.
\<close>

theorem preprocess_ready:
  assumes "PreProcessFlow dv dm f = (f', Inr (ts, ss))"
  shows "ts \<noteq> [] \<and> length ts = length (Triggers f) \<and> list_all trigger_ready ts
    \<and> ss \<noteq> [] \<and> length ss = length (Steps f) \<and> list_all step_complete ss
    \<and> ActiveDeadlineSeconds f' \<noteq> None"
proof -
  from assms obtain ts0 ss0 where p: "traverse parseTrigger (Triggers f) = Inr ts0"
      "traverse (parseStep dv dm) (Steps f) = Inr ss0"
    and d: "traverse trigger_defaults ts0 = Inr ts" "traverse step_defaults ss0 = Inr ss"
    and f': "f' = f\<lparr>ActiveDeadlineSeconds :=
           or_default (if \<exists>t \<in> set ts0. is_push t then 3600 else 900) (ActiveDeadlineSeconds f)\<rparr>"
    and v: "validate ts ss = Inr ()"
    by (auto simp: PreProcessFlow_Inr applyDefaults_Inr parseTriggers_def parseSteps_def)
  have "list_all trigger_ready ts"
    using v triggers.traverse_completes [OF d(1)]
    by (auto simp: list_all_iff trigger_ready_def validate_Inr)
  moreover have "list_all step_complete ss"
    using steps.traverse_completes [OF d(2)] by (auto simp: list_all_iff)
  moreover have "length ts = length (Triggers f)" and "length ss = length (Steps f)"
    using p d by (auto dest!: traverse_length)
  moreover have "ActiveDeadlineSeconds f' \<noteq> None" unfolding f' by (simp del: not_None_eq)
  ultimately show ?thesis using v by (simp add: validate_Inr)
qed

text \<open>A concrete flow with one pull-request trigger and one build step, all defaults open.\<close>

definition sample_trigger :: json where
  "sample_trigger = JObj [(''triggerName'', JStr ''pr''), (''triggerSource'', JStr ''GitHubPullRequest''),
     (''repoUrl'', JStr ''https://github.com/org/app.git'')]"

definition sample_step :: json where
  "sample_step = JObj [(''stepSource'', JStr ''DockerBuildTest''), (''dockerContextDir'', JStr ''sub'')]"

definition sample_flow :: flow where
  "sample_flow = \<lparr>flow_Name = ''github-pr'', flow_Namespace = ''org'', ActiveDeadlineSeconds = None,
     Triggers = [sample_trigger], Steps = [sample_step], Conditions = []\<rparr>"

definition no_volume :: "volume decoder" where
  "no_volume j v = None"

definition no_mount :: "volume_mount decoder" where
  "no_mount j v = None"

lemmas decode_simps =
  unmarshal_def dec_struct_def find_field_def fold_name_def field_def dec_string_def dec_ptr_def dec_slice_def
  base_trigger_members_def pr_trigger_members_def push_trigger_members_def
  zero_base_trigger_def zero_pr_trigger_def zero_push_trigger_def
  base_step_members_def docker_step_members_def argocd_step_members_def create_pr_step_members_def
  zero_base_step_def zero_docker_step_def zero_argocd_step_def zero_create_pr_step_def
  base_step_fields.extend_def docker_build_step.fields_def argocd_step.fields_def
  github_create_pr_step.fields_def

lemmas source_simps =
  gitHubPullRequestTriggerSource_def gitHubPushTriggerSource_def dockerBuildTestStepSource_def
  dockerBuildTestPublishStepSource_def argoCDStepSource_def gitHubCreatePrStepSource_def

definition sample_raw_triggers :: "base_trigger list" where
  "sample_raw_triggers = [GitHubPullRequestTrigger
     \<lparr>TriggerName = ''pr'', TriggerSource = ''GitHubPullRequest'',
      prt_RepoUrl = ''https://github.com/org/app.git'', PullRequestEvents = None\<rparr>]"

definition sample_raw_steps :: "base_step list" where
  "sample_raw_steps = [DockerBuildTestStep
     \<lparr>StepName = None, StepSource = ''DockerBuildTest'', DependsOn = None, Volumes = None,
      VolumeMounts = None, DockerfilePath = None, DockerContextDir = Some ''sub'', Artifacts = None\<rparr>]"

lemma sample_parses:
  "parseTriggers sample_flow = Inr sample_raw_triggers"
  "parseSteps dv dm sample_flow = Inr sample_raw_steps"
  by (simp_all add: parseTriggers_def parseTrigger_def parseSteps_def parseStep_def sample_flow_def
      sample_trigger_def sample_step_def sample_raw_triggers_def sample_raw_steps_def
      decode_simps source_simps)

text \<open>The same flow, preprocessed.\<close>

definition sample_triggers :: "base_trigger list" where
  "sample_triggers = [GitHubPullRequestTrigger
     \<lparr>TriggerName = ''pr'', TriggerSource = ''GitHubPullRequest'',
      prt_RepoUrl = ''https://github.com/org/app.git'',
      PullRequestEvents = Some [''opened'', ''reopened'', ''synchronize'']\<rparr>]"

definition sample_steps :: "base_step list" where
  "sample_steps = [DockerBuildTestStep
     \<lparr>StepName = Some ''DockerBuildTest'', StepSource = ''DockerBuildTest'', DependsOn = None,
      Volumes = None, VolumeMounts = None, DockerfilePath = Some ''sub/Dockerfile'',
      DockerContextDir = Some ''sub'', Artifacts = None\<rparr>]"

lemma sample_defaults:
  "traverse trigger_defaults sample_raw_triggers = Inr sample_triggers"
  "traverse step_defaults sample_raw_steps = Inr sample_steps"
  "\<not> (\<exists>t \<in> set sample_raw_triggers. is_push t)"
  "ActiveDeadlineSeconds sample_flow = None"
  by (simp_all add: sample_raw_triggers_def sample_raw_steps_def sample_triggers_def sample_steps_def
      sample_flow_def docker_defaults_def apply_base_defaults_def getDefaultDockerfilePath_def
      defaultDockerfilePath_def defaultPullRequestEvents_def)

lemma sample_preprocess:
  "PreProcessFlow no_volume no_mount sample_flow
     = (sample_flow\<lparr>ActiveDeadlineSeconds := Some 900\<rparr>, Inr (sample_triggers, sample_steps))"
proof -
  have "validate sample_triggers sample_steps = Inr ()"
    by (simp add: validate_Inr sample_triggers_def sample_steps_def)
  then show ?thesis
    by (auto simp: PreProcessFlow_Inr applyDefaults_Inr sample_parses sample_defaults)
qed

theorem preprocess_ready_witness:
  "sample_triggers \<noteq> [] \<and> list_all trigger_ready sample_triggers \<and> list_all step_complete sample_steps"
  using preprocess_ready [OF sample_preprocess] by blast

text \<open>
  Preprocessing changes nothing of the flow but its deadline: a deadline that is set is kept;
  one that is absent becomes 3600 seconds if some trigger is a push trigger and 900 seconds
  otherwise.
\<close>

lemma preprocess_deadline:
  assumes "PreProcessFlow dv dm f = (f', Inr (ts, ss))"
  shows "f' = f\<lparr>ActiveDeadlineSeconds :=
           Some (case ActiveDeadlineSeconds f of
                   Some d \<Rightarrow> d
                 | None \<Rightarrow> if \<exists>t \<in> set ts. is_push t then 3600 else 900)\<rparr>"
proof -
  from assms obtain ts0 where d: "traverse trigger_defaults ts0 = Inr ts"
    and f': "f' = f\<lparr>ActiveDeadlineSeconds :=
           or_default (if \<exists>t \<in> set ts0. is_push t then 3600 else 900) (ActiveDeadlineSeconds f)\<rparr>"
    by (auto simp: PreProcessFlow_Inr applyDefaults_Inr)
  show ?thesis
    unfolding f' is_push_traverse [OF d, symmetric] by (simp add: or_default_def split: option.split)
qed

theorem preprocess_deadline_witness:
  "sample_flow\<lparr>ActiveDeadlineSeconds := Some 900\<rparr> = sample_flow\<lparr>ActiveDeadlineSeconds :=
     Some (case ActiveDeadlineSeconds sample_flow of
             Some d \<Rightarrow> d
           | None \<Rightarrow> if \<exists>t \<in> set sample_triggers. is_push t then 3600 else 900)\<rparr>"
  by (rule preprocess_deadline [OF sample_preprocess])

text \<open>
  Applying the defaults is idempotent: defaulting a flow, its triggers and its steps a second
  time returns them unchanged.
\<close>

lemma applyDefaults_idempotent:
  assumes "applyDefaults f ts ss = (f', Inr (ts', ss'))"
  shows "applyDefaults f' ts' ss' = (f', Inr (ts', ss'))"
  using assms triggers.traverse_idempotent [of ts ts'] steps.traverse_idempotent [of ss ss']
  by (auto simp: applyDefaults_Inr or_default_def split: option.split)

lemma applyDefaults_idempotent_witness:
  "applyDefaults (sample_flow\<lparr>ActiveDeadlineSeconds := Some 900\<rparr>) sample_triggers sample_steps
     = (sample_flow\<lparr>ActiveDeadlineSeconds := Some 900\<rparr>, Inr (sample_triggers, sample_steps))"
proof (rule applyDefaults_idempotent)
  show "applyDefaults sample_flow sample_raw_triggers sample_raw_steps
     = (sample_flow\<lparr>ActiveDeadlineSeconds := Some 900\<rparr>, Inr (sample_triggers, sample_steps))"
    by (simp add: applyDefaults_Inr sample_defaults)
qed

lemma parseTrigger_no_panic: "parseTrigger raw \<noteq> Inl Panicked"
  by (auto simp: parseTrigger_def unmarshal_def and_then_def split: sum.splits option.splits)

lemma parseStep_no_panic: "parseStep dv dm raw \<noteq> Inl Panicked"
  by (auto simp: parseStep_def unmarshal_def and_then_def split: sum.splits option.splits if_splits)

lemma trigger_defaults_no_panic: "trigger_defaults t \<noteq> Inl Panicked"
  by (cases t) auto

lemma step_defaults_no_panic: "step_defaults s \<noteq> Inl Panicked"
  by (cases s) (auto simp: and_then_Inl_iff)

lemma validate_trigger_no_panic: "validate_trigger t \<noteq> Inl Panicked"
  by (cases t) auto

lemmas processor_no_panic =
  parseTrigger_no_panic parseStep_no_panic trigger_defaults_no_panic step_defaults_no_panic
  validate_trigger_no_panic

lemma applyDefaults_no_panic: "snd (applyDefaults f ts ss) \<noteq> Inl Panicked"
proof -
  have "traverse trigger_defaults ts \<noteq> Inl Panicked" and "traverse step_defaults ss \<noteq> Inl Panicked"
    by (intro traverse_Inl_not processor_no_panic)+
  then show ?thesis
    by (auto simp: applyDefaults_def triggers_loop_eq and_then_def split: sum.splits)
qed

lemma validate_no_panic: "validate ts ss \<noteq> Inl Panicked"
proof -
  have "traverse validate_trigger ts \<noteq> Inl Panicked"
    by (intro traverse_Inl_not processor_no_panic)
  then show ?thesis by (auto simp: validate_def and_then_def split: sum.splits)
qed

section \<open>The source field selects the type\<close>

text \<open>
  The concrete struct is decoded from the same raw message as the base fields, so its source field
  is the one that selected its type. Each concrete member list extends the base members.
\<close>

lemma base_trigger_lifts:
  "list_all2 (member_lifts base_trigger_fields.truncate)
     (base_trigger_members :: 'a base_trigger_fields_scheme field list) base_trigger_members"
  by (simp add: base_trigger_members_def member_lifts_field base_trigger_fields.truncate_def)

lemma base_step_lifts:
  "list_all2 (member_lifts base_step_fields.truncate)
     (base_step_members dv dm :: 'a base_step_fields_scheme field list) (base_step_members dv dm)"
  by (simp add: base_step_members_def member_lifts_field base_step_fields.truncate_def)

lemma trigger_names_distinct:
  "names_distinct (base_trigger_members :: base_trigger_fields field list)"
  "names_distinct pr_trigger_members" "names_distinct push_trigger_members"
  by (simp_all add: names_distinct_def fold_name_def base_trigger_members_def pr_trigger_members_def
      push_trigger_members_def field_def)

lemma step_names_distinct:
  "names_distinct (base_step_members dv dm :: base_step_fields field list)"
  "names_distinct (docker_step_members dv dm)" "names_distinct (argocd_step_members dv dm)"
  "names_distinct (create_pr_step_members dv dm)"
  by (simp_all add: names_distinct_def fold_name_def base_step_members_def docker_step_members_def
      argocd_step_members_def create_pr_step_members_def field_def)

lemma unmarshal_Inr [simp]: "unmarshal what fs j r = Inr r' \<longleftrightarrow> dec_struct fs j r = Some r'"
  by (simp add: unmarshal_def split: option.split)

lemma embedded_trigger:
  assumes "list_all (member_frames base_trigger_fields.truncate) es"
    and "names_distinct (base_trigger_members @ es)"
    and "dec_struct (base_trigger_members @ es) j r = Some r'"
  shows "dec_struct base_trigger_members j (base_trigger_fields.truncate r)
     = Some (base_trigger_fields.truncate r')"
  by (rule dec_struct_embedded [OF base_trigger_lifts assms(1,2) trigger_names_distinct(1) assms(3)])

lemma embedded_step:
  assumes "list_all (member_frames base_step_fields.truncate) es"
    and "names_distinct (base_step_members dv dm @ es)"
    and "dec_struct (base_step_members dv dm @ es) j r = Some r'"
  shows "dec_struct (base_step_members dv dm) j (base_step_fields.truncate r)
     = Some (base_step_fields.truncate r')"
  by (rule dec_struct_embedded [OF base_step_lifts assms(1,2) step_names_distinct(1) assms(3)])

lemma parseTrigger_source:
  assumes "parseTrigger raw = Inr t"
  shows "(\<exists>p. t = GitHubPullRequestTrigger p \<and> TriggerSource p = gitHubPullRequestTriggerSource)
    \<or> (\<exists>p. t = GitHubPushTrigger p \<and> TriggerSource p = gitHubPushTriggerSource)"
proof -
  from assms obtain b where b: "dec_struct base_trigger_members raw zero_base_trigger = Some b"
    and t: "(TriggerSource b = gitHubPullRequestTriggerSource \<and>
        (\<exists>p. dec_struct pr_trigger_members raw zero_pr_trigger = Some p \<and> t = GitHubPullRequestTrigger p))
      \<or> (TriggerSource b = gitHubPushTriggerSource \<and>
        (\<exists>p. dec_struct push_trigger_members raw zero_push_trigger = Some p \<and> t = GitHubPushTrigger p))"
    by (auto simp: parseTrigger_def split: if_splits)
  have pr: "base_trigger_fields.truncate p = b"
    if "dec_struct pr_trigger_members raw zero_pr_trigger = Some p" for p
    using embedded_trigger [OF _ _ that [unfolded pr_trigger_members_def]]
      trigger_names_distinct(2) [unfolded pr_trigger_members_def] b
    by (simp add: member_frames_field base_trigger_fields.truncate_def zero_pr_trigger_def
        zero_base_trigger_def)
  have push: "base_trigger_fields.truncate p = b"
    if "dec_struct push_trigger_members raw zero_push_trigger = Some p" for p
    using embedded_trigger [OF _ _ that [unfolded push_trigger_members_def]]
      trigger_names_distinct(3) [unfolded push_trigger_members_def] b
    by (simp add: member_frames_field base_trigger_fields.truncate_def zero_push_trigger_def
        zero_base_trigger_def)
  from t pr push show ?thesis
    by (auto simp: base_trigger_fields.truncate_def)
qed

text \<open>The source a step of each type must have been declared with.\<close>

fun source_matches :: "base_step \<Rightarrow> bool" where
  "source_matches (DockerBuildTestStep s) = (StepSource s = dockerBuildTestStepSource)"
| "source_matches (DockerBuildTestPublishStep s) = (StepSource s = dockerBuildTestPublishStepSource)"
| "source_matches (ArgoCDStep s) = (StepSource s = argoCDStepSource)"
| "source_matches (GitHubCreatePrStep s) = (StepSource s = gitHubCreatePrStepSource)"
| "source_matches (OtherStep n b) = False"

lemma parseStep_source:
  assumes "parseStep dv dm raw = Inr s"
  shows "source_matches s"
proof -
  from assms obtain b where b: "dec_struct (base_step_members dv dm) raw zero_base_step = Some b"
    by (auto simp: parseStep_def)
  have docker: "base_step_fields.truncate p = b"
    if "dec_struct (docker_step_members dv dm) raw zero_docker_step = Some p" for p
    using embedded_step [OF _ _ that [unfolded docker_step_members_def]]
      step_names_distinct(2) [of dv dm, unfolded docker_step_members_def] b
    by (simp add: member_frames_field base_step_fields.truncate_def zero_docker_step_def
        zero_base_step_def base_step_fields.extend_def docker_build_step.fields_def)
  have argocd: "base_step_fields.truncate p = b"
    if "dec_struct (argocd_step_members dv dm) raw zero_argocd_step = Some p" for p
    using embedded_step [OF _ _ that [unfolded argocd_step_members_def]]
      step_names_distinct(3) [of dv dm, unfolded argocd_step_members_def] b
    by (simp add: member_frames_field base_step_fields.truncate_def zero_argocd_step_def
        zero_base_step_def base_step_fields.extend_def argocd_step.fields_def)
  have create_pr: "base_step_fields.truncate p = b"
    if "dec_struct (create_pr_step_members dv dm) raw zero_create_pr_step = Some p" for p
    using embedded_step [OF _ _ that [unfolded create_pr_step_members_def]]
      step_names_distinct(4) [of dv dm, unfolded create_pr_step_members_def] b
    by (simp add: member_frames_field base_step_fields.truncate_def zero_create_pr_step_def
        zero_base_step_def base_step_fields.extend_def github_create_pr_step.fields_def)
  from assms b docker argocd create_pr show ?thesis
    by (auto simp: parseStep_def base_step_fields.truncate_def split: if_splits)
qed

fun trigger_source_matches :: "base_trigger \<Rightarrow> bool" where
  "trigger_source_matches (GitHubPullRequestTrigger t) = (TriggerSource t = gitHubPullRequestTriggerSource)"
| "trigger_source_matches (GitHubPushTrigger t) = (TriggerSource t = gitHubPushTriggerSource)"
| "trigger_source_matches (OtherTrigger n) = False"

lemma trigger_defaults_source:
  "trigger_defaults t = Inr t' \<Longrightarrow> trigger_source_matches t \<Longrightarrow> trigger_source_matches t'"
  by (cases t) auto

lemma apply_base_defaults_StepSource [simp]: "StepSource (apply_base_defaults s) = StepSource s"
  by (simp add: apply_base_defaults_def split: option.split)

lemma docker_defaults_StepSource: "docker_defaults s = Inr s' \<Longrightarrow> StepSource s' = StepSource s"
  by (auto simp: docker_defaults_def Let_def split: if_splits)

lemma step_defaults_source: "step_defaults s = Inr s' \<Longrightarrow> source_matches s \<Longrightarrow> source_matches s'"
  by (cases s) (auto simp: docker_defaults_StepSource)

text \<open>
  C37. The declared source of every preprocessed trigger and step is the one of its concrete type:
  a step handled as an ArgoCD step said \<open>stepSource: ArgoCD\<close>, and so on for all six types; no
  other type comes out of preprocessing.
\<close>

theorem preprocess_sources:
  assumes "PreProcessFlow dv dm f = (f', Inr (ts, ss))"
  shows "list_all trigger_source_matches ts \<and> list_all source_matches ss"
proof -
  from assms obtain ts0 ss0 where p: "traverse parseTrigger (Triggers f) = Inr ts0"
      "traverse (parseStep dv dm) (Steps f) = Inr ss0"
    and d: "traverse trigger_defaults ts0 = Inr ts" "traverse step_defaults ss0 = Inr ss"
    by (auto simp: PreProcessFlow_Inr applyDefaults_Inr parseTriggers_def parseSteps_def)
  have "trigger_source_matches t" if t: "t \<in> set ts" for t
  proof -
    from traverse_in_set [OF d(1) t] obtain t0 where t0: "t0 \<in> set ts0" "trigger_defaults t0 = Inr t"
      by blast
    from traverse_in_set [OF p(1) t0(1)] obtain raw where "parseTrigger raw = Inr t0" by blast
    from parseTrigger_source [OF this] have "trigger_source_matches t0" by auto
    with t0(2) show ?thesis by (rule trigger_defaults_source)
  qed
  moreover have "source_matches s" if s: "s \<in> set ss" for s
  proof -
    from traverse_in_set [OF d(2) s] obtain s0 where s0: "s0 \<in> set ss0" "step_defaults s0 = Inr s"
      by blast
    from traverse_in_set [OF p(2) s0(1)] obtain raw where "parseStep dv dm raw = Inr s0" by blast
    from parseStep_source [OF this] s0(2) show ?thesis by (blast intro: step_defaults_source)
  qed
  ultimately show ?thesis by (simp add: list_all_iff)
qed

theorem preprocess_sources_witness:
  "list_all trigger_source_matches sample_triggers \<and> list_all source_matches sample_steps"
  by (rule preprocess_sources [OF sample_preprocess])

section \<open>Which flows preprocess\<close>

lemma defaulted_trigger_valid:
  "trigger_defaults t = Inr t' \<Longrightarrow>
     validate_trigger t' = Inr () \<longleftrightarrow>
       \<not> (\<exists>p. t = GitHubPullRequestTrigger p \<and> PullRequestEvents p = Some [])"
  by (cases t) (auto simp: or_default_def defaultPullRequestEvents_def items_def split: option.split)

lemma defaulted_triggers_valid:
  "traverse trigger_defaults ts = Inr ts' \<Longrightarrow>
     (\<forall>t \<in> set ts'. validate_trigger t = Inr ()) \<longleftrightarrow>
       \<not> (\<exists>p. GitHubPullRequestTrigger p \<in> set ts \<and> PullRequestEvents p = Some [])"
proof (induction ts arbitrary: ts')
  case (Cons t ts)
  from Cons.prems obtain u us where u: "trigger_defaults t = Inr u" "traverse trigger_defaults ts = Inr us"
    and ts': "ts' = u # us" by auto
  show ?case
    unfolding ts' using Cons.IH [OF u(2)] defaulted_trigger_valid [OF u(1)]
    by (simp add: eq_commute) blast
qed simp

lemma parsed_defaults:
  assumes "parseTriggers f = Inr ts" and "parseSteps dv dm f = Inr ss"
  shows "(\<exists>ts'. traverse trigger_defaults ts = Inr ts') \<and> (\<exists>ss'. traverse step_defaults ss = Inr ss')"
proof -
  have "\<exists>t'. trigger_defaults t = Inr t'" if "t \<in> set ts" for t
    using traverse_in_set [OF assms(1) [unfolded parseTriggers_def] that]
    by (auto dest!: parseTrigger_source)
  moreover have "\<exists>s'. step_defaults s = Inr s'" if "s \<in> set ss" for s
  proof -
    from traverse_in_set [OF assms(2) [unfolded parseSteps_def] that] have "source_matches s"
      by (auto dest: parseStep_source)
    then show ?thesis using docker_defaults_total by (cases s) auto
  qed
  ultimately show ?thesis by (simp add: traverse_total_iff)
qed

lemma preprocess_succeeds_iff:
  "(\<exists>p. snd (PreProcessFlow dv dm f) = Inr p) \<longleftrightarrow>
     (\<exists>ts ss. parseTriggers f = Inr ts \<and> parseSteps dv dm f = Inr ss \<and> ts \<noteq> [] \<and> ss \<noteq> []
        \<and> \<not> (\<exists>p. GitHubPullRequestTrigger p \<in> set ts \<and> PullRequestEvents p = Some []))"
  (is "?l \<longleftrightarrow> ?r")
proof -
  have "?l \<longleftrightarrow> (\<exists>f' ts' ss'. PreProcessFlow dv dm f = (f', Inr (ts', ss')))"
    by (cases "PreProcessFlow dv dm f") auto
  also have "\<dots> \<longleftrightarrow> ?r" (is "?m \<longleftrightarrow> _")
  proof
    assume ?m
    then obtain ts ss ts' ss' where p: "parseTriggers f = Inr ts" "parseSteps dv dm f = Inr ss"
      and d: "traverse trigger_defaults ts = Inr ts'" "traverse step_defaults ss = Inr ss'"
      and v: "validate ts' ss' = Inr ()"
      by (auto simp: PreProcessFlow_Inr applyDefaults_Inr)
    show ?r
      using p v defaulted_triggers_valid [OF d(1)] traverse_length [OF d(1)] traverse_length [OF d(2)]
      by (auto simp: validate_Inr)
  next
    assume ?r
    then obtain ts ss where p: "parseTriggers f = Inr ts" "parseSteps dv dm f = Inr ss"
      and v: "ts \<noteq> []" "ss \<noteq> []"
        "\<not> (\<exists>p. GitHubPullRequestTrigger p \<in> set ts \<and> PullRequestEvents p = Some [])"
      by auto
    from parsed_defaults [OF p] obtain ts' ss' where
      d: "traverse trigger_defaults ts = Inr ts'" "traverse step_defaults ss = Inr ss'" by auto
    have "validate ts' ss' = Inr ()"
      using v defaulted_triggers_valid [OF d(1)] traverse_length [OF d(1)] traverse_length [OF d(2)]
      by (auto simp: validate_Inr)
    then show ?m
      unfolding PreProcessFlow_Inr applyDefaults_Inr using p d by blast
  qed
  finally show ?thesis .
qed

text \<open>
  C36. Preprocessing never panics, whatever the raw messages are; in particular the Docker context
  directory is never nil where the default Dockerfile path is computed from it. It returns the
  triggers and steps exactly if every raw trigger and every raw step parses, there is at least one
  of each, and no pull-request trigger gives an empty list of events (an absent list is filled in);
  in every other case it returns an error.
\<close>

theorem preprocess_no_panic:
  "snd (PreProcessFlow dv dm f) \<noteq> Inl Panicked
    \<and> ((\<exists>p. snd (PreProcessFlow dv dm f) = Inr p) \<longleftrightarrow>
         (\<exists>ts ss. parseTriggers f = Inr ts \<and> parseSteps dv dm f = Inr ss \<and> ts \<noteq> [] \<and> ss \<noteq> []
            \<and> \<not> (\<exists>p. GitHubPullRequestTrigger p \<in> set ts \<and> PullRequestEvents p = Some [])))"
proof (rule conjI [OF _ preprocess_succeeds_iff])
  have t: "parseTriggers f \<noteq> Inl Panicked" and s: "parseSteps dv dm f \<noteq> Inl Panicked"
    unfolding parseTriggers_def parseSteps_def by (intro traverse_Inl_not processor_no_panic)+
  have a: "applyDefaults f ts ss \<noteq> (f', Inl Panicked)" for ts ss f'
    using applyDefaults_no_panic [of f ts ss] by auto
  show "snd (PreProcessFlow dv dm f) \<noteq> Inl Panicked"
    by (auto simp: PreProcessFlow_def and_then_Inl_iff t s a validate_no_panic
        split: sum.splits prod.splits)
qed

section \<open>Marshalled values parse back\<close>

text \<open>
  The JSON object that the \<open>json\<close> tags of a struct describe: \<open>omitzero\<close> members are left out
  when nil. Volumes and mounts are written by the parameters \<open>ev\<close> and \<open>em\<close>.
\<close>

definition opt_member :: "string \<Rightarrow> ('a \<Rightarrow> json) \<Rightarrow> 'a option \<Rightarrow> (string \<times> json) list" where
  "opt_member k enc p = (case p of None \<Rightarrow> [] | Some v \<Rightarrow> [(k, enc v)])"

definition enc_strings :: "string list \<Rightarrow> json" where
  "enc_strings ss = JArr (map JStr ss)"

fun marshal_trigger :: "base_trigger \<Rightarrow> json" where
  "marshal_trigger (GitHubPullRequestTrigger t) = JObj
     ([(''triggerName'', JStr (TriggerName t)), (''triggerSource'', JStr (TriggerSource t)),
       (''repoUrl'', JStr (prt_RepoUrl t))]
      @ opt_member ''pullRequestEvents'' enc_strings (PullRequestEvents t))"
| "marshal_trigger (GitHubPushTrigger t) = JObj
     ([(''triggerName'', JStr (TriggerName t)), (''triggerSource'', JStr (TriggerSource t)),
       (''repoUrl'', JStr (pst_RepoUrl t))] @ opt_member ''baseRef'' JStr (pst_BaseRef t))"
| "marshal_trigger (OtherTrigger n) = JNull"

lemma dec_elems_strings: "dec_elems [] dec_string (map JStr ss) [] = Some ss"
  by (induction ss) (simp_all add: dec_string_def)

lemma parse_marshalled:
  assumes "trigger_source_matches t"
  shows "parseTrigger (marshal_trigger t) = Inr t"
proof (cases t)
  case (GitHubPullRequestTrigger p)
  with assms show ?thesis
    by (cases p; cases "PullRequestEvents p")
       (simp_all add: parseTrigger_def decode_simps source_simps opt_member_def enc_strings_def
          dec_elems_strings)
next
  case (GitHubPushTrigger p)
  with assms show ?thesis
    by (cases p; cases "pst_BaseRef p")
       (simp_all add: parseTrigger_def decode_simps source_simps opt_member_def)
qed (use assms in simp)

text \<open>
  C39. A trigger written as the JSON object its tags describe parses back to exactly that trigger,
  absent optional fields still absent, if and only if its source field is the one of its type:
  \<open>GitHubPullRequest\<close> for pull-request triggers and \<open>GitHubPush\<close> for push triggers. A trigger
  whose source field names another type does not survive the round trip. Every trigger that the
  parser returns does: parsing, marshalling and parsing again gives the same trigger.
\<close>

theorem parse_marshal_trigger:
  "(parseTrigger (marshal_trigger t) = Inr t \<longleftrightarrow> trigger_source_matches t)
    \<and> and_then (parseTrigger raw) (\<lambda>u. parseTrigger (marshal_trigger u)) = parseTrigger raw"
proof
  show "parseTrigger (marshal_trigger t) = Inr t \<longleftrightarrow> trigger_source_matches t"
    by (auto intro: parse_marshalled dest!: parseTrigger_source)
  show "and_then (parseTrigger raw) (\<lambda>u. parseTrigger (marshal_trigger u)) = parseTrigger raw"
  proof (cases "parseTrigger raw")
    case (Inr u)
    from parseTrigger_source [OF this] have "trigger_source_matches u" by auto
    with Inr show ?thesis by (simp add: parse_marshalled)
  qed simp
qed

text \<open>The round trip of the sample flow's trigger.\<close>

lemma sample_trigger_round_trip:
  "parseTrigger (marshal_trigger (hd sample_triggers)) = Inr (hd sample_triggers)"
  by (rule parse_marshalled) (simp add: sample_triggers_def source_simps)

end
