(* ===== verification/Step_Dependencies.thy ===== *)
theory Step_Dependencies
  imports Flow_Processor
begin

text \<open>
  Dependencies between the steps of a flow (the helpers at the end of
  \<open>internal/controller/sensorbuilder/sensor_trigger_tasks.go\<close>): the breadth-first search for
  the Dockerfile that a deployment step depends on, the conditions of a task on its dependencies,
  and the image directory derived from a Dockerfile path.

  The search is specified by reachability in the graph of \<open>dependsOn\<close> edges.
\<close>

text \<open>
  \<open>stepsByName\<close>: an association list in which the step added last is found first, as a later
  write to a Go map replaces an earlier one.
\<close>

type_synonym steps_by_name = "(string \<times> base_step) list"

definition named_step :: "base_step \<Rightarrow> (string \<times> base_step) res" where
  "named_step s = and_then (GetStepName s) (\<lambda>n. Inr (n, s))"

definition stepsByName :: "base_step list \<Rightarrow> steps_by_name res" where
  "stepsByName flowSteps = and_then (traverse named_step flowSteps) (\<lambda>xs. Inr (rev xs))"

section \<open>The Dockerfile a step depends on\<close>

definition multiple_paths :: "string \<Rightarrow> fault" where
  "multiple_paths n = Failed (Errorf (''found multiple dockerfile paths for step: '' @ n))"

definition no_path :: "string \<Rightarrow> fault" where
  "no_path n = Failed (Errorf (''did not find dockerfile path for step: '' @ n))"

text \<open>The type switch of the loop: \<open>p\<close> is the path found so far, empty when there is none.\<close>

fun found_path :: "string \<Rightarrow> string \<Rightarrow> base_step \<Rightarrow> string res" where
  "found_path n p (DockerBuildTestPublishStep s) =
     (if p \<noteq> [] then Inl (multiple_paths n) else deref (DockerfilePath s))"
| "found_path n p _ = Inr p"

text \<open>
  The loop over the queue. A dependency that no step has is a nil interface: the type switch
  passes it by and the call of \<open>GetDependsOn\<close> on it panics.
\<close>

function dockerfile_search ::
  "steps_by_name \<Rightarrow> string \<Rightarrow> string set \<Rightarrow> string \<Rightarrow> string list \<Rightarrow> string res" where
  "dockerfile_search m n visited p [] = Inr p"
| "dockerfile_search m n visited p (d # ds) =
     (if d \<in> visited then dockerfile_search m n visited p ds
      else case map_of m d of
        None \<Rightarrow> Inl Panicked
      | Some s \<Rightarrow> and_then (found_path n p s) (\<lambda>p'.
          dockerfile_search m n (insert d visited) p' (ds @ items (GetDependsOn s))))"
  by pat_completeness auto
termination
proof (relation "measures [\<lambda>(m, n, visited, p, q). card (fst ` set m - visited),
    \<lambda>(m, n, visited, p, q). length q]", goal_cases)
  case (3 m n visited p d ds s p')
  from 3 have "d \<in> fst ` set m - visited" by (auto dest: map_of_SomeD simp: rev_image_eqI)
  then have "fst ` set m - insert d visited \<subset> fst ` set m - visited" by blast
  then have "card (fst ` set m - insert d visited) < card (fst ` set m - visited)"
    by (rule psubset_card_mono [rotated]) simp
  then show ?case by simp
qed auto

definition getDockerfilePathDependency :: "string \<Rightarrow> steps_by_name \<Rightarrow> string res" where
  "getDockerfilePathDependency n m =
     (case map_of m n of
        None \<Rightarrow> Inl Panicked
      | Some s \<Rightarrow> and_then (dockerfile_search m n {} [] (items (GetDependsOn s))) (\<lambda>p.
          if p = [] then Inl (no_path n) else Inr p))"

section \<open>Conditions on the dependencies\<close>

definition status_condition :: "string \<Rightarrow> string" where
  "status_condition n =
     ''{{tasks.'' @ n @ ''.outputs.parameters.jettison-deploy-step-status}} != Skipped''"

text \<open>The condition a dependency adds: none for steps without a status, or for an unknown name.\<close>

fun when_dep :: "base_step option \<Rightarrow> string list res" where
  "when_dep (Some (DockerBuildTestPublishStep s)) =
     and_then (deref (StepName s)) (\<lambda>n. Inr [status_condition n])"
| "when_dep (Some (DockerBuildTestStep s)) =
     and_then (deref (StepName s)) (\<lambda>n. Inr [status_condition n])"
| "when_dep (Some (ArgoCDStep s)) =
     and_then (deref (StepName s)) (\<lambda>n. Inr [status_condition n])"
| "when_dep _ = Inr []"

definition getWhen :: "string \<Rightarrow> steps_by_name \<Rightarrow> string res" where
  "getWhen n m =
     (case map_of m n of
        None \<Rightarrow> Inl Panicked
      | Some s \<Rightarrow> and_then (traverse (\<lambda>d. when_dep (map_of m d)) (items (GetDependsOn s)))
          (\<lambda>conds. Inr (join '' && '' (concat conds))))"

definition getDepends :: "string list option \<Rightarrow> string" where
  "getDepends dependsOn =
     (if items dependsOn = [] then []
      else join '' && '' (map (\<lambda>d. d @ ''.Succeeded'') (items dependsOn)))"

text \<open>
  What such an expression asks for, after Argo's documentation of \<open>depends\<close>: a term
  \<open>task.Succeeded\<close> holds if the task succeeded, \<open>&&\<close> binds tighter than \<open>||\<close>, and an absent
  expression waits for nothing. Only expressions without parentheses and negations occur here;
  their parts are separated by blanks.
\<close>

definition term_holds :: "(string \<Rightarrow> bool) \<Rightarrow> string list \<Rightarrow> bool" where
  "term_holds succeeded t =
     (case t of [a] \<Rightarrow> trim_suffix ''.Succeeded'' a \<noteq> a \<and> succeeded (trim_suffix ''.Succeeded'' a)
      | _ \<Rightarrow> False)"

definition depends_holds :: "(string \<Rightarrow> bool) \<Rightarrow> string \<Rightarrow> bool" where
  "depends_holds succeeded e \<longleftrightarrow>
     e = [] \<or> list_ex (\<lambda>conj. list_all (term_holds succeeded) (split_on ''&&'' conj))
                (split_on ''||'' (split_on (CHR '' '') e))"

lemma split_on_join:
  "xs \<noteq> [] \<Longrightarrow> list_all (\<lambda>x. c \<notin> set x) xs \<Longrightarrow> split_on c (join [c] xs) = xs"
  by (induction "[c]" xs rule: join.induct) (simp_all add: split_on_fresh split_on_append_sep)

lemma join_tokens: "join '' && '' ts = join '' '' (join [''&&''] (map (\<lambda>t. [t]) ts))"
proof (induction ts)
  case (Cons t ts)
  then show ?case
  proof (cases ts)
    case more: (Cons u us)
    then obtain x xs where "join [''&&''] (map (\<lambda>t. [t]) ts) = x # xs" by (cases us) auto
    with more Cons show ?thesis by simp
  qed simp
qed simp

lemma set_join_tokens: "set (join [''&&''] (map (\<lambda>t. [t]) ts)) \<subseteq> insert ''&&'' (set ts)"
proof (induction ts)
  case (Cons t ts)
  then show ?case by (cases ts) auto
qed simp

text \<open>The expression built for a list of names holds exactly if all of them have succeeded.\<close>

lemma depends_holds_join:
  assumes "list_all (\<lambda>d. CHR '' '' \<notin> set d) ds"
  shows "depends_holds succeeded (join '' && '' (map (\<lambda>d. d @ ''.Succeeded'') ds)) = list_all succeeded ds"
proof (cases "ds = []")
  case False
  let ?ts = "map (\<lambda>d. d @ ''.Succeeded'') ds"
  let ?toks = "join [''&&''] (map (\<lambda>t. [t]) ?ts)"
  have ends: "t \<noteq> ''&&'' \<and> t \<noteq> ''||''" if t: "t \<in> set ?ts" for t
  proof -
    from t obtain d where "t = d @ ''.Succeeded''" by auto
    then have "last t = CHR ''d''" by simp
    then show ?thesis by auto
  qed
  have blank: "list_all (\<lambda>t. CHR '' '' \<notin> set t) ?toks"
    using set_join_tokens [of ?ts] assms by (force simp: list_all_iff)
  have toks: "?toks \<noteq> []"
  proof (cases ds)
    case (Cons d ds')
    then show ?thesis by (cases ds') simp_all
  qed (use False in simp)
  have tokens: "split_on (CHR '' '') (join '' && '' ?ts) = ?toks"
    unfolding join_tokens by (rule split_on_join [OF toks blank])
  have "''||'' \<notin> set ?toks" using set_join_tokens [of ?ts] ends by fastforce
  then have disj: "split_on ''||'' ?toks = [?toks]" by (rule split_on_fresh)
  have "''&&'' \<notin> set ?ts" using ends by blast
  then have conj: "split_on ''&&'' ?toks = map (\<lambda>t. [t]) ?ts"
    using False by (intro split_on_join) (auto simp: list_all_iff)
  have "join '' && '' ?ts \<noteq> []"
  proof
    assume "join '' && '' ?ts = []"
    with tokens have "?toks = [[]]" by simp
    with set_join_tokens [of ?ts] show False by auto
  qed
  moreover have "list_all (term_holds succeeded) (split_on ''&&'' ?toks) = list_all succeeded ds"
    unfolding conj by (simp add: term_holds_def list_all_iff)
  ultimately show ?thesis
    unfolding depends_holds_def tokens disj by simp
qed (simp add: depends_holds_def)

section \<open>Names derived from paths\<close>

definition artifactKeyPrefix :: string where
  "artifactKeyPrefix = ''workflow-artifacts/{{workflow.name}}/{{pod.name}}''"

definition getArtifactKey :: "string \<Rightarrow> string" where
  "getArtifactKey key = artifactKeyPrefix @ ''/'' @ key"

definition trim_cutset :: "char \<Rightarrow> bool" where
  "trim_cutset c \<longleftrightarrow> c \<in> set '' .-_''"

definition getDockerfileDir :: "string \<Rightarrow> string" where
  "getDockerfileDir dockerfilePath =
     (case path_split dockerfilePath of (dir, file0) \<Rightarrow>
       let file = trim_both trim_cutset (remove_all ''dockerfile'' (to_lower file0)) in
       if file = [] \<and> dir = [] then []
       else if dir = [] then ''/'' @ file
       else let dir' = (if has_prefix ''/'' dir then dir else ''/'' @ dir) in
         if file = [] then trim_right (\<lambda>c. c = CHR ''/'') dir'
         else dir' @ file)"

section \<open>The search finds the one publisher\<close>

text \<open>The edges of the graph, the steps a step depends on transitively, and the publishers.\<close>

definition depends_directly :: "steps_by_name \<Rightarrow> string \<Rightarrow> string set" where
  "depends_directly m a =
     (case map_of m a of None \<Rightarrow> {} | Some s \<Rightarrow> set (items (GetDependsOn s)))"

definition dependency_edges :: "steps_by_name \<Rightarrow> (string \<times> string) set" where
  "dependency_edges m = {(a, b). b \<in> depends_directly m a}"

definition dependencies :: "steps_by_name \<Rightarrow> string \<Rightarrow> string set" where
  "dependencies m n = {d. (n, d) \<in> (dependency_edges m)\<^sup>+}"

definition published_path :: "steps_by_name \<Rightarrow> string \<Rightarrow> string option" where
  "published_path m d =
     (case map_of m d of
        Some (DockerBuildTestPublishStep s) \<Rightarrow> DockerfilePath s
      | _ \<Rightarrow> None)"

definition publishers :: "steps_by_name \<Rightarrow> string set \<Rightarrow> string set" where
  "publishers m ds = {d \<in> ds. published_path m d \<noteq> None}"

text \<open>
  The publishers whose Dockerfile path is not empty: the search takes the empty path for "nothing
  found yet". A flow can set the path to the empty string; preprocessing only fills in absent paths.
\<close>

definition named_publishers :: "steps_by_name \<Rightarrow> string set \<Rightarrow> string set" where
  "named_publishers m ds = {d \<in> ds. \<exists>p. published_path m d = Some p \<and> p \<noteq> []}"

text \<open>Publishing steps have a Dockerfile path, as preprocessing leaves them.\<close>

definition paths_set :: "steps_by_name \<Rightarrow> bool" where
  "paths_set m \<longleftrightarrow> (\<forall>d s. map_of m d = Some (DockerBuildTestPublishStep s)
     \<longrightarrow> DockerfilePath s \<noteq> None)"

lemma edge_dependencies: "depends_directly m n \<subseteq> dependencies m n"
  by (auto simp: dependencies_def dependency_edges_def)

lemma dependencies_step: "a \<in> dependencies m n \<Longrightarrow> depends_directly m a \<subseteq> dependencies m n"
  by (auto simp: dependencies_def dependency_edges_def intro: trancl_into_trancl)

lemma dependencies_least:
  assumes "\<forall>a \<in> insert n V. depends_directly m a \<subseteq> V"
  shows "dependencies m n \<subseteq> V"
proof
  fix d assume "d \<in> dependencies m n"
  then have "(n, d) \<in> (dependency_edges m)\<^sup>+" by (simp add: dependencies_def)
  then show "d \<in> V"
    by (induction rule: trancl_induct) (use assms in \<open>auto simp: dependency_edges_def\<close>)
qed

text \<open>What the search has established about the visited steps \<open>V\<close> with the queue \<open>q\<close>.\<close>

definition search_inv :: "steps_by_name \<Rightarrow> string \<Rightarrow> string set \<Rightarrow> string \<Rightarrow> string list \<Rightarrow> bool" where
  "search_inv m n V p q \<longleftrightarrow>
     V \<union> set q \<subseteq> dependencies m n \<and> V \<subseteq> dom (map_of m)
     \<and> (\<forall>v \<in> insert n V. depends_directly m v \<subseteq> V \<union> set q)
     \<and> (p = [] \<and> named_publishers m V = {}
        \<or> p \<noteq> [] \<and> (\<exists>d. named_publishers m V = {d} \<and> published_path m d = Some p))"

definition search_spec :: "steps_by_name \<Rightarrow> string \<Rightarrow> string res \<Rightarrow> bool" where
  "search_spec m n r \<longleftrightarrow>
     (case r of
        Inr p \<Rightarrow> dependencies m n \<subseteq> dom (map_of m)
          \<and> (p = [] \<and> named_publishers m (dependencies m n) = {}
             \<or> p \<noteq> [] \<and> (\<exists>d. named_publishers m (dependencies m n) = {d}
                  \<and> published_path m d = Some p))
      | Inl f \<Rightarrow> f = Panicked \<and> \<not> dependencies m n \<subseteq> dom (map_of m)
          \<or> f = multiple_paths n
            \<and> (\<exists>a b. a \<noteq> b \<and> a \<in> named_publishers m (dependencies m n)
                 \<and> b \<in> publishers m (dependencies m n)))"

lemma named_publishers_insert:
  "named_publishers m (insert d V) =
     (if published_path m d \<in> {None, Some []} then named_publishers m V
      else insert d (named_publishers m V))"
  by (auto simp: named_publishers_def)

lemma named_publishers_subset: "named_publishers m V \<subseteq> publishers m V"
  by (auto simp: named_publishers_def publishers_def)

lemma found_path_cases:
  assumes "paths_set m" and "map_of m d = Some s"
  shows "found_path n p s =
    (case published_path m d of None \<Rightarrow> Inr p
     | Some p' \<Rightarrow> if p \<noteq> [] then Inl (multiple_paths n) else Inr p')"
  using assms by (cases s) (fastforce simp: published_path_def paths_set_def)+

lemma search_inv_seen:
  "search_inv m n V p (d # ds) \<Longrightarrow> d \<in> V \<Longrightarrow> search_inv m n V p ds"
  by (simp add: search_inv_def insert_absorb)

lemma search_inv_step:
  assumes inv: "search_inv m n V p (d # ds)" and s: "map_of m d = Some s" and fresh: "d \<notin> V"
    and given: "paths_set m" and found: "found_path n p s = Inr p'"
  shows "search_inv m n (insert d V) p' (ds @ items (GetDependsOn s))"
proof -
  have q: "set (items (GetDependsOn s)) = depends_directly m d"
    using s by (simp add: depends_directly_def)
  have "depends_directly m d \<subseteq> dependencies m n"
    by (rule dependencies_step) (use inv in \<open>simp add: search_inv_def\<close>)
  with inv have sub: "insert d V \<union> set (ds @ items (GetDependsOn s)) \<subseteq> dependencies m n"
    unfolding set_append q by (simp add: search_inv_def)
  have closed: "\<forall>v \<in> insert n (insert d V).
      depends_directly m v \<subseteq> insert d V \<union> set (ds @ items (GetDependsOn s))"
    using inv unfolding set_append q by (simp add: search_inv_def) blast
  have "p' = [] \<and> named_publishers m (insert d V) = {}
      \<or> p' \<noteq> [] \<and> (\<exists>e. named_publishers m (insert d V) = {e} \<and> published_path m e = Some p')"
    using inv found
    by (auto simp: search_inv_def found_path_cases [OF given s] named_publishers_insert
        split: option.splits if_splits)
  moreover have "insert d V \<subseteq> dom (map_of m)"
    using inv s by (auto simp: search_inv_def)
  ultimately show ?thesis
    unfolding search_inv_def using sub closed by blast
qed

lemma search_inv_error:
  assumes inv: "search_inv m n V p (d # ds)" and s: "map_of m d = Some s" and fresh: "d \<notin> V"
    and given: "paths_set m" and found: "found_path n p s = Inl f"
  shows "search_spec m n (Inl f)"
proof -
  from found obtain q where q: "published_path m d = Some q" and f: "f = multiple_paths n"
    and p: "p \<noteq> []"
    by (auto simp: found_path_cases [OF given s] split: option.splits if_splits)
  from p inv obtain e where e: "named_publishers m V = {e}" by (auto simp: search_inv_def)
  then have "e \<in> named_publishers m V" by simp
  then have "e \<in> V" "\<exists>q. published_path m e = Some q \<and> q \<noteq> []" by (auto simp: named_publishers_def)
  moreover from this fresh have "e \<noteq> d" by blast
  moreover have "V \<subseteq> dependencies m n" "d \<in> dependencies m n"
    using inv by (auto simp: search_inv_def)
  ultimately have "e \<noteq> d \<and> e \<in> named_publishers m (dependencies m n)
      \<and> d \<in> publishers m (dependencies m n)"
    using q by (auto simp: named_publishers_def publishers_def)
  then show ?thesis using f by (auto simp: search_spec_def)
qed

lemma search_inv_done:
  assumes "search_inv m n V p []"
  shows "search_spec m n (Inr p)"
proof -
  have "dependencies m n \<subseteq> V"
    using assms by (intro dependencies_least) (simp add: search_inv_def)
  with assms have "dependencies m n = V" by (auto simp: search_inv_def)
  with assms show ?thesis by (auto simp: search_spec_def search_inv_def)
qed

lemma dockerfile_search_correct:
  assumes "paths_set m" and "search_inv m n V p q"
  shows "search_spec m n (dockerfile_search m n V p q)"
  using assms
proof (induction m n V p q rule: dockerfile_search.induct)
  case (1 m n V p)
  then show ?case by (simp add: search_inv_done)
next
  case (2 m n V p d ds)
  show ?case
  proof (cases "d \<in> V")
    case True
    with 2 show ?thesis by (simp add: search_inv_seen)
  next
    case fresh: False
    show ?thesis
    proof (cases "map_of m d")
      case None
      then have "\<not> dependencies m n \<subseteq> dom (map_of m)"
        using 2(4) by (auto simp: search_inv_def)
      with None fresh show ?thesis by (simp add: search_spec_def)
    next
      case (Some s)
      then show ?thesis
        using fresh 2 by (cases "found_path n p s") (auto intro: search_inv_step search_inv_error)
    qed
  qed
qed

lemma search_inv_start:
  "map_of m n = Some s \<Longrightarrow> search_inv m n {} [] (items (GetDependsOn s))"
  using edge_dependencies [of m n]
  by (simp add: search_inv_def named_publishers_def depends_directly_def)

text \<open>The result of the whole search, with the two errors, the panic and the path told apart.\<close>

lemma dockerfile_search_cases:
  assumes "paths_set m" and "map_of m n = Some s"
  obtains
    (path) p d where "getDockerfilePathDependency n m = Inr p" "dependencies m n \<subseteq> dom (map_of m)"
      "named_publishers m (dependencies m n) = {d}" "published_path m d = Some p"
  | (none) "getDockerfilePathDependency n m = Inl (no_path n)" "dependencies m n \<subseteq> dom (map_of m)"
      "named_publishers m (dependencies m n) = {}"
  | (several) a b where "getDockerfilePathDependency n m = Inl (multiple_paths n)"
      "a \<noteq> b" "a \<in> named_publishers m (dependencies m n)" "b \<in> publishers m (dependencies m n)"
  | (panic) "getDockerfilePathDependency n m = Inl Panicked" "\<not> dependencies m n \<subseteq> dom (map_of m)"
proof -
  have spec: "search_spec m n (dockerfile_search m n {} [] (items (GetDependsOn s)))"
    by (rule dockerfile_search_correct [OF assms(1) search_inv_start [OF assms(2)]])
  show thesis
  proof (cases "dockerfile_search m n {} [] (items (GetDependsOn s))")
    case (Inl f)
    with assms(2) have r: "getDockerfilePathDependency n m = Inl f"
      by (simp add: getDockerfilePathDependency_def)
    from spec Inl several panic r show thesis by (auto simp: search_spec_def)
  next
    case (Inr q)
    with assms(2) have "getDockerfilePathDependency n m = (if q = [] then Inl (no_path n) else Inr q)"
      by (simp add: getDockerfilePathDependency_def)
    with spec Inr path none show thesis by (auto simp: search_spec_def split: if_splits)
  qed
qed

lemma search_faults_differ:
  "multiple_paths n \<noteq> no_path n" "no_path n \<noteq> Panicked" "multiple_paths n \<noteq> Panicked"
  by (simp_all add: multiple_paths_def no_path_def)

lemmas search_results_differ = search_faults_differ search_faults_differ [symmetric]

lemma dockerfile_found_unique:
  assumes "paths_set m" and "map_of m n = Some s" and "getDockerfilePathDependency n m = Inr p"
  shows "dependencies m n \<subseteq> dom (map_of m)
    \<and> (\<exists>d. named_publishers m (dependencies m n) = {d} \<and> published_path m d = Some p)"
  by (rule dockerfile_search_cases [OF assms(1,2)]) (use assms(3) in auto)

lemma dockerfile_found_one:
  assumes "paths_set m" and "map_of m n = Some s" and "dependencies m n \<subseteq> dom (map_of m)"
    and "named_publishers m (dependencies m n) = {d}" and "published_path m d = Some p"
  shows "getDockerfilePathDependency n m = Inr p
    \<or> getDockerfilePathDependency n m = Inl (multiple_paths n)
      \<and> (\<exists>e. e \<noteq> d \<and> e \<in> dependencies m n \<and> published_path m e = Some [])"
proof (rule dockerfile_search_cases [OF assms(1,2)], goal_cases)
  case several: (3 a b)
  then have "a = d" "b \<noteq> d" "b \<in> dependencies m n" using assms(4) by (auto simp: publishers_def)
  moreover have "published_path m b = Some []"
    using several(4) assms(4) \<open>b \<noteq> d\<close> by (auto simp: publishers_def named_publishers_def)
  ultimately show ?thesis using several(1) by blast
qed (use assms in auto)

lemma dockerfile_none_iff:
  assumes "paths_set m" and "map_of m n = Some s"
  shows "getDockerfilePathDependency n m = Inl (no_path n) \<longleftrightarrow>
    dependencies m n \<subseteq> dom (map_of m) \<and> named_publishers m (dependencies m n) = {}"
  by (rule dockerfile_search_cases [OF assms]) (simp_all add: search_results_differ, blast)

lemma dockerfile_several:
  assumes "paths_set m" and "map_of m n = Some s"
  shows "dependencies m n \<subseteq> dom (map_of m) \<Longrightarrow> a \<noteq> b
      \<Longrightarrow> {a, b} \<subseteq> named_publishers m (dependencies m n)
      \<Longrightarrow> getDockerfilePathDependency n m = Inl (multiple_paths n)"
    and "getDockerfilePathDependency n m = Inl (multiple_paths n) \<Longrightarrow>
      \<exists>a b. a \<noteq> b \<and> a \<in> named_publishers m (dependencies m n)
        \<and> b \<in> publishers m (dependencies m n)"
   apply (rule dockerfile_search_cases [OF assms]; simp)
  apply (rule dockerfile_search_cases [OF assms]; (simp add: search_results_differ)?; blast)
  done

lemma dockerfile_panic:
  assumes "paths_set m" and "map_of m n = Some s"
  shows "getDockerfilePathDependency n m = Inl Panicked \<Longrightarrow> \<not> dependencies m n \<subseteq> dom (map_of m)"
  by (rule dockerfile_search_cases [OF assms]) (simp_all add: search_results_differ)

text \<open>
  C8. The search for the Dockerfile of a deployment step, on every dependency graph, cycles and
  shared dependencies included. The publishing steps have a Dockerfile path, as preprocessing leaves
  them, which may be the empty string; call a publishing step named if its path is not empty.
  (1) A path that is returned is that of the only named publishing step among the transitive
  dependencies, which are all steps of the flow. When all transitive dependencies are steps:
  (2) the search reports that there is no path exactly if no publishing step among them is named;
  (3) it returns the path of the named one if there is exactly one, unless another publishing step
  among them has an empty path, in which case it may report several paths instead; (4) it reports
  several paths if two are named. (5) It reports several paths only if there are two publishing
  steps, one of them named. (6) It panics only if some transitive dependency is not a step.
  So if no publishing step has an empty path it is exactly right.
\<close>

theorem dockerfile_dependency_correct:
  assumes "paths_set m" and "map_of m n = Some s"
  shows "(getDockerfilePathDependency n m = Inr p \<longrightarrow>
       dependencies m n \<subseteq> dom (map_of m)
       \<and> (\<exists>d. named_publishers m (dependencies m n) = {d} \<and> published_path m d = Some p))
     \<and> (getDockerfilePathDependency n m = Inl (no_path n) \<longleftrightarrow>
       dependencies m n \<subseteq> dom (map_of m) \<and> named_publishers m (dependencies m n) = {})
     \<and> (dependencies m n \<subseteq> dom (map_of m) \<and> named_publishers m (dependencies m n) = {d}
          \<and> published_path m d = Some p \<longrightarrow>
        getDockerfilePathDependency n m = Inr p
        \<or> getDockerfilePathDependency n m = Inl (multiple_paths n)
          \<and> (\<exists>e. e \<noteq> d \<and> e \<in> dependencies m n \<and> published_path m e = Some []))
     \<and> (dependencies m n \<subseteq> dom (map_of m) \<and> a \<noteq> b
          \<and> {a, b} \<subseteq> named_publishers m (dependencies m n) \<longrightarrow>
        getDockerfilePathDependency n m = Inl (multiple_paths n))
     \<and> (getDockerfilePathDependency n m = Inl (multiple_paths n) \<longrightarrow>
        (\<exists>a b. a \<noteq> b \<and> a \<in> named_publishers m (dependencies m n)
           \<and> b \<in> publishers m (dependencies m n)))
     \<and> (getDockerfilePathDependency n m = Inl Panicked \<longrightarrow>
       \<not> dependencies m n \<subseteq> dom (map_of m))"
proof (intro conjI, goal_cases)
  case 1 show ?case by (intro impI dockerfile_found_unique [OF assms])
next
  case 2 show ?case by (rule dockerfile_none_iff [OF assms])
next
  case 3 show ?case by (intro impI, elim conjE) (rule dockerfile_found_one [OF assms])
next
  case 4 show ?case by (intro impI, elim conjE) (rule dockerfile_several(1) [OF assms])
next
  case 5 show ?case by (intro impI dockerfile_several(2) [OF assms])
next
  case 6 show ?case by (intro impI dockerfile_panic [OF assms])
qed

text \<open>A graph with a shared dependency: build, then deploy to dev and staging, then to production.\<close>

definition docker_step :: "string \<Rightarrow> string list \<Rightarrow> string \<Rightarrow> docker_build_step" where
  "docker_step n deps path =
     \<lparr>StepName = Some n, StepSource = dockerBuildTestPublishStepSource, DependsOn = Some deps,
      Volumes = None, VolumeMounts = None, DockerfilePath = Some path, DockerContextDir = Some [],
      Artifacts = None\<rparr>"

definition deploy_step :: "string \<Rightarrow> string list \<Rightarrow> argocd_step" where
  "deploy_step n deps =
     \<lparr>StepName = Some n, StepSource = argoCDStepSource, DependsOn = Some deps,
      Volumes = None, VolumeMounts = None, acd_RepoUrl = ''https://github.com/org/manifests.git'',
      acd_RepoPath = n, acd_BaseRef = Some ''main'', acd_PauseReason = None\<rparr>"

definition diamond_steps :: steps_by_name where
  "diamond_steps =
     [(''build'', DockerBuildTestPublishStep (docker_step ''build'' [] ''app/Dockerfile'')),
      (''dev'', ArgoCDStep (deploy_step ''dev'' [''build''])),
      (''staging'', ArgoCDStep (deploy_step ''staging'' [''build''])),
      (''prod'', ArgoCDStep (deploy_step ''prod'' [''dev'', ''staging'']))]"

lemma step_base_sel [simp]:
  "StepName (base_step_fields.truncate b) = StepName b"
  "StepSource (base_step_fields.truncate b) = StepSource b"
  "DependsOn (base_step_fields.truncate b) = DependsOn b"
  by (simp_all add: base_step_fields.truncate_def)

theorem dockerfile_dependency_correct_witness:
  "named_publishers diamond_steps (dependencies diamond_steps ''prod'') = {''build''}
   \<and> dependencies diamond_steps ''prod'' \<subseteq> dom (map_of diamond_steps)"
proof -
  have given: "paths_set diamond_steps"
    by (auto simp: paths_set_def diamond_steps_def docker_step_def split: if_splits)
  have prod: "map_of diamond_steps ''prod''
      = Some (ArgoCDStep (deploy_step ''prod'' [''dev'', ''staging'']))"
    by (simp add: diamond_steps_def)
  have run: "getDockerfilePathDependency ''prod'' diamond_steps = Inr ''app/Dockerfile''"
    by (simp add: getDockerfilePathDependency_def diamond_steps_def deploy_step_def docker_step_def
        GetDependsOn_def)
  from mp [OF conjunct1 [OF dockerfile_dependency_correct [OF given prod]] run]
  obtain d where d: "named_publishers diamond_steps (dependencies diamond_steps ''prod'') = {d}"
      "published_path diamond_steps d = Some ''app/Dockerfile''"
    and closed: "dependencies diamond_steps ''prod'' \<subseteq> dom (map_of diamond_steps)"
    by blast
  from d(2) have "d = ''build''"
    by (auto simp: published_path_def diamond_steps_def split: if_splits)
  with d(1) closed show ?thesis by simp
qed

section \<open>Image directories\<close>

text \<open>A suffix that can follow a repository name: empty, or a path that does not end in a slash.\<close>

definition image_dir :: "string \<Rightarrow> bool" where
  "image_dir d \<longleftrightarrow> d = [] \<or> hd d = CHR ''/'' \<and> last d \<noteq> CHR ''/''"

lemma trimmed_file_no_slash:
  assumes "path_split p = (dir, name)"
  shows "CHR ''/'' \<notin> set (trim_both trim_cutset (remove_all ''dockerfile'' (to_lower name)))"
proof -
  have "CHR ''/'' \<notin> set name" using assms by (rule path_split_laws(2))
  then have "CHR ''/'' \<notin> set (to_lower name)" by (simp only: slash_in_to_lower not_False_eq_True)
  with set_remove_all [of "''dockerfile''"] set_trim_both [of trim_cutset]
  show ?thesis by (meson subsetD)
qed

lemma image_dir_append:
  assumes "f \<noteq> []" and "CHR ''/'' \<notin> set f" and "d \<noteq> []" and "hd d = CHR ''/''"
  shows "image_dir (d @ f)"
proof -
  have "last f \<in> set f" using assms(1) by simp
  with assms have "last f \<noteq> CHR ''/''" by metis
  with assms show ?thesis unfolding image_dir_def by (simp add: hd_append)
qed

lemma hd_trim_right: "trim_right P d \<noteq> [] \<Longrightarrow> hd (trim_right P d) = hd d"
proof -
  have "d = trim_right P d @ rev (takeWhile P (rev d))"
    unfolding trim_right_def by (metis rev_append rev_rev_ident takeWhile_dropWhile_id)
  then show "trim_right P d \<noteq> [] \<Longrightarrow> hd (trim_right P d) = hd d"
    by (metis hd_append2)
qed

lemma image_dir_trimmed:
  assumes "hd d = CHR ''/''"
  shows "image_dir (trim_right (\<lambda>c. c = CHR ''/'') d)"
  using hd_trim_right [of "\<lambda>c. c = CHR ''/''" d] trim_right_last [of "\<lambda>c. c = CHR ''/''" d] assms
  unfolding image_dir_def by metis

text \<open>
  The image directory of any Dockerfile path can be appended to a repository name: it is empty,
  or it starts with a slash and does not end with one.
\<close>

lemma getDockerfileDir_image_dir: "image_dir (getDockerfileDir p)"
proof -
  obtain dir name0 where split: "path_split p = (dir, name0)" by fastforce
  define name where "name = trim_both trim_cutset (remove_all ''dockerfile'' (to_lower name0))"
  define dir' where "dir' = (if has_prefix ''/'' dir then dir else ''/'' @ dir)"
  have f: "CHR ''/'' \<notin> set name" unfolding name_def by (rule trimmed_file_no_slash [OF split])
  have dir': "dir' \<noteq> []" "hd dir' = CHR ''/''"
    unfolding dir'_def by (auto simp: has_prefix_iff)
  have "getDockerfileDir p =
      (if name = [] \<and> dir = [] then [] else if dir = [] then ''/'' @ name
       else if name = [] then trim_right (\<lambda>c. c = CHR ''/'') dir' else dir' @ name)"
    by (simp only: getDockerfileDir_def split prod.case Let_def name_def dir'_def)
  moreover have "image_dir []" by (simp add: image_dir_def)
  moreover have "name \<noteq> [] \<Longrightarrow> image_dir (''/'' @ name)" using f by (intro image_dir_append) auto
  moreover have "name \<noteq> [] \<Longrightarrow> image_dir (dir' @ name)" using f dir' by (intro image_dir_append)
  moreover have "image_dir (trim_right (\<lambda>c. c = CHR ''/'') dir')" using dir'(2) by (rule image_dir_trimmed)
  ultimately show ?thesis by auto
qed

text \<open>
  The default Dockerfile of a context directory gives that directory back: for a flow that sets
  only \<open>dockerContextDir\<close> (a relative path without a trailing slash), the path the defaults fill
  in leads to the image directory \<open>"/" + dockerContextDir\<close>, and to none when no directory is set.
\<close>

lemma image_dir_of_default_path:
  assumes "d = [] \<or> hd d \<noteq> CHR ''/'' \<and> last d \<noteq> CHR ''/''"
  shows "getDockerfileDir (getDefaultDockerfilePath d) = (if d = [] then [] else ''/'' @ d)"
proof -
  have name: "trim_both trim_cutset (remove_all ''dockerfile'' (to_lower ''Dockerfile'')) = []"
    by code_simp
  have plain: "path_split ''Dockerfile'' = ([], ''Dockerfile'')"
    by (rule path_split_plain) simp
  show ?thesis
  proof (cases "d = []")
    case True
    then show ?thesis
      by (simp only: getDefaultDockerfilePath_def defaultDockerfilePath_def getDockerfileDir_def plain
          prod.case Let_def name if_True simp_thms)
  next
    case False
    have "path_split (d @ CHR ''/'' # ''Dockerfile'') = (d @ ''/'', ''Dockerfile'')"
      by (rule path_split_sep) simp
    then have split: "path_split (getDefaultDockerfilePath d) = (d @ ''/'', ''Dockerfile'')"
      using False by (simp add: getDefaultDockerfilePath_def defaultDockerfilePath_def)
    have "\<not> has_prefix ''/'' (d @ ''/'')"
      using False assms by (cases d) (auto simp: has_prefix_iff)
    moreover have "trim_right (\<lambda>c. c = CHR ''/'') ((''/'' @ d) @ ''/'') = trim_right (\<lambda>c. c = CHR ''/'') (''/'' @ d)"
      by (rule trim_right_append_all) simp
    moreover have "trim_right (\<lambda>c. c = CHR ''/'') (''/'' @ d) = ''/'' @ d"
      using False assms by (intro trim_right_keep) simp
    ultimately show ?thesis
      using False by (simp add: getDockerfileDir_def split name)
  qed
qed

theorem image_dir_of_default_path_witness:
  "getDockerfileDir (getDefaultDockerfilePath ''services/api'') = ''/services/api''"
  using image_dir_of_default_path [of "''services/api''"] by simp

text \<open>
  Different Dockerfiles can share an image directory: \<open>api/Dockerfile\<close> and
  \<open>Dockerfile.api\<close> both publish to the repository suffix \<open>/api\<close>, so that two publishing
  steps of one flow overwrite each other's image.
\<close>

lemma image_dir_collision:
  "getDockerfileDir ''api/Dockerfile'' = ''/api'' \<and> getDockerfileDir ''Dockerfile.api'' = ''/api''"
  by code_simp

end
