(* ===== verification/Sensor_Builder.thy ===== *)
theory Sensor_Builder
  imports App_Builder Workflow_Templates Step_Dependencies
begin

text \<open>
  The Sensor of a flow (\<open>internal/controller/sensorbuilder\<close>): its event dependencies, the
  parameters that map a GitHub event to workflow parameters, and the workflow it submits, one task
  for each step. \<open>json.Marshal\<close> of the workflow is the parameter \<open>marshal\<close>.
\<close>

section \<open>Types\<close>

record data_filter =
  df_Path :: string
  df_Type :: string
  df_Value :: "string list"

record event_dependency =
  ed_Name :: string
  ed_EventSourceName :: string
  ed_EventName :: string
  ed_Filters :: "data_filter list"

record trigger_parameter =
  tp_DependencyName :: string
  tp_DataKey :: string
  tp_DataTemplate :: string
  tp_Dest :: string
  tp_Operation :: string

record sensor_trigger =
  st_Name :: string
  st_Resource :: string
  st_Operation :: string
  st_Parameters :: "trigger_parameter list"

record sensor_spec =
  ss_Dependencies :: "event_dependency list"
  ss_Triggers :: "sensor_trigger list"
  ss_ServiceAccountName :: "string option"
  ss_Rest :: json

record lifecycle_hook =
  lh_Arguments :: "parameter list"
  lh_TemplateRef :: "template_ref option"

record workflow =
  wf_Kind :: string
  wf_APIVersion :: string
  wf_GenerateName :: string
  wf_Templates :: "wf_template list"
  wf_Entrypoint :: string
  wf_Arguments :: "parameter list"
  wf_ServiceAccountName :: string
  wf_ActiveDeadlineSeconds :: "int option"
  wf_Hooks :: "(string \<times> lifecycle_hook) list"

section \<open>Event dependencies\<close>

definition string_filter :: "string \<Rightarrow> string list \<Rightarrow> data_filter" where
  "string_filter path vals = \<lparr>df_Path = path, df_Type = ''string'', df_Value = vals\<rparr>"

fun sensor_dependency :: "base_trigger \<Rightarrow> event_dependency res" where
  "sensor_dependency (GitHubPullRequestTrigger t) = Inr
     \<lparr>ed_Name = ''github-event-dep'', ed_EventSourceName = ''github'', ed_EventName = ''ghwebhook'',
      ed_Filters =
        [string_filter ''headers.X-Github-Event'' [''pull_request''],
         string_filter ''body.action'' (items (PullRequestEvents t)),
         string_filter ''body.pull_request.state'' [''open''],
         string_filter ''body.repository.clone_url'' [prt_RepoUrl t]]\<rparr>"
| "sensor_dependency (GitHubPushTrigger t) =
     and_then (deref (pst_BaseRef t)) (\<lambda>baseRef. Inr
     \<lparr>ed_Name = ''github-event-dep'', ed_EventSourceName = ''github'', ed_EventName = ''ghwebhook'',
      ed_Filters =
        [string_filter ''headers.X-Github-Event'' [''push''],
         string_filter ''body.ref'' [''refs/heads/'' @ baseRef],
         string_filter ''body.repository.clone_url'' [pst_RepoUrl t]]\<rparr>)"
| "sensor_dependency (OtherTrigger n) = Inl (Failed (Errorf (''unknown trigger type: '' @ n)))"

definition getSensorDependencies :: "base_trigger list \<Rightarrow> event_dependency list res" where
  "getSensorDependencies flowTriggers = traverse sensor_dependency flowTriggers"

section \<open>Parameters\<close>

definition globalWorkflowParameters :: "parameter list" where
  "globalWorkflowParameters =
     [param ''repo'', param ''revision'', param ''repo-short'', param ''revision-ref'',
      param ''revision-title'', param ''revision-author'']"

definition prWorkflowParameters :: "parameter list" where
  "prWorkflowParameters =
     [param ''base-revision'', param ''base-revision-ref'', param ''revision-number'']"

definition key_param :: "string \<Rightarrow> string \<Rightarrow> trigger_parameter" where
  "key_param key dest =
     \<lparr>tp_DependencyName = ''github-event-dep'', tp_DataKey = key, tp_DataTemplate = [],
      tp_Dest = dest, tp_Operation = []\<rparr>"

definition template_param :: "string \<Rightarrow> string \<Rightarrow> string \<Rightarrow> trigger_parameter" where
  "template_param tmpl dest op =
     \<lparr>tp_DependencyName = ''github-event-dep'', tp_DataKey = [], tp_DataTemplate = tmpl,
      tp_Dest = dest, tp_Operation = op\<rparr>"

definition pr_trigger_parameters :: "trigger_parameter list" where
  "pr_trigger_parameters =
     [key_param ''body.pull_request.head.repo.clone_url'' ''spec.arguments.parameters.0.value'',
      key_param ''body.pull_request.head.sha'' ''spec.arguments.parameters.1.value'',
      key_param ''body.pull_request.head.repo.full_name'' ''spec.arguments.parameters.2.value'',
      key_param ''body.pull_request.head.ref'' ''spec.arguments.parameters.3.value'',
      key_param ''body.pull_request.title'' ''spec.arguments.parameters.4.value'',
      key_param ''body.pull_request.user.login'' ''spec.arguments.parameters.5.value'',
      key_param ''body.pull_request.base.sha'' ''spec.arguments.parameters.6.value'',
      key_param ''body.pull_request.base.ref'' ''spec.arguments.parameters.7.value'',
      key_param ''body.pull_request.number'' ''spec.arguments.parameters.8.value'',
      template_param
        ''{{ .Input.body.pull_request.number }}-{{ .Input.body.pull_request.head.sha | substr 0 7 }}-''
        ''metadata.generateName'' ''append'']"

definition push_trigger_parameters :: "trigger_parameter list" where
  "push_trigger_parameters =
     [key_param ''body.repository.clone_url'' ''spec.arguments.parameters.0.value'',
      key_param ''body.after'' ''spec.arguments.parameters.1.value'',
      key_param ''body.repository.full_name'' ''spec.arguments.parameters.2.value'',
      key_param ''body.ref'' ''spec.arguments.parameters.3.value'',
      template_param
        (''{{ .Input.body.head_commit.message | splitList '' @ [CHR 0x22, CHR 0x5C, CHR ''n'', CHR 0x22]
           @ '' | first | trunc 72 }}'')
        ''spec.arguments.parameters.4.value'' [],
      key_param ''body.pusher.name'' ''spec.arguments.parameters.5.value'',
      template_param ''{{ .Input.body.after | substr 0 7 }}-'' ''metadata.generateName'' ''append'']"

text \<open>One iteration: the workflow and the trigger parameters that a trigger appends.\<close>

fun parameters_of :: "base_trigger \<Rightarrow> (parameter list \<times> trigger_parameter list) res" where
  "parameters_of (GitHubPullRequestTrigger t) = Inr (prWorkflowParameters, pr_trigger_parameters)"
| "parameters_of (GitHubPushTrigger t) = Inr ([], push_trigger_parameters)"
| "parameters_of (OtherTrigger n) = Inl (Failed (Errorf (''unknown trigger type: '' @ n)))"

definition getTriggerParameters ::
  "base_trigger list \<Rightarrow> (parameter list \<times> trigger_parameter list) res" where
  "getTriggerParameters flowTriggers =
     and_then (traverse parameters_of flowTriggers) (\<lambda>ps.
       Inr (globalWorkflowParameters @ concat (map fst ps), concat (map snd ps)))"

section \<open>Tasks\<close>

definition commitTriggerType :: string where
  "commitTriggerType = ''commit''"

definition prTriggerType :: string where
  "prTriggerType = ''PR''"

definition cicd_ref :: "wf_template \<Rightarrow> template_ref option" where
  "cicd_ref t = Some \<lparr>tr_Name = cwt_Name CICDTemplate, tr_Template = tpl_Name t, tr_ClusterScope = True\<rparr>"

definition new_task :: "string \<Rightarrow> parameter list \<Rightarrow> dag_task" where
  "new_task n args =
     \<lparr>dt_Name = n, dt_Arguments = args, dt_TemplateRef = None, dt_Template = [], dt_Depends = [],
      dt_When = []\<rparr>"

definition check_start_task :: "string \<Rightarrow> dag_task" where
  "check_start_task triggerType =
     (new_task ''github-check-start''
        [param_val ''repo-short'' ''{{inputs.parameters.repo-short}}'',
         param_val ''event-type'' triggerType,
         param_val ''revision'' ''{{inputs.parameters.revision}}''])
     \<lparr>dt_TemplateRef := cicd_ref GitHubCheckStartTemplate\<rparr>"

definition mixed_types :: fault where
  "mixed_types = Failed (Errorf (''trigger types cannot be both '' @ prTriggerType @ '' and ''
     @ commitTriggerType))"

text \<open>The loop, with the trigger type seen so far.\<close>

fun initial_tasks :: "string \<Rightarrow> base_trigger list \<Rightarrow> (dag_task list \<times> string) res" where
  "initial_tasks triggerType [] = Inr ([], triggerType)"
| "initial_tasks triggerType (GitHubPullRequestTrigger t # ts) =
     (if triggerType \<noteq> [] \<and> triggerType \<noteq> prTriggerType then Inl mixed_types
      else and_then (initial_tasks prTriggerType ts) (\<lambda>(tasks, final).
        Inr (check_start_task prTriggerType # tasks, final)))"
| "initial_tasks triggerType (GitHubPushTrigger t # ts) =
     (if triggerType \<noteq> [] \<and> triggerType \<noteq> commitTriggerType then Inl mixed_types
      else and_then (initial_tasks commitTriggerType ts) (\<lambda>(tasks, final).
        Inr (check_start_task commitTriggerType # tasks, final)))"
| "initial_tasks triggerType (OtherTrigger n # ts) =
     Inl (Failed (Errorf (''unknown trigger type: '' @ n)))"

definition getInitialDAGTasks :: "base_trigger list \<Rightarrow> (dag_task list \<times> string) res" where
  "getInitialDAGTasks flowTriggers = initial_tasks [] flowTriggers"

text \<open>
  The inline copy of a template for a step with volumes, mounts or artifacts: the first container
  gets the mounts.
\<close>

definition step_artifact :: "nat \<times> docker_build_artifact \<Rightarrow> artifact" where
  "step_artifact ia = (case ia of (i, a) \<Rightarrow>
     \<lparr>af_Name = ''artifact'' @ itoa i, af_Path = ''/artifacts'' @ art_Path a,
      af_S3Key = getArtifactKey (art_Key a),
      af_Optional = (art_Optional a = Some True)\<rparr>)"

definition inline_template :: "wf_template \<Rightarrow> nat \<Rightarrow> docker_build_step \<Rightarrow> wf_template res" where
  "inline_template base i s =
     and_then (deref (tpl_ContainerSet base)) (\<lambda>cs.
       case cs_Containers cs of
         [] \<Rightarrow> Inl Panicked
       | c # rest \<Rightarrow> Inr (base
           \<lparr>tpl_Name := tpl_Name base @ itoa i,
            tpl_Volumes := tpl_Volumes base @ items (Volumes s),
            tpl_ContainerSet := Some (cs\<lparr>cs_Containers :=
              c\<lparr>cn_VolumeMounts := cn_VolumeMounts c @ items (VolumeMounts s)\<rparr> # rest\<rparr>),
            tpl_OutputArtifacts := tpl_OutputArtifacts base
              @ map step_artifact (enumerate 0 (items (Artifacts s)))\<rparr>))"

definition needs_inline :: "docker_build_step \<Rightarrow> bool" where
  "needs_inline s \<longleftrightarrow>
     \<not> (items (Volumes s) = [] \<and> items (VolumeMounts s) = [] \<and> items (Artifacts s) = [])"

definition with_template ::
  "wf_template \<Rightarrow> nat \<Rightarrow> docker_build_step \<Rightarrow> dag_task \<Rightarrow> (dag_task \<times> wf_template list) res" where
  "with_template base i s task =
     (if needs_inline s then
        and_then (inline_template base i s) (\<lambda>t. Inr (task\<lparr>dt_Template := tpl_Name t\<rparr>, [t]))
      else Inr (task\<lparr>dt_TemplateRef := cicd_ref base\<rparr>, []))"

definition docker_build_test_task ::
  "nat \<Rightarrow> docker_build_step \<Rightarrow> (dag_task \<times> wf_template list) res" where
  "docker_build_test_task i s =
     and_then (deref (StepName s)) (\<lambda>name.
     and_then (deref (DockerfilePath s)) (\<lambda>path.
     and_then (deref (DockerContextDir s)) (\<lambda>contextDir.
     with_template DockerBuildTestTemplate i s
       ((new_task name
          [param_val ''repo'' ''{{inputs.parameters.repo}}'',
           param_val ''revision'' ''{{inputs.parameters.revision}}'',
           param_val ''dockerfile-path'' path,
           param_val ''docker-context-dir'' contextDir,
           param_val ''revision-ref'' ''{{inputs.parameters.revision-ref}}'',
           param_val ''base-revision'' ''{{inputs.parameters.base-revision}}'',
           param_val ''base-revision-ref'' ''{{inputs.parameters.base-revision-ref}}'',
           param_val ''num-artifacts'' (itoa (length (items (Artifacts s))))])
        \<lparr>dt_Depends := getDepends (DependsOn s)\<rparr>))))"

definition docker_build_test_publish_task ::
  "nat \<Rightarrow> docker_build_step \<Rightarrow> (dag_task \<times> wf_template list) res" where
  "docker_build_test_publish_task i s =
     and_then (deref (StepName s)) (\<lambda>name.
     and_then (deref (DockerfilePath s)) (\<lambda>path.
     and_then (deref (DockerContextDir s)) (\<lambda>contextDir.
     with_template DockerBuildTestPublishTemplate i s
       ((new_task name
          [param_val ''repo'' ''{{inputs.parameters.repo}}'',
           param_val ''revision'' ''{{inputs.parameters.revision}}'',
           param_val ''revision-ref'' ''{{inputs.parameters.revision-ref}}'',
           param_val ''dockerfile-path'' path,
           param_val ''docker-context-dir'' contextDir,
           param_val ''image-repo'' ''{{inputs.parameters.repo-short}}'',
           param_val ''dockerfile-dir'' (getDockerfileDir path),
           param_val ''num-artifacts'' (itoa (length (items (Artifacts s))))])
        \<lparr>dt_Depends := getDepends (DependsOn s)\<rparr>))))"

definition find_dockerfile :: "string \<Rightarrow> steps_by_name \<Rightarrow> string res" where
  "find_dockerfile name m =
     wrap (''error finding dockerfile dependency for step '' @ name) (getDockerfilePathDependency name m)"

definition argocd_task :: "steps_by_name \<Rightarrow> argocd_step \<Rightarrow> dag_task res" where
  "argocd_task m s =
     and_then (deref (StepName s)) (\<lambda>name.
     and_then (find_dockerfile name m) (\<lambda>dockerfilePath.
     and_then (wrap (''error parsing argocd step repo url '' @ acd_RepoUrl s)
         (GetRepoOrgName (acd_RepoUrl s))) (\<lambda>(repoOrg, repoName).
     and_then (deref (acd_BaseRef s)) (\<lambda>baseRef.
     and_then (getWhen name m) (\<lambda>cond.
     Inr ((new_task name
          [param_val ''deploy-repo'' (acd_RepoUrl s),
           param_val ''deploy-revision'' baseRef,
           param_val ''resource-path'' (acd_RepoPath s),
           param_val ''image-repo'' ''{{inputs.parameters.repo-short}}'',
           param_val ''build-revision'' ''{{inputs.parameters.revision}}'',
           param_val ''dockerfile-dir'' (getDockerfileDir dockerfilePath),
           param_val ''argocd-app-namespace'' repoOrg,
           param_val ''argocd-app-name'' (GetAppName repoName (acd_RepoPath s))])
        \<lparr>dt_TemplateRef := cicd_ref ArgoCDTemplate, dt_Depends := getDepends (DependsOn s),
         dt_When := cond\<rparr>))))))"

definition create_pr_task :: "steps_by_name \<Rightarrow> github_create_pr_step \<Rightarrow> dag_task res" where
  "create_pr_task m s =
     and_then (deref (StepName s)) (\<lambda>name.
     and_then (find_dockerfile name m) (\<lambda>dockerfilePath.
     and_then (wrap (''error parsing create pr step repo url '' @ cpr_RepoUrl s)
         (GetRepoOrgName (cpr_RepoUrl s))) (\<lambda>(repoOrg, repoName).
     and_then (deref (cpr_BaseRef s)) (\<lambda>baseRef.
     and_then (getWhen name m) (\<lambda>cond.
     Inr ((new_task name
          [param_val ''target-repo'' (cpr_RepoUrl s),
           param_val ''target-repo-short-name'' (repoOrg @ ''/'' @ repoName),
           param_val ''target-branch'' baseRef,
           param_val ''file-paths'' (join '' '' (items (cpr_FilePaths s))),
           param_val ''image-repo'' ''{{inputs.parameters.repo-short}}'',
           param_val ''build-revision'' ''{{inputs.parameters.revision}}'',
           param_val ''dockerfile-dir'' (getDockerfileDir dockerfilePath)])
        \<lparr>dt_TemplateRef := cicd_ref GitHubCreatePrTemplate, dt_Depends := getDepends (DependsOn s),
         dt_When := cond\<rparr>))))))"

text \<open>The type switch of the loop: the task of a step and the templates it adds.\<close>

fun step_task :: "steps_by_name \<Rightarrow> nat \<times> base_step \<Rightarrow> (dag_task \<times> wf_template list) res" where
  "step_task m (i, DockerBuildTestStep s) = docker_build_test_task i s"
| "step_task m (i, DockerBuildTestPublishStep s) = docker_build_test_publish_task i s"
| "step_task m (i, ArgoCDStep s) = and_then (argocd_task m s) (\<lambda>t. Inr (t, []))"
| "step_task m (i, GitHubCreatePrStep s) = and_then (create_pr_task m s) (\<lambda>t. Inr (t, []))"
| "step_task m (i, OtherStep n b) = Inl (Failed (Errorf (''unknown Flow step type: '' @ n)))"

definition getWorkflowTemplateDAGTasks ::
  "base_trigger list \<Rightarrow> base_step list \<Rightarrow> (dag_task list \<times> wf_template list \<times> string) res" where
  "getWorkflowTemplateDAGTasks flowTriggers flowSteps =
     and_then (wrap ''failed to get initial dag tasks'' (getInitialDAGTasks flowTriggers))
       (\<lambda>(initial, triggerType).
     and_then (stepsByName flowSteps) (\<lambda>m.
     and_then (traverse (step_task m) (enumerate 0 flowSteps)) (\<lambda>ts.
     Inr (initial @ map fst ts, concat (map snd ts), triggerType))))"

section \<open>The workflow and the sensor\<close>

definition getFinalDAGTask :: "string \<Rightarrow> lifecycle_hook" where
  "getFinalDAGTask triggerType =
     \<lparr>lh_Arguments =
        [param_val ''repo-short'' ''{{workflow.parameters.repo-short}}'',
         param_val ''event-type'' triggerType,
         param_val ''check-run-id'' ''{{workflow.outputs.parameters.check-run-id}}'',
         param_val ''workflow-status'' ''{{workflow.status}}''],
      lh_TemplateRef = cicd_ref GitHubCheckCompleteTemplate\<rparr>"

text \<open>The workflow value that \<open>getWorkflowTemplate\<close> marshals.\<close>

definition workflow_value ::
  "flow \<Rightarrow> base_trigger list \<Rightarrow> base_step list \<Rightarrow> parameter list \<Rightarrow> workflow res" where
  "workflow_value f flowTriggers flowSteps workflowParameters =
     and_then (getWorkflowTemplateDAGTasks flowTriggers flowSteps)
       (\<lambda>(tasks, additionalTemplates, triggerType). Inr
     \<lparr>wf_Kind = ''Workflow'', wf_APIVersion = ''argoproj.io/v1alpha1'',
      wf_GenerateName = flow_Name f @ ''-'',
      wf_Templates =
        (empty_template ''main'')\<lparr>tpl_Inputs := workflowParameters, tpl_DAG := Some tasks\<rparr>
          # additionalTemplates,
      wf_Entrypoint = ''main'', wf_Arguments = workflowParameters,
      wf_ServiceAccountName = ''deploy-step-executor'',
      wf_ActiveDeadlineSeconds = ActiveDeadlineSeconds f,
      wf_Hooks = [(''exit'', getFinalDAGTask triggerType)]\<rparr>)"

definition getWorkflowTemplate ::
  "(workflow \<Rightarrow> go_error + string) \<Rightarrow> flow \<Rightarrow> base_trigger list \<Rightarrow> base_step list
     \<Rightarrow> parameter list \<Rightarrow> string res" where
  "getWorkflowTemplate marshal f flowTriggers flowSteps workflowParameters =
     and_then (workflow_value f flowTriggers flowSteps workflowParameters) (\<lambda>wf.
       case marshal wf of
         Inl e \<Rightarrow> Inl (Failed (Wrapped ''error marshaling workflow'' e))
       | Inr bytes \<Rightarrow> Inr bytes)"

definition getSensorTriggers ::
  "(workflow \<Rightarrow> go_error + string) \<Rightarrow> flow \<Rightarrow> base_trigger list \<Rightarrow> base_step list
     \<Rightarrow> sensor_trigger list res" where
  "getSensorTriggers marshal f flowTriggers flowSteps =
     and_then (getTriggerParameters flowTriggers) (\<lambda>(workflowParameters, triggerParameters).
     and_then (getWorkflowTemplate marshal f flowTriggers flowSteps workflowParameters)
       (\<lambda>workflowTemplate. Inr
     [\<lparr>st_Name = ''flow-trigger'', st_Resource = workflowTemplate, st_Operation = ''create'',
       st_Parameters = triggerParameters\<rparr>]))"

definition BuildSensor ::
  "(workflow \<Rightarrow> go_error + string) \<Rightarrow> flow \<Rightarrow> base_trigger list \<Rightarrow> base_step list
     \<Rightarrow> sensor_spec object res" where
  "BuildSensor marshal f flowTriggers flowSteps =
     and_then (wrap ''error creating Sensor dependencies'' (getSensorDependencies flowTriggers))
       (\<lambda>sensorDependencies.
     and_then (wrap ''error creating Sensor triggers''
         (getSensorTriggers marshal f flowTriggers flowSteps)) (\<lambda>sensorTriggers.
     Inr (new_object [] [] (flow_Namespace f) (flow_Name f)
       \<lparr>ss_Dependencies = sensorDependencies, ss_Triggers = sensorTriggers,
        ss_ServiceAccountName = Some SensorServiceAccountName, ss_Rest = JNull\<rparr>)))"

end
