(* ===== verification/Sensor_Properties.thy ===== *)
theory Sensor_Properties
  imports Sensor_Builder
begin

text \<open>
  What the workflow of a sensor promises: one task for each trigger and step, every task calls a
  template that exists with exactly the inputs that template requires, and references stay in scope.
\<close>

section \<open>Tasks and their templates\<close>

text \<open>The template that the tasks of a kind of step run.\<close>

fun step_template :: "base_step \<Rightarrow> wf_template" where
  "step_template (DockerBuildTestStep s) = DockerBuildTestTemplate"
| "step_template (DockerBuildTestPublishStep s) = DockerBuildTestPublishTemplate"
| "step_template (ArgoCDStep s) = ArgoCDTemplate"
| "step_template (GitHubCreatePrStep s) = GitHubCreatePrTemplate"
| "step_template (OtherStep n b) = empty_template []"

text \<open>How a task of a workflow finds its template.\<close>

definition find_template :: "string \<Rightarrow> wf_template list \<Rightarrow> wf_template option" where
  "find_template n ts = find (\<lambda>t. tpl_Name t = n) ts"

definition task_template :: "wf_template list \<Rightarrow> template_ref option \<Rightarrow> string \<Rightarrow> wf_template option" where
  "task_template local_templates ref n =
     (case ref of
        Some r \<Rightarrow> if tr_Name r = cwt_Name CICDTemplate \<and> tr_ClusterScope r
                  then find_template (tr_Template r) (cwt_Templates CICDTemplate) else None
      | None \<Rightarrow> find_template n local_templates)"

text \<open>A call passes exactly the inputs that its template requires, in their order.\<close>

definition call_matches :: "wf_template list \<Rightarrow> template_ref option \<Rightarrow> string \<Rightarrow> parameter list \<Rightarrow> bool" where
  "call_matches local_templates ref n args =
     (case task_template local_templates ref n of
        None \<Rightarrow> False
      | Some t \<Rightarrow> map par_Name args = required_inputs t)"

lemma find_template_distinct:
  "distinct (map tpl_Name ts) \<Longrightarrow> t \<in> set ts \<Longrightarrow> find_template (tpl_Name t) ts = Some t"
  by (induction ts) (auto simp: find_template_def image_iff)

lemma cicd_ref_template:
  assumes "base \<in> set (cwt_Templates CICDTemplate)"
  shows "task_template ts (cicd_ref base) n = Some base"
  using assms cicd_names_distinct
  by (simp add: task_template_def cicd_ref_def find_template_distinct)

lemma param_names [simp]: "par_Name (param_val n v) = n" "par_Name (param n) = n"
  by (simp_all add: param_val_def param_def)

lemma new_task_sel [simp]:
  "dt_Name (new_task n args) = n" "dt_Arguments (new_task n args) = args"
  "dt_TemplateRef (new_task n args) = None" "dt_Template (new_task n args) = []"
  "dt_Depends (new_task n args) = []" "dt_When (new_task n args) = []"
  by (simp_all add: new_task_def)

lemma in_cicd_templates [simp]:
  "GitHubCheckStartTemplate \<in> set (cwt_Templates CICDTemplate)"
  "DockerBuildTestTemplate \<in> set (cwt_Templates CICDTemplate)"
  "DockerBuildTestPublishTemplate \<in> set (cwt_Templates CICDTemplate)"
  "ArgoCDTemplate \<in> set (cwt_Templates CICDTemplate)"
  "GitHubCreatePrTemplate \<in> set (cwt_Templates CICDTemplate)"
  "GitHubCheckCompleteTemplate \<in> set (cwt_Templates CICDTemplate)"
  by (simp_all add: CICDTemplate_def)

text \<open>The templates a task adds: none when it refers to the cluster template, else its own.\<close>

definition runs_template :: "wf_template \<Rightarrow> nat \<Rightarrow> dag_task \<Rightarrow> wf_template list \<Rightarrow> bool" where
  "runs_template base i t added \<longleftrightarrow>
     map par_Name (dt_Arguments t) = required_inputs base
     \<and> (added = [] \<and> dt_TemplateRef t = cicd_ref base
        \<or> (\<exists>x. added = [x] \<and> dt_TemplateRef t = None \<and> dt_Template t = tpl_Name x
             \<and> tpl_Name x = tpl_Name base @ itoa i \<and> required_inputs x = required_inputs base
             \<and> tpl_OutputParameters x = tpl_OutputParameters base \<and> tpl_DAG x = tpl_DAG base))"

lemma inline_template_Inr:
  assumes "inline_template base i s = Inr t"
  shows "tpl_Name t = tpl_Name base @ itoa i \<and> tpl_Inputs t = tpl_Inputs base
    \<and> tpl_OutputParameters t = tpl_OutputParameters base \<and> tpl_DAG t = tpl_DAG base"
  using assms by (auto simp: inline_template_def neq_Nil_conv split: list.splits)

lemma with_template_Inr:
  assumes "with_template base i s task = Inr (t, added)"
    and "map par_Name (dt_Arguments task) = required_inputs base" and "dt_TemplateRef task = None"
  shows "runs_template base i t added \<and> dt_Name t = dt_Name task \<and> dt_Depends t = dt_Depends task
    \<and> dt_Arguments t = dt_Arguments task \<and> dt_When t = dt_When task"
  using assms
  by (auto simp: with_template_def runs_template_def required_inputs_def split: if_splits
      dest!: inline_template_Inr)

lemma step_task_Inr:
  assumes "step_task m (i, s) = Inr (t, added)"
  shows "GetStepName s = Inr (dt_Name t) \<and> dt_Depends t = getDepends (GetDependsOn s)
    \<and> runs_template (step_template s) i t added \<and> step_template s \<in> set (cwt_Templates CICDTemplate)"
proof (cases s)
  case (DockerBuildTestStep d)
  then show ?thesis
    using assms
    by (auto simp: docker_build_test_task_def GetStepName_def GetDependsOn_def dest!: with_template_Inr)
next
  case (DockerBuildTestPublishStep d)
  then show ?thesis
    using assms
    by (auto simp: docker_build_test_publish_task_def GetStepName_def GetDependsOn_def
        dest!: with_template_Inr)
next
  case (ArgoCDStep d)
  then show ?thesis
    using assms
    by (auto simp: argocd_task_def GetStepName_def GetDependsOn_def runs_template_def)
next
  case (GitHubCreatePrStep d)
  then show ?thesis
    using assms
    by (auto simp: create_pr_task_def GetStepName_def GetDependsOn_def runs_template_def)
qed (use assms in simp)

section \<open>Names of inline templates\<close>

lemma split_at_last_unlike:
  assumes "\<forall>c \<in> set x. P c" "\<forall>c \<in> set y. P c"
    and "b \<noteq> []" "\<not> P (last b)" "b' \<noteq> []" "\<not> P (last b')" and "b @ x = b' @ y"
  shows "x = y"
proof -
  have "takeWhile P (rev (b @ x)) = rev x"
    if "\<forall>c \<in> set x. P c" "b \<noteq> []" "\<not> P (last b)" for b x
    using that by (cases b rule: rev_cases) (auto simp: takeWhile_append)
  with assms have "rev x = rev y" by metis
  then show ?thesis by simp
qed

definition is_digit :: "char \<Rightarrow> bool" where
  "is_digit c \<longleftrightarrow> c \<in> digit_char ` {..<10}"

lemma itoa_digits: "\<forall>c \<in> set (itoa n). is_digit c"
proof (induction n rule: itoa.induct)
  case (1 n)
  then show ?case by (subst itoa.simps) (auto simp: is_digit_def)
qed

lemma not_digit: "\<not> is_digit (CHR ''t'')" "\<not> is_digit (CHR ''h'')"
proof -
  have "of_char c \<in> {48 ..< 58 :: nat}" if "is_digit c" for c
    using that of_digit_char by (auto simp: is_digit_def)
  from this [of "CHR ''t''"] this [of "CHR ''h''"]
  show "\<not> is_digit (CHR ''t'')" "\<not> is_digit (CHR ''h'')" by fastforce+
qed

definition inline_bases :: "string set" where
  "inline_bases = {''docker-build-test'', ''docker-build-test-publish''}"

lemma inline_base_last: "b \<in> inline_bases \<Longrightarrow> b \<noteq> [] \<and> \<not> is_digit (last b)"
  by (auto simp: inline_bases_def not_digit)

lemma inline_names_inj:
  assumes "b \<in> inline_bases" "b' \<in> inline_bases" "b @ itoa i = b' @ itoa j"
  shows "i = j"
  using split_at_last_unlike [OF itoa_digits itoa_digits _ _ _ _ assms(3)] assms
  by (simp add: inline_base_last)

lemma added_names:
  assumes "step_task m (i, s) = Inr (t, added)"
  shows "added = [] \<or> (\<exists>x b. added = [x] \<and> b \<in> inline_bases \<and> tpl_Name x = b @ itoa i)"
proof (cases s)
  case (DockerBuildTestStep d)
  then show ?thesis
    using step_task_Inr [OF assms] by (auto simp: runs_template_def inline_bases_def)
next
  case (DockerBuildTestPublishStep d)
  then show ?thesis
    using step_task_Inr [OF assms] by (auto simp: runs_template_def inline_bases_def)
qed (use assms in auto)

lemma added_templates_names:
  assumes "traverse (step_task m) (enumerate n ss) = Inr rs"
  shows "distinct (map tpl_Name (concat (map snd rs)))
    \<and> (\<forall>x \<in> set (concat (map snd rs)). \<exists>b \<in> inline_bases. \<exists>i \<ge> n. tpl_Name x = b @ itoa i)"
  using assms
proof (induction ss arbitrary: n rs)
  case (Cons s ss)
  then obtain t added rs' where r: "rs = (t, added) # rs'" and st: "step_task m (n, s) = Inr (t, added)"
    and tr: "traverse (step_task m) (enumerate (Suc n) ss) = Inr rs'"
    by auto
  note IH = Cons.IH [OF tr]
  from IH have later: "\<exists>b \<in> inline_bases. \<exists>i \<ge> Suc n. tpl_Name x = b @ itoa i"
    if "x \<in> set (concat (map snd rs'))" for x using that by blast
  from added_names [OF st] show ?case
  proof
    assume "added = []"
    then have "concat (map snd rs) = concat (map snd rs')" using r by simp
    then show ?thesis using IH later Suc_leD by (metis (no_types, lifting))
  next
    assume "\<exists>x b. added = [x] \<and> b \<in> inline_bases \<and> tpl_Name x = b @ itoa n"
    then obtain x b where x: "added = [x]" "b \<in> inline_bases" "tpl_Name x = b @ itoa n" by blast
    have "tpl_Name x \<notin> tpl_Name ` set (concat (map snd rs'))"
    proof
      assume "tpl_Name x \<in> tpl_Name ` set (concat (map snd rs'))"
      then obtain b' i where "b' \<in> inline_bases" "i \<ge> Suc n" "b @ itoa n = b' @ itoa i"
        using later x(3) by (metis image_iff)
      with x(2) show False using inline_names_inj [of b b' n i] by simp
    qed
    moreover have "\<exists>b \<in> inline_bases. \<exists>i \<ge> n. tpl_Name y = b @ itoa i"
      if "y \<in> set (concat (map snd rs'))" for y using later [OF that] Suc_leD by blast
    ultimately show ?thesis using IH r x by fastforce
  qed
qed simp

section \<open>The workflow\<close>

definition step_name :: "base_step \<Rightarrow> string" where
  "step_name s = the (StepName (step_base s))"

definition main_tasks :: "workflow \<Rightarrow> dag_task list" where
  "main_tasks w =
     (case wf_Templates w of
        [] \<Rightarrow> []
      | t # _ \<Rightarrow> (case tpl_DAG t of None \<Rightarrow> [] | Some tasks \<Rightarrow> tasks))"

text \<open>The type of a trigger, as the check tasks report it.\<close>

fun trigger_type :: "base_trigger \<Rightarrow> string option" where
  "trigger_type (GitHubPullRequestTrigger t) = Some prTriggerType"
| "trigger_type (GitHubPushTrigger t) = Some commitTriggerType"
| "trigger_type (OtherTrigger n) = None"

lemmas trigger_type_defs = prTriggerType_def commitTriggerType_def

lemma initial_tasks_Inr:
  "initial_tasks tt ts = Inr (tasks, final) \<Longrightarrow>
     tasks = replicate (length ts) (check_start_task final) \<and> (tt \<noteq> [] \<or> ts = [] \<longrightarrow> final = tt)
     \<and> (\<forall>t \<in> set ts. trigger_type t = Some final)"
proof (induction tt ts arbitrary: tasks rule: initial_tasks.induct)
  case (2 tt t ts)
  then show ?case by (fastforce simp: trigger_type_defs split: if_splits prod.splits)
next
  case (3 tt t ts)
  then show ?case by (fastforce simp: trigger_type_defs split: if_splits prod.splits)
qed auto

lemma initial_tasks_same:
  assumes "tt = [] \<or> tt = final" and "\<forall>t \<in> set ts. trigger_type t = Some final" and "ts \<noteq> []"
  shows "initial_tasks tt ts = Inr (replicate (length ts) (check_start_task final), final)"
  using assms
proof (induction tt ts rule: initial_tasks.induct)
  case (2 tt t ts)
  then show ?case by (cases ts) auto
next
  case (3 tt t ts)
  then show ?case by (cases ts) auto
qed auto

lemma workflow_value_Inr:
  "workflow_value f ts ss ps = Inr w \<longleftrightarrow>
     (\<exists>initial final m rs. initial_tasks [] ts = Inr (initial, final) \<and> stepsByName ss = Inr m
        \<and> traverse (step_task m) (enumerate 0 ss) = Inr rs
        \<and> w = \<lparr>wf_Kind = ''Workflow'', wf_APIVersion = ''argoproj.io/v1alpha1'',
            wf_GenerateName = flow_Name f @ ''-'',
            wf_Templates =
              (empty_template ''main'')\<lparr>tpl_Inputs := ps, tpl_DAG := Some (initial @ map fst rs)\<rparr>
                # concat (map snd rs),
            wf_Entrypoint = ''main'', wf_Arguments = ps,
            wf_ServiceAccountName = ''deploy-step-executor'',
            wf_ActiveDeadlineSeconds = ActiveDeadlineSeconds f,
            wf_Hooks = [(''exit'', getFinalDAGTask final)]\<rparr>)"
  by (auto simp: workflow_value_def getWorkflowTemplateDAGTasks_def getInitialDAGTasks_def)

lemma workflow_parts:
  assumes "workflow_value f ts ss ps = Inr w"
  obtains final m rs where "traverse (step_task m) (enumerate 0 ss) = Inr rs"
    and "main_tasks w = replicate (length ts) (check_start_task final) @ map fst rs"
    and "stepsByName ss = Inr m" and "\<forall>t \<in> set ts. trigger_type t = Some final"
    and "tl (wf_Templates w) = concat (map snd rs)" and "wf_Hooks w = [(''exit'', getFinalDAGTask final)]"
    and "wf_Templates w = hd (wf_Templates w) # concat (map snd rs)"
    and "tpl_Name (hd (wf_Templates w)) = ''main''" and "tpl_Inputs (hd (wf_Templates w)) = ps"
proof -
  from assms obtain initial final m rs where p: "initial_tasks [] ts = Inr (initial, final)"
      "stepsByName ss = Inr m" "traverse (step_task m) (enumerate 0 ss) = Inr rs"
    and w: "w = \<lparr>wf_Kind = ''Workflow'', wf_APIVersion = ''argoproj.io/v1alpha1'',
            wf_GenerateName = flow_Name f @ ''-'',
            wf_Templates =
              (empty_template ''main'')\<lparr>tpl_Inputs := ps, tpl_DAG := Some (initial @ map fst rs)\<rparr>
                # concat (map snd rs),
            wf_Entrypoint = ''main'', wf_Arguments = ps,
            wf_ServiceAccountName = ''deploy-step-executor'',
            wf_ActiveDeadlineSeconds = ActiveDeadlineSeconds f,
            wf_Hooks = [(''exit'', getFinalDAGTask final)]\<rparr>"
    unfolding workflow_value_Inr by blast
  show thesis
    by (rule that [of m rs final])
       (use p initial_tasks_Inr [OF p(1)] in \<open>simp_all add: w main_tasks_def empty_template_def\<close>)
qed

lemma step_tasks_nth:
  assumes "traverse (step_task m) (enumerate 0 ss) = Inr rs"
  shows "length rs = length ss \<and> (\<forall>i < length ss. step_task m (i, ss ! i) = Inr (rs ! i))"
  using traverse_length [OF assms] traverse_nth [OF assms] by (simp add: nth_enumerate_eq)

lemma workflow_task_list:
  assumes "workflow_value f ts ss ps = Inr w"
  shows "map dt_Name (main_tasks w) = replicate (length ts) ''github-check-start''
      @ map step_name ss
    \<and> map dt_Depends (main_tasks w) = replicate (length ts) [] @ map (\<lambda>s. getDepends (GetDependsOn s)) ss"
proof -
  obtain final m rs where tr: "traverse (step_task m) (enumerate 0 ss) = Inr rs"
    and main: "main_tasks w = replicate (length ts) (check_start_task final) @ map fst rs"
    using workflow_parts [OF assms] .
  have "dt_Name (fst (rs ! i)) = step_name (ss ! i)
      \<and> dt_Depends (fst (rs ! i)) = getDepends (GetDependsOn (ss ! i))" if "i < length ss" for i
  proof -
    from step_tasks_nth [OF tr] that have "step_task m (i, ss ! i) = Inr (fst (rs ! i), snd (rs ! i))"
      by simp
    from step_task_Inr [OF this] show ?thesis by (auto simp: GetStepName_def step_name_def)
  qed
  then have "map (\<lambda>r. dt_Name (fst r)) rs = map step_name ss
    \<and> map (\<lambda>r. dt_Depends (fst r)) rs = map (\<lambda>s. getDepends (GetDependsOn s)) ss"
    by (auto intro!: nth_equalityI simp: step_tasks_nth [OF tr])
  with main show ?thesis by (simp add: check_start_task_def comp_def)
qed

lemma workflow_names:
  "workflow_value f ts ss ps = Inr w \<Longrightarrow>
     map dt_Name (main_tasks w) = replicate (length ts) ''github-check-start'' @ map step_name ss"
  by (simp add: workflow_task_list)

text \<open>
  C34. The workflow of a flow has one check task for each trigger followed by one task for each step
  in order. The check tasks depend on nothing. Each step's task has the step's name, and its
  dependency expression is the conjunction of \<open>d.Succeeded\<close> for the steps \<open>d\<close> it depends on, in
  order, and empty if there is none; if these names contain no blanks, the expression holds (in
  Argo's reading of \<open>&&\<close> and \<open>||\<close>) exactly when all of them have succeeded.
\<close>

theorem workflow_tasks:
  assumes "workflow_value f ts ss ps = Inr w"
  shows "map dt_Name (main_tasks w) = replicate (length ts) ''github-check-start''
      @ map step_name ss
    \<and> map dt_Depends (main_tasks w) = replicate (length ts) []
      @ map (\<lambda>s. join '' && '' (map (\<lambda>d. d @ ''.Succeeded'') (items (GetDependsOn s)))) ss
    \<and> (i < length ss \<and> list_all (\<lambda>d. CHR '' '' \<notin> set d) (items (GetDependsOn (ss ! i))) \<longrightarrow>
       depends_holds succeeded (dt_Depends (main_tasks w ! (length ts + i)))
         = list_all succeeded (items (GetDependsOn (ss ! i))))"
proof -
  let ?e = "\<lambda>s. join '' && '' (map (\<lambda>d. d @ ''.Succeeded'') (items (GetDependsOn s)))"
  have "(\<lambda>s. getDepends (GetDependsOn s)) = ?e" by (rule ext) (simp add: getDepends_def)
  with workflow_task_list [OF assms] have names: "map dt_Name (main_tasks w) =
        replicate (length ts) ''github-check-start'' @ map step_name ss"
    and deps: "map dt_Depends (main_tasks w) = replicate (length ts) [] @ map ?e ss" by simp_all
  have "dt_Depends (main_tasks w ! (length ts + i)) = ?e (ss ! i)" if "i < length ss"
  proof -
    have "length (main_tasks w) = length ts + length ss"
      using arg_cong [OF names, of length] by simp
    with that have "dt_Depends (main_tasks w ! (length ts + i)) = map dt_Depends (main_tasks w) ! (length ts + i)"
      by simp
    also have "\<dots> = ?e (ss ! i)" using that by (simp add: deps nth_append)
    finally show ?thesis .
  qed
  with names deps depends_holds_join show ?thesis by simp
qed

text \<open>
  C9. Every call of the workflow matches its template: the templates that the workflow defines have
  distinct names, and each task, and the exit hook, refers to a template that exists, in the
  cluster template or in the workflow itself, and passes exactly the inputs that template
  requires, in their order.
\<close>

theorem workflow_calls_match:
  assumes "workflow_value f ts ss ps = Inr w"
  shows "distinct (map tpl_Name (wf_Templates w))
    \<and> (\<forall>t \<in> set (main_tasks w).
         call_matches (wf_Templates w) (dt_TemplateRef t) (dt_Template t) (dt_Arguments t))
    \<and> (\<forall>(event, h) \<in> set (wf_Hooks w).
         call_matches (wf_Templates w) (lh_TemplateRef h) [] (lh_Arguments h))"
proof -
  obtain final m rs where tr: "traverse (step_task m) (enumerate 0 ss) = Inr rs"
    and main: "main_tasks w = replicate (length ts) (check_start_task final) @ map fst rs"
    and tpls: "wf_Templates w = hd (wf_Templates w) # concat (map snd rs)"
    and hd: "tpl_Name (hd (wf_Templates w)) = ''main''"
    and hooks: "wf_Hooks w = [(''exit'', getFinalDAGTask final)]"
    using workflow_parts [OF assms] .
  note names = added_templates_names [OF tr]
  have "tpl_Name x \<noteq> ''main''" if "x \<in> set (concat (map snd rs))" for x
  proof -
    from names that obtain b i where "b \<in> inline_bases" "tpl_Name x = b @ itoa i" by blast
    then show ?thesis by (auto simp: inline_bases_def)
  qed
  then have "''main'' \<notin> tpl_Name ` set (concat (map snd rs))" by force
  with names hd have dist: "distinct (map tpl_Name (wf_Templates w))"
    by (subst tpls) simp
  have start: "call_matches (wf_Templates w) (dt_TemplateRef t) (dt_Template t) (dt_Arguments t)"
    if "t = check_start_task final" for t
    using that by (simp add: check_start_task_def call_matches_def cicd_ref_template)
  have step: "call_matches (wf_Templates w) (dt_TemplateRef t) (dt_Template t) (dt_Arguments t)"
    if t: "t \<in> set (map fst rs)" for t
  proof -
    from t obtain added where added: "(t, added) \<in> set rs" by fastforce
    from traverse_in_set [OF tr added] obtain i s where "step_task m (i, s) = Inr (t, added)" by auto
    from step_task_Inr [OF this] have run: "runs_template (step_template s) i t added"
      and base: "step_template s \<in> set (cwt_Templates CICDTemplate)" by blast+
    from run show ?thesis unfolding runs_template_def
    proof (elim conjE disjE exE)
      assume "dt_TemplateRef t = cicd_ref (step_template s)"
        and "map par_Name (dt_Arguments t) = required_inputs (step_template s)"
      with base show ?thesis by (simp add: call_matches_def cicd_ref_template)
    next
      fix x assume x: "added = [x]" "dt_TemplateRef t = None" "dt_Template t = tpl_Name x"
        "map par_Name (dt_Arguments t) = required_inputs (step_template s)"
        "required_inputs x = required_inputs (step_template s)"
      have "x \<in> set (wf_Templates w)" using added x(1) by (subst tpls) force
      with dist x show ?thesis
        by (simp add: call_matches_def task_template_def find_template_distinct)
    qed
  qed
  have "call_matches (wf_Templates w) (lh_TemplateRef (getFinalDAGTask final)) []
      (lh_Arguments (getFinalDAGTask final))"
    by (simp add: getFinalDAGTask_def call_matches_def cicd_ref_template)
  with dist start step main hooks show ?thesis by auto
qed

section \<open>Steps by name\<close>

lemma complete_step_name: "step_complete s \<Longrightarrow> StepName (step_base s) = Some (step_name s)"
  by (cases s) (auto simp: step_name_def)

lemma stepsByName_complete:
  assumes "list_all step_complete ss"
  shows "stepsByName ss = Inr (rev (map (\<lambda>s. (step_name s, s)) ss))"
proof -
  have "traverse named_step ss = Inr (map (\<lambda>s. (step_name s, s)) ss)"
    using assms by (induction ss) (auto simp: named_step_def GetStepName_def complete_step_name)
  then show ?thesis by (simp add: stepsByName_def)
qed

definition named_steps :: "base_step list \<Rightarrow> steps_by_name" where
  "named_steps ss = rev (map (\<lambda>s. (step_name s, s)) ss)"

lemma named_steps_dom: "dom (map_of (named_steps ss)) = step_name ` set ss"
  by (auto simp: named_steps_def dom_map_of_conv_image_fst image_image)

lemma named_steps_Some: "map_of (named_steps ss) n = Some s \<Longrightarrow> s \<in> set ss \<and> step_name s = n"
  by (auto simp: named_steps_def dest!: map_of_SomeD)

lemma named_steps_ex: "s \<in> set ss \<Longrightarrow> \<exists>s'. map_of (named_steps ss) (step_name s) = Some s'"
  using named_steps_dom [of ss] by blast

lemma named_steps_distinct:
  assumes "distinct (map step_name ss)" and "s \<in> set ss"
  shows "map_of (named_steps ss) (step_name s) = Some s"
  using assms
  by (auto simp: named_steps_def map_of_eq_Some_iff rev_map [symmetric] comp_def image_iff)

section \<open>Conditions follow outputs\<close>

text \<open>Whether the template of a step has the status as an output, and whether a step deploys.\<close>

definition reports_status :: "base_step \<Rightarrow> bool" where
  "reports_status s \<longleftrightarrow>
     ''jettison-deploy-step-status'' \<in> par_Name ` set (tpl_OutputParameters (step_template s))"

fun deploys :: "base_step \<Rightarrow> bool" where
  "deploys (ArgoCDStep s) = True"
| "deploys (GitHubCreatePrStep s) = True"
| "deploys _ = False"

definition conditional :: "base_step list \<Rightarrow> string \<Rightarrow> bool" where
  "conditional ss d \<longleftrightarrow> (case map_of (named_steps ss) d of None \<Rightarrow> False | Some s \<Rightarrow> reports_status s)"

text \<open>The last step of a name, which is the one that a lookup by name finds.\<close>

definition last_named :: "base_step list \<Rightarrow> string \<Rightarrow> base_step option" where
  "last_named ss n = List.find (\<lambda>s. step_name s = n) (rev ss)"

lemma last_named_map: "last_named ss n = map_of (named_steps ss) n"
proof -
  have "map_of (map (\<lambda>s. (step_name s, s)) us) n = List.find (\<lambda>s. step_name s = n) us" for us
    by (induction us) auto
  then show ?thesis by (simp add: last_named_def named_steps_def rev_map)
qed

lemma conditional_last: "conditional ss = (\<lambda>d. \<exists>u. last_named ss d = Some u \<and> reports_status u)"
  by (rule ext) (simp add: conditional_def last_named_map split: option.split)

lemma conditional_distinct:
  assumes "distinct (map step_name ss)"
  shows "conditional ss = (\<lambda>d. \<exists>s \<in> set ss. step_name s = d \<and> reports_status s)"
proof
  fix d
  show "conditional ss d = (\<exists>s \<in> set ss. step_name s = d \<and> reports_status s)"
    using named_steps_distinct [OF assms] named_steps_Some [of ss d]
    by (fastforce simp: conditional_def split: option.splits)
qed

lemma reports_status_simps [simp]:
  "reports_status (DockerBuildTestStep d)" "reports_status (DockerBuildTestPublishStep d)"
  "reports_status (ArgoCDStep a)" "\<not> reports_status (GitHubCreatePrStep c)"
  "\<not> reports_status (OtherStep n b)"
  by (simp_all add: reports_status_def template_defs)

lemma when_dep_complete:
  assumes "list_all step_complete ss"
  shows "when_dep (map_of (named_steps ss) d) = Inr (if conditional ss d then [status_condition d] else [])"
proof (cases "map_of (named_steps ss) d")
  case (Some s)
  then have "step_complete s" "step_name s = d"
    using assms named_steps_Some by (auto simp: list_all_iff)
  with Some show ?thesis
    by (cases s) (auto simp: conditional_def step_name_def)
qed (simp add: conditional_def)

lemma getWhen_complete:
  assumes "list_all step_complete ss" and "map_of (named_steps ss) n = Some s"
  shows "getWhen n (named_steps ss)
    = Inr (join '' && '' (map status_condition (filter (conditional ss) (items (GetDependsOn s)))))"
proof -
  have "traverse (\<lambda>d. when_dep (map_of (named_steps ss) d)) ds
      = Inr (map (\<lambda>d. if conditional ss d then [status_condition d] else []) ds)" for ds
    by (induction ds) (simp_all add: when_dep_complete [OF assms(1)])
  moreover have "concat (map (\<lambda>d. if conditional ss d then [status_condition d] else []) ds)
      = map status_condition (filter (conditional ss) ds)" for ds
    by (induction ds) simp_all
  ultimately show ?thesis using assms(2) by (simp add: getWhen_def)
qed

lemma step_task_when:
  assumes "step_task m (i, s) = Inr (t, added)"
  shows "if deploys s then getWhen (step_name s) m = Inr (dt_When t) else dt_When t = []"
proof (cases s)
  case (DockerBuildTestStep d)
  then show ?thesis
    using assms by (auto simp: docker_build_test_task_def dest!: with_template_Inr)
next
  case (DockerBuildTestPublishStep d)
  then show ?thesis
    using assms by (auto simp: docker_build_test_publish_task_def dest!: with_template_Inr)
next
  case (ArgoCDStep d)
  then show ?thesis using assms by (auto simp: argocd_task_def step_name_def)
next
  case (GitHubCreatePrStep d)
  then show ?thesis using assms by (auto simp: create_pr_task_def step_name_def)
qed (use assms in simp)

text \<open>
  C33. The condition of each step's task, for a flow whose steps are preprocessed. Build tasks have
  none. Step names need not be distinct, and the builder looks steps up by name, where the last step
  of a name wins: the condition of a deployment task is the conjunction of the status conditions of
  those direct dependencies of the last step with its name, in order, for which the template of the
  last step with the dependency's name has the \<open>jettison-deploy-step-status\<close> output that the
  condition reads. If the step names are distinct these are exactly the task's own direct
  dependencies whose template has that output.
\<close>

theorem workflow_conditions:
  assumes "workflow_value f ts ss ps = Inr w" and "list_all step_complete ss" and "i < length ss"
  shows "(\<not> deploys (ss ! i) \<longrightarrow> dt_When (main_tasks w ! (length ts + i)) = [])
    \<and> (deploys (ss ! i) \<longrightarrow> (\<exists>s. last_named ss (step_name (ss ! i)) = Some s
         \<and> dt_When (main_tasks w ! (length ts + i)) = join '' && '' (map status_condition
             (filter (\<lambda>d. \<exists>u. last_named ss d = Some u \<and> reports_status u) (items (GetDependsOn s))))))
    \<and> (distinct (map step_name ss) \<longrightarrow>
       dt_When (main_tasks w ! (length ts + i)) =
      (if deploys (ss ! i)
       then join '' && '' (map status_condition
         (filter (\<lambda>d. \<exists>s \<in> set ss. step_name s = d \<and> reports_status s) (items (GetDependsOn (ss ! i)))))
       else []))"
proof -
  obtain final m rs where tr: "traverse (step_task m) (enumerate 0 ss) = Inr rs"
    and main: "main_tasks w = replicate (length ts) (check_start_task final) @ map fst rs"
    and m: "stepsByName ss = Inr m"
    using workflow_parts [OF assms(1)] .
  from m have m: "m = named_steps ss"
    using stepsByName_complete [OF assms(2)] by (simp add: named_steps_def)
  have "step_task m (i, ss ! i) = Inr (fst (rs ! i), snd (rs ! i))"
    using step_tasks_nth [OF tr] assms(3) by simp
  from step_task_when [OF this] have w: "if deploys (ss ! i)
      then getWhen (step_name (ss ! i)) (named_steps ss) = Inr (dt_When (fst (rs ! i)))
      else dt_When (fst (rs ! i)) = []" by (simp only: m)
  obtain s where s: "map_of (named_steps ss) (step_name (ss ! i)) = Some s"
    using named_steps_ex [of "ss ! i" ss] assms(3) by auto
  from getWhen_complete [OF assms(2) s] w
  have "dt_When (fst (rs ! i)) = (if deploys (ss ! i)
     then join '' && '' (map status_condition (filter (conditional ss) (items (GetDependsOn s))))
     else [])" by (simp split: if_splits)
  moreover have main: "main_tasks w ! (length ts + i) = fst (rs ! i)"
    using step_tasks_nth [OF tr] assms(3) by (simp add: main nth_append)
  ultimately have cond: "dt_When (main_tasks w ! (length ts + i)) = (if deploys (ss ! i)
     then join '' && '' (map status_condition (filter (conditional ss) (items (GetDependsOn s))))
     else [])" by (simp only: main)
  have "s = ss ! i \<and> conditional ss = (\<lambda>d. \<exists>s \<in> set ss. step_name s = d \<and> reports_status s)"
    if "distinct (map step_name ss)"
    using that assms(3) s conditional_distinct [OF that] by (simp add: named_steps_distinct)
  moreover have "last_named ss (step_name (ss ! i)) = Some s" by (simp only: last_named_map s)
  ultimately show ?thesis
    by (simp add: cond conditional_last)
qed

section \<open>Which flows have a workflow\<close>

text \<open>Every dependency is the name of a step.\<close>

definition closed_steps :: "base_step list \<Rightarrow> bool" where
  "closed_steps ss \<longleftrightarrow> (\<forall>s \<in> set ss. set (items (GetDependsOn s)) \<subseteq> step_name ` set ss)"

text \<open>A publishing step names a Dockerfile.\<close>

definition publishing_steps_named :: "base_step list \<Rightarrow> bool" where
  "publishing_steps_named ss \<longleftrightarrow>
     (\<forall>s. DockerBuildTestPublishStep s \<in> set ss \<longrightarrow> DockerfilePath s \<noteq> Some [])"

fun deployment_url :: "base_step \<Rightarrow> string" where
  "deployment_url (ArgoCDStep s) = acd_RepoUrl s"
| "deployment_url (GitHubCreatePrStep s) = cpr_RepoUrl s"
| "deployment_url _ = []"

definition deployable :: "base_step list \<Rightarrow> base_step \<Rightarrow> bool" where
  "deployable ss s \<longleftrightarrow>
     (\<exists>d. named_publishers (named_steps ss) (dependencies (named_steps ss) (step_name s)) = {d})
     \<and> (\<exists>r. GetRepoOrgName (deployment_url s) = Inr r)"

lemma closed_dependencies:
  assumes "closed_steps ss"
  shows "dependencies (named_steps ss) n \<subseteq> dom (map_of (named_steps ss))"
proof (rule dependencies_least)
  show "\<forall>a \<in> insert n (dom (map_of (named_steps ss))).
      depends_directly (named_steps ss) a \<subseteq> dom (map_of (named_steps ss))"
    unfolding named_steps_dom
    using assms by (auto simp: depends_directly_def closed_steps_def split: option.splits
        dest!: named_steps_Some)
qed

lemma named_paths_set: "list_all step_complete ss \<Longrightarrow> paths_set (named_steps ss)"
  by (fastforce simp: paths_set_def list_all_iff dest!: named_steps_Some)

lemma named_paths_given:
  assumes "publishing_steps_named ss"
  shows "published_path (named_steps ss) d \<noteq> Some []"
  using assms
  by (auto simp: published_path_def publishing_steps_named_def split: option.splits base_step.splits
      dest!: named_steps_Some)

text \<open>
  A Dockerfile is found only if one publisher is named; and then it is found unless some publisher
  has an empty path.
\<close>

lemma find_dockerfile_exact:
  assumes "list_all step_complete ss" and "closed_steps ss" and "s \<in> set ss"
  shows "find_dockerfile (step_name s) (named_steps ss) = Inr p \<Longrightarrow>
       \<exists>d. named_publishers (named_steps ss) (dependencies (named_steps ss) (step_name s)) = {d}"
    and "publishing_steps_named ss \<Longrightarrow>
       \<exists>d. named_publishers (named_steps ss) (dependencies (named_steps ss) (step_name s)) = {d} \<Longrightarrow>
       \<exists>p. find_dockerfile (step_name s) (named_steps ss) = Inr p"
    and "find_dockerfile (step_name s) (named_steps ss) \<noteq> Inl Panicked"
proof -
  let ?m = "named_steps ss" and ?D = "dependencies (named_steps ss) (step_name s)"
  obtain s' where s': "map_of ?m (step_name s) = Some s'"
    using named_steps_ex [OF assms(3)] by blast
  note at = named_paths_set [OF assms(1)] s'
  have closed: "?D \<subseteq> dom (map_of ?m)" by (rule closed_dependencies [OF assms(2)])
  show "find_dockerfile (step_name s) ?m \<noteq> Inl Panicked"
    using dockerfile_panic [OF at] closed by (auto simp: find_dockerfile_def)
  show "\<exists>d. named_publishers ?m ?D = {d}" if "find_dockerfile (step_name s) ?m = Inr p"
    using that dockerfile_found_unique [OF at] by (auto simp: find_dockerfile_def)
  show "\<exists>p. find_dockerfile (step_name s) ?m = Inr p"
    if given: "publishing_steps_named ss" and one: "\<exists>d. named_publishers ?m ?D = {d}"
  proof -
    from one obtain d where d: "named_publishers ?m ?D = {d}" ..
    then have "d \<in> named_publishers ?m ?D" by simp
    then obtain p where p: "published_path ?m d = Some p" by (auto simp: named_publishers_def)
    from dockerfile_found_one [OF at closed d p] named_paths_given [OF given]
    have "getDockerfilePathDependency (step_name s) ?m = Inr p" by blast
    then show ?thesis by (simp add: find_dockerfile_def)
  qed
qed

lemma argocd_task_Inr:
  assumes "list_all step_complete ss" and "closed_steps ss" and "ArgoCDStep a \<in> set ss"
  shows "argocd_task (named_steps ss) a = Inr t \<Longrightarrow> deployable ss (ArgoCDStep a)"
    and "publishing_steps_named ss \<Longrightarrow> deployable ss (ArgoCDStep a) \<Longrightarrow>
       \<exists>t. argocd_task (named_steps ss) a = Inr t"
    and "argocd_task (named_steps ss) a \<noteq> Inl Panicked"
proof -
  have c: "step_complete (ArgoCDStep a)" using assms(1,3) by (auto simp: list_all_iff)
  then obtain n b where n: "StepName a = Some n" "acd_BaseRef a = Some b" by auto
  then have sn: "step_name (ArgoCDStep a) = n" by (simp add: step_name_def)
  obtain s' where "map_of (named_steps ss) n = Some s'"
    using named_steps_ex [OF assms(3)] sn by auto
  from getWhen_complete [OF assms(1) this] obtain cond where w: "getWhen n (named_steps ss) = Inr cond"
    by blast
  note fd = find_dockerfile_exact [OF assms(1-3), unfolded sn]
  show "deployable ss (ArgoCDStep a)" if "argocd_task (named_steps ss) a = Inr t"
    using fd(1) that by (auto simp: argocd_task_def n w deployable_def sn)
  show "\<exists>t. argocd_task (named_steps ss) a = Inr t"
    if "publishing_steps_named ss" and "deployable ss (ArgoCDStep a)"
    using fd(2) that by (auto simp: argocd_task_def n w deployable_def sn)
  show "argocd_task (named_steps ss) a \<noteq> Inl Panicked"
    using fd(3) GetRepoOrgName_no_panic by (auto simp: argocd_task_def n w and_then_Inl_iff)
qed

lemma create_pr_task_Inr:
  assumes "list_all step_complete ss" and "closed_steps ss" and "GitHubCreatePrStep a \<in> set ss"
  shows "create_pr_task (named_steps ss) a = Inr t \<Longrightarrow> deployable ss (GitHubCreatePrStep a)"
    and "publishing_steps_named ss \<Longrightarrow> deployable ss (GitHubCreatePrStep a) \<Longrightarrow>
       \<exists>t. create_pr_task (named_steps ss) a = Inr t"
    and "create_pr_task (named_steps ss) a \<noteq> Inl Panicked"
proof -
  have c: "step_complete (GitHubCreatePrStep a)" using assms(1,3) by (auto simp: list_all_iff)
  then obtain n b where n: "StepName a = Some n" "cpr_BaseRef a = Some b" by auto
  then have sn: "step_name (GitHubCreatePrStep a) = n" by (simp add: step_name_def)
  obtain s' where "map_of (named_steps ss) n = Some s'"
    using named_steps_ex [OF assms(3)] sn by auto
  from getWhen_complete [OF assms(1) this] obtain cond where w: "getWhen n (named_steps ss) = Inr cond"
    by blast
  note fd = find_dockerfile_exact [OF assms(1-3), unfolded sn]
  show "deployable ss (GitHubCreatePrStep a)" if "create_pr_task (named_steps ss) a = Inr t"
    using fd(1) that by (auto simp: create_pr_task_def n w deployable_def sn)
  show "\<exists>t. create_pr_task (named_steps ss) a = Inr t"
    if "publishing_steps_named ss" and "deployable ss (GitHubCreatePrStep a)"
    using fd(2) that by (auto simp: create_pr_task_def n w deployable_def sn)
  show "create_pr_task (named_steps ss) a \<noteq> Inl Panicked"
    using fd(3) GetRepoOrgName_no_panic by (auto simp: create_pr_task_def n w and_then_Inl_iff)
qed

lemma container_templates:
  "tpl_ContainerSet DockerBuildTestTemplate = Some cs \<Longrightarrow> cs_Containers cs \<noteq> []"
  "tpl_ContainerSet DockerBuildTestPublishTemplate = Some cs \<Longrightarrow> cs_Containers cs \<noteq> []"
  "tpl_ContainerSet DockerBuildTestTemplate \<noteq> None"
  "tpl_ContainerSet DockerBuildTestPublishTemplate \<noteq> None"
  by (auto simp: template_defs)

lemma with_template_total:
  assumes "base \<in> {DockerBuildTestTemplate, DockerBuildTestPublishTemplate}"
  shows "\<exists>r. with_template base i s task = Inr r"
proof -
  obtain cs c rest where "tpl_ContainerSet base = Some cs" "cs_Containers cs = c # rest"
    using assms container_templates by (metis (no_types, opaque_lifting) empty_iff insert_iff list.exhaust option.exhaust)
  then show ?thesis by (simp add: with_template_def inline_template_def)
qed

lemma step_task_exact:
  assumes "list_all step_complete ss" and "closed_steps ss" and "s \<in> set ss"
  shows "step_task (named_steps ss) (i, s) = Inr r \<Longrightarrow> deploys s \<Longrightarrow> deployable ss s"
    and "publishing_steps_named ss \<Longrightarrow> deploys s \<longrightarrow> deployable ss s \<Longrightarrow>
       \<exists>r. step_task (named_steps ss) (i, s) = Inr r"
    and "step_task (named_steps ss) (i, s) \<noteq> Inl Panicked"
proof -
  have c: "step_complete s" using assms(1,3) by (auto simp: list_all_iff)
  have "(step_task (named_steps ss) (i, s) = Inr r \<longrightarrow> deploys s \<longrightarrow> deployable ss s)
      \<and> (publishing_steps_named ss \<longrightarrow> (deploys s \<longrightarrow> deployable ss s) \<longrightarrow>
           (\<exists>r. step_task (named_steps ss) (i, s) = Inr r))
      \<and> step_task (named_steps ss) (i, s) \<noteq> Inl Panicked"
  proof (cases s)
    case (DockerBuildTestStep d)
    with c obtain n p q where "StepName d = Some n" "DockerfilePath d = Some p" "DockerContextDir d = Some q"
      by auto
    then have "\<exists>r. docker_build_test_task i d = Inr r"
      using with_template_total [of DockerBuildTestTemplate] by (simp add: docker_build_test_task_def)
    with DockerBuildTestStep show ?thesis by auto
  next
    case (DockerBuildTestPublishStep d)
    with c obtain n p q where "StepName d = Some n" "DockerfilePath d = Some p" "DockerContextDir d = Some q"
      by auto
    then have "\<exists>r. docker_build_test_publish_task i d = Inr r"
      using with_template_total [of DockerBuildTestPublishTemplate]
      by (simp add: docker_build_test_publish_task_def)
    with DockerBuildTestPublishStep show ?thesis by auto
  next
    case (ArgoCDStep a)
    then show ?thesis
      using argocd_task_Inr [OF assms(1,2), of a] assms(3) by (fastforce simp: and_then_Inl_iff)
  next
    case (GitHubCreatePrStep a)
    then show ?thesis
      using create_pr_task_Inr [OF assms(1,2), of a] assms(3) by (fastforce simp: and_then_Inl_iff)
  qed (use c in simp)
  then show "step_task (named_steps ss) (i, s) = Inr r \<Longrightarrow> deploys s \<Longrightarrow> deployable ss s"
    and "publishing_steps_named ss \<Longrightarrow> deploys s \<longrightarrow> deployable ss s \<Longrightarrow>
       \<exists>r. step_task (named_steps ss) (i, s) = Inr r"
    and "step_task (named_steps ss) (i, s) \<noteq> Inl Panicked" by blast+
qed

lemma initial_tasks_iff:
  assumes "ts \<noteq> []"
  shows "(\<exists>r. initial_tasks [] ts = Inr r) \<longleftrightarrow> (\<exists>k. \<forall>t \<in> set ts. trigger_type t = Some k)"
  using initial_tasks_same [of "[]"] initial_tasks_Inr assms by fastforce

lemma initial_tasks_no_panic: "initial_tasks tt ts \<noteq> Inl Panicked"
  by (induction tt ts rule: initial_tasks.induct)
     (auto simp: and_then_Inl_iff mixed_types_def)


section \<open>Trigger parameters\<close>

definition parameter_dest :: "nat \<Rightarrow> string" where
  "parameter_dest i = ''spec.arguments.parameters.'' @ itoa i @ ''.value''"

lemma trigger_parameter_lists:
  "map tp_Dest pr_trigger_parameters
     = map parameter_dest [0..<length (globalWorkflowParameters @ prWorkflowParameters)]
       @ [''metadata.generateName'']"
  "map tp_Dest push_trigger_parameters
     = map parameter_dest [0..<length globalWorkflowParameters] @ [''metadata.generateName'']"
  "distinct (map par_Name (globalWorkflowParameters @ prWorkflowParameters))"
  "distinct (map par_Name globalWorkflowParameters)"
  "list_all (\<lambda>p. tp_DependencyName p = ''github-event-dep'') pr_trigger_parameters"
  "list_all (\<lambda>p. tp_DependencyName p = ''github-event-dep'') push_trigger_parameters"
  by code_simp+

text \<open>The parameters of triggers of one type.\<close>

lemma parameters_uniform:
  assumes "\<forall>t \<in> set ts. trigger_type t = Some k"
  shows "traverse parameters_of ts = Inr (replicate (length ts)
    (if k = prTriggerType then (prWorkflowParameters, pr_trigger_parameters)
     else ([], push_trigger_parameters)))"
  using assms
proof (induction ts)
  case (Cons t ts)
  then show ?case by (cases t) (auto simp: trigger_type_defs)
qed simp

lemma parameter_dest_inj [simp]: "parameter_dest i = parameter_dest j \<longleftrightarrow> i = j"
  by (simp add: parameter_dest_def)

lemma parameter_dest_not_name [simp]:
  "parameter_dest i \<noteq> ''metadata.generateName''" "''metadata.generateName'' \<noteq> parameter_dest i"
  by (simp_all add: parameter_dest_def)

lemma repeated_parameters_clash:
  "xs \<noteq> [] \<Longrightarrow> 2 \<le> n \<Longrightarrow> \<not> distinct (ys @ concat (replicate n xs))"
  by (cases n; cases "n - 1"; cases xs) auto

text \<open>
  C35. How the triggers of a flow, which are all of one type, fill the workflow's parameters. A
  single trigger, or any number of push triggers: the parameters have distinct names, and apart from
  the suffix that it appends to the generated name, each trigger fills the values of parameters
  0, 1, ... up to the last one, each exactly once. Two or more pull-request triggers, which the
  builder accepts: two parameters have the same name, and no trigger fills the last parameter. All
  values are taken from the event dependency of the trigger.
\<close>

theorem trigger_parameters_cover:
  assumes "getTriggerParameters ts = Inr (ps, tps)" and "\<forall>t \<in> set ts. trigger_type t = Some k"
  shows "(length ts = 1 \<or> k \<noteq> prTriggerType \<longrightarrow>
       distinct (map par_Name ps)
       \<and> map tp_Dest tps =
          concat (replicate (length ts) (map parameter_dest [0..<length ps] @ [''metadata.generateName''])))
    \<and> (2 \<le> length ts \<and> k = prTriggerType \<longrightarrow>
       \<not> distinct (map par_Name ps) \<and> parameter_dest (length ps - 1) \<notin> set (map tp_Dest tps))
    \<and> (\<forall>t \<in> set ts. \<forall>d. sensor_dependency t = Inr d \<longrightarrow> (\<forall>p \<in> set tps. tp_DependencyName p = ed_Name d))"
proof -
  define g own tp where "g = length globalWorkflowParameters"
    and "own = (if k = prTriggerType then prWorkflowParameters else [])"
    and "tp = (if k = prTriggerType then pr_trigger_parameters else push_trigger_parameters)"
  let ?n = "length ts"
  have ps: "ps = globalWorkflowParameters @ concat (replicate ?n own)"
    and tps: "tps = concat (replicate ?n tp)"
    using assms(1) parameters_uniform [OF assms(2)]
    by (auto simp: getTriggerParameters_def own_def tp_def split: if_splits)
  have dests: "map tp_Dest tp =
      map parameter_dest [0..<length (globalWorkflowParameters @ own)] @ [''metadata.generateName'']"
    using trigger_parameter_lists(1,2) by (simp add: tp_def own_def)
  have all_dests: "map tp_Dest tps = concat (replicate ?n (map tp_Dest tp))"
    by (simp add: tps map_concat)
  have one: "ps = globalWorkflowParameters @ own" if "?n = 1 \<or> k \<noteq> prTriggerType"
    using that by (auto simp: ps own_def)
  have names: "distinct (map par_Name (globalWorkflowParameters @ own))"
    using trigger_parameter_lists(3,4) by (simp add: own_def)
  have "own \<noteq> []" if "k = prTriggerType"
    using that by (simp add: own_def prWorkflowParameters_def)
  then have clash: "\<not> distinct (map par_Name ps) \<and> length (globalWorkflowParameters @ own) < length ps"
    if "2 \<le> ?n" "k = prTriggerType"
    using that repeated_parameters_clash [of "map par_Name own" ?n "map par_Name globalWorkflowParameters"]
    by (simp add: ps map_concat length_concat sum_list_replicate)
  have unfilled: "parameter_dest (length ps - 1) \<notin> set (map tp_Dest tps)"
    if "2 \<le> ?n" "k = prTriggerType"
    using clash [OF that] by (auto simp: all_dests dests)
  have deps: "tp_DependencyName p = ed_Name d" if "sensor_dependency t = Inr d" "p \<in> set tps" for t d p
  proof -
    have "tp_DependencyName p = ''github-event-dep''"
      using that(2) trigger_parameter_lists(5,6)
      by (auto simp: tps tp_def list_all_iff split: if_splits)
    moreover have "ed_Name d = ''github-event-dep''" using that(1) by (cases t) auto
    ultimately show ?thesis by simp
  qed
  show ?thesis
    using one names dests clash unfilled deps by (auto simp: all_dests simp del: map_append length_append)
qed

text \<open>
  Two triggers of one flow clash: whenever a flow with several triggers has a workflow, two of
  its tasks and two of the sensor's event dependencies have the same name.
\<close>

lemma multiple_triggers_clash:
  assumes "workflow_value f ts ss ps = Inr w" and "getSensorDependencies ts = Inr ds"
    and "2 \<le> length ts"
  shows "\<not> distinct (map dt_Name (main_tasks w)) \<and> \<not> distinct (map ed_Name ds)"
proof -
  from assms(3) obtain t1 t2 ts' where ts: "ts = t1 # t2 # ts'"
    by (metis Suc_le_length_iff numeral_2_eq_2)
  have main: "\<not> distinct (map dt_Name (main_tasks w))"
    using workflow_names [OF assms(1)] by (simp add: ts)
  have name: "sensor_dependency t = Inr d \<Longrightarrow> ed_Name d = ''github-event-dep''" for t d
    by (cases t) auto
  from assms(2) ts obtain d1 d2 ds' where "ds = d1 # d2 # ds'"
      "sensor_dependency t1 = Inr d1" "sensor_dependency t2 = Inr d2"
    by (auto simp: getSensorDependencies_def)
  then have "\<not> distinct (map ed_Name ds)" by (simp add: name)
  with main show ?thesis ..
qed

section \<open>References stay in scope\<close>

text \<open>A string without \<open>{\<close> refers to nothing, and the strings that a step's task is made of.\<close>

definition plain :: "string \<Rightarrow> bool" where
  "plain s \<longleftrightarrow> CHR ''{'' \<notin> set s"

fun step_strings :: "base_step \<Rightarrow> string list" where
  "step_strings (DockerBuildTestStep s) = [the (DockerfilePath s), the (DockerContextDir s)]"
| "step_strings (DockerBuildTestPublishStep s) = [the (DockerfilePath s), the (DockerContextDir s)]"
| "step_strings (ArgoCDStep s) = [acd_RepoUrl s, acd_RepoPath s, the (acd_BaseRef s)]"
| "step_strings (GitHubCreatePrStep s) =
     [cpr_RepoUrl s, the (cpr_BaseRef s)] @ items (cpr_FilePaths s)"
| "step_strings (OtherStep n b) = []"

definition plain_steps :: "base_step list \<Rightarrow> bool" where
  "plain_steps ss \<longleftrightarrow> (\<forall>s \<in> set ss. \<forall>x \<in> set (step_strings s). plain x)"

definition argument_refs :: "parameter list \<Rightarrow> string set" where
  "argument_refs args =
     (\<Union>p \<in> set args. case par_Value p of None \<Rightarrow> {} | Some v \<Rightarrow> set (input_refs v))"

lemma plain_no_refs: "plain s \<Longrightarrow> input_refs s = []"
proof (induction s)
  case (Cons c cs)
  then have "c \<noteq> CHR ''{''" "plain cs" by (auto simp: plain_def)
  then have "cut_prefix ''{{inputs.parameters.'' (c # cs) = None" by (simp add: cut_prefix_None_iff)
  with Cons \<open>plain cs\<close> show ?case by simp
qed simp

lemma plain_append [simp]: "plain (a @ b) \<longleftrightarrow> plain a \<and> plain b"
  by (simp add: plain_def)

lemma plain_Nil [simp]: "plain []"
  by (simp add: plain_def)

lemma plain_Cons [simp]: "plain (c # s) \<longleftrightarrow> c \<noteq> CHR ''{'' \<and> plain s"
  by (auto simp: plain_def)

lemma plain_subset: "set a \<subseteq> set b \<Longrightarrow> plain b \<Longrightarrow> plain a"
  by (auto simp: plain_def)

lemma plain_join: "plain sep \<Longrightarrow> (\<And>x. x \<in> set xs \<Longrightarrow> plain x) \<Longrightarrow> plain (join sep xs)"
  by (induction sep xs rule: join.induct) auto

lemma lower_char_brace: "lower_char c = CHR ''{'' \<longleftrightarrow> c = CHR ''{''"
proof (cases "65 \<le> (of_char c :: nat) \<and> (of_char c :: nat) \<le> 90")
  case True
  define n :: nat where "n = of_char c"
  have "(of_char (lower_char c) :: nat) = n + 32"
    using True by (simp add: lower_char_def n_def)
  moreover have "(of_char (CHR ''{'') :: nat) = 123" by simp
  ultimately have "lower_char c \<noteq> CHR ''{''" using True n_def by fastforce
  moreover have "c \<noteq> CHR ''{''" using True by fastforce
  ultimately show ?thesis by blast
qed (auto simp: lower_char_def)

lemma plain_to_lower [simp]: "plain (to_lower s) \<longleftrightarrow> plain s"
proof -
  have "CHR ''{'' \<in> set (to_lower s) \<longleftrightarrow> (\<exists>c \<in> set s. lower_char c = CHR ''{'')"
    unfolding to_lower_def by (metis (no_types, lifting) image_iff list.set_map)
  then show ?thesis by (simp add: lower_char_brace plain_def)
qed

lemma plain_getDockerfileDir:
  assumes "plain p"
  shows "plain (getDockerfileDir p)"
proof -
  obtain dir name0 where split: "path_split p = (dir, name0)" by fastforce
  define name where "name = trim_both trim_cutset (remove_all ''dockerfile'' (to_lower name0))"
  define dir' where "dir' = (if has_prefix ''/'' dir then dir else ''/'' @ dir)"
  have p: "plain dir" "plain name0" using assms path_split_laws(1) [OF split] by simp_all
  have slash: "plain ''/''" by (simp add: plain_def)
  have "set name \<subseteq> set (to_lower name0)"
    unfolding name_def using set_trim_both set_remove_all by (rule subset_trans)
  then have "plain name" using p(2) by (intro plain_subset [of name "to_lower name0"]) simp_all
  moreover have "plain dir'" using p(1) slash unfolding dir'_def by (simp only: plain_append if_split) simp
  moreover have "plain (trim_right (\<lambda>c. c = CHR ''/'') dir')"
    using set_trim_right \<open>plain dir'\<close> by (rule plain_subset)
  moreover have "getDockerfileDir p =
      (if name = [] \<and> dir = [] then [] else if dir = [] then ''/'' @ name
       else if name = [] then trim_right (\<lambda>c. c = CHR ''/'') dir' else dir' @ name)"
    by (simp only: getDockerfileDir_def split prod.case Let_def name_def dir'_def)
  ultimately show ?thesis by (cases "name = []"; cases "dir = []") simp_all
qed

lemma search_path:
  "dockerfile_search m n V p q = Inr p' \<Longrightarrow>
     p' = p \<or> (\<exists>d s. map_of m d = Some (DockerBuildTestPublishStep s) \<and> DockerfilePath s = Some p')"
proof (induction m n V p q rule: dockerfile_search.induct)
  case (2 m n V p d ds)
  show ?case
  proof (cases "d \<in> V")
    case False
    with "2.prems" obtain s p'' where s: "map_of m d = Some s" and f: "found_path n p s = Inr p''"
      and rec: "dockerfile_search m n (insert d V) p'' (ds @ items (GetDependsOn s)) = Inr p'"
      by (auto split: option.splits)
    from "2.IH"(2) [OF False s f rec] f s show ?thesis
      by (cases s) (auto split: if_splits)
  qed (use 2 in simp)
qed simp

lemma plain_find_dockerfile:
  assumes "find_dockerfile n (named_steps ss) = Inr p" and "plain_steps ss"
  shows "plain p"
proof -
  from assms(1) obtain q where "dockerfile_search (named_steps ss) n {} [] q = Inr p" "p \<noteq> []"
    by (auto simp: find_dockerfile_def getDockerfilePathDependency_def split: option.splits if_splits)
  from search_path [OF this(1)] this(2) obtain d s
    where s: "map_of (named_steps ss) d = Some (DockerBuildTestPublishStep s)" "DockerfilePath s = Some p"
    by blast
  then have "DockerBuildTestPublishStep s \<in> set ss" using named_steps_Some by blast
  with assms(2) s(2) show ?thesis by (fastforce simp: plain_steps_def)
qed

lemma plain_repo:
  assumes "GetRepoOrgName u = Inr (repoOrg, repoName)" and "plain u"
  shows "plain repoOrg \<and> plain repoName"
proof -
  have "u = repo_url repoOrg repoName @ gitSuffix \<or> u = repo_url repoOrg repoName"
    using assms(1) by (simp add: GetRepoOrgName_iff) blast
  then show ?thesis using assms(2) by (auto simp: repo_url_def plain_def)
qed

lemma plain_GetAppName:
  assumes "plain repoName" and "plain repoPath"
  shows "plain (GetAppName repoName repoPath)"
proof -
  have "plain (trim_suffix configRepoSuffix repoName)"
    using trim_suffix_cases [of repoName configRepoSuffix] assms(1) by (metis plain_append)
  moreover have "plain (replace_char (CHR ''/'') (CHR ''-'') repoPath)"
    using assms(2) by (auto simp: replace_char_def plain_def)
  ultimately show ?thesis by (simp add: GetAppName_def plain_def)
qed

lemma plain_itoa [simp]: "plain (itoa n)"
proof -
  have "of_char c \<in> {48 ..< 58 :: nat}" if "is_digit c" for c
    using that of_digit_char by (auto simp: is_digit_def)
  then have "c \<noteq> CHR ''{''" if "is_digit c" for c using that by fastforce
  then show ?thesis using itoa_digits [of n] unfolding plain_def by blast
qed

text \<open>The inputs that the task of a step refers to.\<close>

fun step_refs :: "base_step \<Rightarrow> string set" where
  "step_refs (DockerBuildTestStep s) =
     {''repo'', ''revision'', ''revision-ref'', ''base-revision'', ''base-revision-ref''}"
| "step_refs (DockerBuildTestPublishStep s) = {''repo'', ''revision'', ''revision-ref'', ''repo-short''}"
| "step_refs (ArgoCDStep s) = {''repo-short'', ''revision''}"
| "step_refs (GitHubCreatePrStep s) = {''repo-short'', ''revision''}"
| "step_refs (OtherStep n b) = {}"

lemma refs_simps:
  "input_refs ''{{inputs.parameters.repo}}'' = [''repo'']"
  "input_refs ''{{inputs.parameters.repo-short}}'' = [''repo-short'']"
  "input_refs ''{{inputs.parameters.revision}}'' = [''revision'']"
  "input_refs ''{{inputs.parameters.revision-ref}}'' = [''revision-ref'']"
  "input_refs ''{{inputs.parameters.base-revision}}'' = [''base-revision'']"
  "input_refs ''{{inputs.parameters.base-revision-ref}}'' = [''base-revision-ref'']"
  by code_simp+

lemma argument_refs_simps [simp]:
  "argument_refs [] = {}"
  "argument_refs (param_val n v # ps) = set (input_refs v) \<union> argument_refs ps"
  by (simp_all add: argument_refs_def param_val_def)

lemma itoa_no_refs: "input_refs (itoa n) = []"
  by (simp add: plain_no_refs del: itoa.simps)

text \<open>A build task keeps the arguments it was given.\<close>

lemma docker_task_arguments:
  assumes "docker_build_test_task i s = Inr (t, added)"
  shows "\<exists>path dir. DockerfilePath s = Some path \<and> DockerContextDir s = Some dir \<and> dt_Arguments t =
          [param_val ''repo'' ''{{inputs.parameters.repo}}'',
           param_val ''revision'' ''{{inputs.parameters.revision}}'',
           param_val ''dockerfile-path'' path, param_val ''docker-context-dir'' dir,
           param_val ''revision-ref'' ''{{inputs.parameters.revision-ref}}'',
           param_val ''base-revision'' ''{{inputs.parameters.base-revision}}'',
           param_val ''base-revision-ref'' ''{{inputs.parameters.base-revision-ref}}'',
           param_val ''num-artifacts'' (itoa (length (items (Artifacts s))))]"
  using assms by (auto simp: docker_build_test_task_def dest!: with_template_Inr)

lemma docker_publish_task_arguments:
  assumes "docker_build_test_publish_task i s = Inr (t, added)"
  shows "\<exists>path dir. DockerfilePath s = Some path \<and> DockerContextDir s = Some dir \<and> dt_Arguments t =
          [param_val ''repo'' ''{{inputs.parameters.repo}}'',
           param_val ''revision'' ''{{inputs.parameters.revision}}'',
           param_val ''revision-ref'' ''{{inputs.parameters.revision-ref}}'',
           param_val ''dockerfile-path'' path, param_val ''docker-context-dir'' dir,
           param_val ''image-repo'' ''{{inputs.parameters.repo-short}}'',
           param_val ''dockerfile-dir'' (getDockerfileDir path),
           param_val ''num-artifacts'' (itoa (length (items (Artifacts s))))]"
  using assms by (auto simp: docker_build_test_publish_task_def dest!: with_template_Inr)

lemma step_task_refs:
  assumes "step_task (named_steps ss) (i, s) = Inr (t, added)" and "plain_steps ss" and "s \<in> set ss"
  shows "argument_refs (dt_Arguments t) = step_refs s"
proof -
  have strings: "plain x" if "x \<in> set (step_strings s)" for x
    using that assms(2,3) by (auto simp: plain_steps_def)
  show ?thesis
  proof (cases s)
    case (DockerBuildTestStep d)
    with assms(1) have "docker_build_test_task i d = Inr (t, added)" by simp
    from docker_task_arguments [OF this] obtain path dir
      where "DockerfilePath d = Some path" "DockerContextDir d = Some dir"
        and args: "dt_Arguments t =
          [param_val ''repo'' ''{{inputs.parameters.repo}}'',
           param_val ''revision'' ''{{inputs.parameters.revision}}'',
           param_val ''dockerfile-path'' path, param_val ''docker-context-dir'' dir,
           param_val ''revision-ref'' ''{{inputs.parameters.revision-ref}}'',
           param_val ''base-revision'' ''{{inputs.parameters.base-revision}}'',
           param_val ''base-revision-ref'' ''{{inputs.parameters.base-revision-ref}}'',
           param_val ''num-artifacts'' (itoa (length (items (Artifacts d))))]" by blast
    then have "input_refs path = []" "input_refs dir = []"
      using strings DockerBuildTestStep by (simp_all add: plain_no_refs)
    then show ?thesis
      unfolding args DockerBuildTestStep argument_refs_simps refs_simps step_refs.simps itoa_no_refs
        list.set by (simp only: list.set) blast
  next
    case (DockerBuildTestPublishStep d)
    with assms(1) have "docker_build_test_publish_task i d = Inr (t, added)" by simp
    from docker_publish_task_arguments [OF this] obtain path dir
      where "DockerfilePath d = Some path" "DockerContextDir d = Some dir"
        and args: "dt_Arguments t =
          [param_val ''repo'' ''{{inputs.parameters.repo}}'',
           param_val ''revision'' ''{{inputs.parameters.revision}}'',
           param_val ''revision-ref'' ''{{inputs.parameters.revision-ref}}'',
           param_val ''dockerfile-path'' path, param_val ''docker-context-dir'' dir,
           param_val ''image-repo'' ''{{inputs.parameters.repo-short}}'',
           param_val ''dockerfile-dir'' (getDockerfileDir path),
           param_val ''num-artifacts'' (itoa (length (items (Artifacts d))))]" by blast
    then have "input_refs path = []" "input_refs dir = []" "input_refs (getDockerfileDir path) = []"
      using strings DockerBuildTestPublishStep by (simp_all add: plain_no_refs plain_getDockerfileDir)
    then show ?thesis
      unfolding args DockerBuildTestPublishStep argument_refs_simps refs_simps step_refs.simps
        itoa_no_refs list.set by (simp only: list.set) blast
  next
    case (ArgoCDStep a)
    then have p: "plain (acd_RepoUrl a)" "plain (acd_RepoPath a)" "plain (the (acd_BaseRef a))"
      using strings by simp_all
    from ArgoCDStep assms(1) obtain n p' repoOrg repoName b where
        "find_dockerfile n (named_steps ss) = Inr p'"
        "GetRepoOrgName (acd_RepoUrl a) = Inr (repoOrg, repoName)" "acd_BaseRef a = Some b"
      and args: "dt_Arguments t =
          [param_val ''deploy-repo'' (acd_RepoUrl a),
           param_val ''deploy-revision'' b,
           param_val ''resource-path'' (acd_RepoPath a),
           param_val ''image-repo'' ''{{inputs.parameters.repo-short}}'',
           param_val ''build-revision'' ''{{inputs.parameters.revision}}'',
           param_val ''dockerfile-dir'' (getDockerfileDir p'),
           param_val ''argocd-app-namespace'' repoOrg,
           param_val ''argocd-app-name'' (GetAppName repoName (acd_RepoPath a))]"
      by (auto simp: argocd_task_def)
    then have "plain (getDockerfileDir p')" "plain repoOrg" "plain (GetAppName repoName (acd_RepoPath a))"
      "plain b"
      using p plain_find_dockerfile [OF _ assms(2)] plain_repo plain_GetAppName plain_getDockerfileDir
      by auto
    with p have "input_refs (acd_RepoUrl a) = []" "input_refs b = []" "input_refs (acd_RepoPath a) = []"
      "input_refs (getDockerfileDir p') = []" "input_refs repoOrg = []"
      "input_refs (GetAppName repoName (acd_RepoPath a)) = []" by (simp_all add: plain_no_refs)
    then show ?thesis
      unfolding args ArgoCDStep argument_refs_simps refs_simps step_refs.simps list.set
      by (simp only: list.set) blast
  next
    case (GitHubCreatePrStep a)
    then have p: "plain (cpr_RepoUrl a)" "plain (the (cpr_BaseRef a))"
        "plain (join '' '' (items (cpr_FilePaths a)))"
      using strings by (auto intro: plain_join)
    from GitHubCreatePrStep assms(1) obtain n p' repoOrg repoName b where
        "find_dockerfile n (named_steps ss) = Inr p'"
        "GetRepoOrgName (cpr_RepoUrl a) = Inr (repoOrg, repoName)" "cpr_BaseRef a = Some b"
      and args: "dt_Arguments t =
          [param_val ''target-repo'' (cpr_RepoUrl a),
           param_val ''target-repo-short-name'' (repoOrg @ ''/'' @ repoName),
           param_val ''target-branch'' b,
           param_val ''file-paths'' (join '' '' (items (cpr_FilePaths a))),
           param_val ''image-repo'' ''{{inputs.parameters.repo-short}}'',
           param_val ''build-revision'' ''{{inputs.parameters.revision}}'',
           param_val ''dockerfile-dir'' (getDockerfileDir p')]"
      by (auto simp: create_pr_task_def)
    then have "plain (getDockerfileDir p')" "plain (repoOrg @ ''/'' @ repoName)" "plain b"
      using p plain_find_dockerfile [OF _ assms(2)] plain_repo plain_getDockerfileDir
      by auto
    with p have "input_refs (cpr_RepoUrl a) = []" "input_refs b = []"
      "input_refs (join '' '' (items (cpr_FilePaths a))) = []" "input_refs (getDockerfileDir p') = []"
      "input_refs (repoOrg @ ''/'' @ repoName) = []" by (simp_all only: plain_no_refs)
    then show ?thesis
      unfolding args GitHubCreatePrStep argument_refs_simps refs_simps step_refs.simps list.set
      by (simp only: list.set) blast
  qed (use assms in simp)
qed

lemma start_task_refs:
  "final \<in> {prTriggerType, commitTriggerType} \<Longrightarrow>
     argument_refs (dt_Arguments (check_start_task final)) = {''repo-short'', ''revision''}"
proof -
  have t: "input_refs prTriggerType = []" "input_refs commitTriggerType = []"
    by (simp_all add: trigger_type_defs)
  assume "final \<in> {prTriggerType, commitTriggerType}"
  then have "input_refs final = []" using t by auto
  moreover have args: "dt_Arguments (check_start_task final) =
      [param_val ''repo-short'' ''{{inputs.parameters.repo-short}}'', param_val ''event-type'' final,
       param_val ''revision'' ''{{inputs.parameters.revision}}'']"
    by (simp add: check_start_task_def)
  ultimately show ?thesis
    unfolding args argument_refs_simps refs_simps by (simp only: list.set) blast
qed

lemma parameter_names:
  assumes "getTriggerParameters ts = Inr (ps, tps)" and "\<forall>t \<in> set ts. trigger_type t = Some final"
    and "ts \<noteq> []"
  shows "par_Name ` set ps = par_Name ` set globalWorkflowParameters
    \<union> (if final = prTriggerType then par_Name ` set prWorkflowParameters else {})"
proof -
  from assms(1) obtain rs where r: "traverse parameters_of ts = Inr rs"
    and ps: "ps = globalWorkflowParameters @ concat (map fst rs)"
    by (auto simp: getTriggerParameters_def)
  have one: "fst x = (if final = prTriggerType then prWorkflowParameters else [])"
    if "parameters_of t = Inr x" "trigger_type t = Some final" for t x
    using that by (cases t) (auto simp: trigger_type_defs)
  have "\<forall>x \<in> set rs. fst x = (if final = prTriggerType then prWorkflowParameters else [])"
    using traverse_in_set [OF r] assms(2) one by blast
  moreover have "rs \<noteq> []" using traverse_length [OF r] assms(3) by auto
  ultimately have "set (concat (map fst rs)) = (if final = prTriggerType then set prWorkflowParameters else {})"
    by (cases rs) (auto split: if_splits)
  then show ?thesis unfolding ps by (simp add: image_Un split: if_splits)
qed

lemma global_names:
  "par_Name ` set globalWorkflowParameters
     = {''repo'', ''revision'', ''repo-short'', ''revision-ref'', ''revision-title'', ''revision-author''}"
  "par_Name ` set prWorkflowParameters = {''base-revision'', ''base-revision-ref'', ''revision-number''}"
  by (simp_all add: globalWorkflowParameters_def prWorkflowParameters_def)

fun is_build_test :: "base_step \<Rightarrow> bool" where
  "is_build_test (DockerBuildTestStep s) = True"
| "is_build_test _ = False"

lemma step_refs_scope:
  "step_refs s \<subseteq> par_Name ` set globalWorkflowParameters \<union> (if pr then par_Name ` set prWorkflowParameters else {})
     \<longleftrightarrow> pr \<or> \<not> is_build_test s"
  unfolding global_names by (cases s; cases pr) simp_all

definition in_scope :: "workflow \<Rightarrow> parameter list \<Rightarrow> bool" where
  "in_scope w ps \<longleftrightarrow> (\<forall>t \<in> set (main_tasks w). argument_refs (dt_Arguments t) \<subseteq> par_Name ` set ps)"

text \<open>
  C21. The references of a workflow are in scope exactly when its triggers are pull requests or it has
  no \<open>DockerBuildTest\<close> step: for steps whose fields contain no \<open>{\<close>, every
  \<open>{{inputs.parameters.x}}\<close> in a task argument names a parameter of the workflow, except that the
  task of a \<open>DockerBuildTest\<close> step in a push-triggered flow refers to the base revision, which no
  push trigger supplies.
\<close>

theorem workflow_scope_iff:
  assumes "getTriggerParameters ts = Inr (ps, tps)" and "workflow_value f ts ss ps = Inr w"
    and "ts \<noteq> []" and "list_all step_complete ss" and "plain_steps ss"
  shows "in_scope w ps \<longleftrightarrow>
    (\<forall>t \<in> set ts. trigger_type t = Some prTriggerType) \<or> (\<forall>s \<in> set ss. \<not> is_build_test s)"
proof -
  obtain final m rs where tr: "traverse (step_task m) (enumerate 0 ss) = Inr rs"
    and main: "main_tasks w = replicate (length ts) (check_start_task final) @ map fst rs"
    and m: "stepsByName ss = Inr m" and final: "\<forall>t \<in> set ts. trigger_type t = Some final"
    using workflow_parts [OF assms(2)] .
  have mm: "m = named_steps ss"
    using m stepsByName_complete [OF assms(4)] by (simp add: named_steps_def)
  obtain t0 where t0: "t0 \<in> set ts" using assms(3) by (cases ts) auto
  with final have "trigger_type t0 = Some final" by blast
  then have kind: "final \<in> {prTriggerType, commitTriggerType}" by (cases t0) auto
  let ?scope = "par_Name ` set globalWorkflowParameters
    \<union> (if final = prTriggerType then par_Name ` set prWorkflowParameters else {})"
  have scope: "par_Name ` set ps = ?scope" by (rule parameter_names [OF assms(1) final assms(3)])
  have start: "argument_refs (dt_Arguments (check_start_task final)) \<subseteq> ?scope"
    unfolding start_task_refs [OF kind] global_names by blast
  have task: "argument_refs (dt_Arguments (fst (rs ! i))) = step_refs (ss ! i)" if "i < length ss" for i
  proof (rule step_task_refs)
    show "step_task (named_steps ss) (i, ss ! i) = Inr (fst (rs ! i), snd (rs ! i))"
      using step_tasks_nth [OF tr] that mm by simp
  qed (use assms(5) that in auto)
  have "in_scope w ps \<longleftrightarrow> (\<forall>r \<in> set rs. argument_refs (dt_Arguments (fst r)) \<subseteq> ?scope)"
    using start unfolding in_scope_def scope main by (auto simp del: Un_iff)
  also have "\<dots> \<longleftrightarrow> (\<forall>i < length ss. step_refs (ss ! i) \<subseteq> ?scope)"
    using step_tasks_nth [OF tr] task by (simp add: all_set_conv_all_nth)
  also have "\<dots> \<longleftrightarrow> (\<forall>s \<in> set ss. final = prTriggerType \<or> \<not> is_build_test s)"
    unfolding step_refs_scope by (auto simp: all_set_conv_all_nth)
  also have "final = prTriggerType \<longleftrightarrow> (\<forall>t \<in> set ts. trigger_type t = Some prTriggerType)"
    using final t0 by auto
  finally show ?thesis by blast
qed

section \<open>A flow that builds and deploys\<close>

definition sample_deploy :: "base_step list" where
  "sample_deploy =
     [DockerBuildTestPublishStep (docker_step ''build'' [] ''app/Dockerfile''),
      ArgoCDStep (deploy_step ''dev'' [''build''])]"

definition sample_parameters :: "parameter list" where
  "sample_parameters = globalWorkflowParameters @ prWorkflowParameters"

lemma sample_getTriggerParameters:
  "getTriggerParameters sample_triggers = Inr (sample_parameters, pr_trigger_parameters)"
  by (simp add: getTriggerParameters_def sample_triggers_def sample_parameters_def)

definition succeeds :: "'a res \<Rightarrow> bool" where
  "succeeds r = (case r of Inr x \<Rightarrow> True | Inl e \<Rightarrow> False)"

lemma succeeds_iff: "succeeds r \<longleftrightarrow> (\<exists>x. r = Inr x)"
  by (auto simp: succeeds_def split: sum.split)

lemma sample_workflow: "\<exists>w. workflow_value sample_flow sample_triggers sample_deploy sample_parameters = Inr w"
  unfolding succeeds_iff [symmetric] by code_simp

lemma sample_two_triggers:
  "\<exists>w. workflow_value sample_flow (sample_triggers @ sample_triggers) sample_deploy sample_parameters = Inr w"
  unfolding succeeds_iff [symmetric] by code_simp

lemma sample_deploy_ok:
  "list_all step_complete sample_deploy" "distinct (map step_name sample_deploy)"
  "publishing_steps_named sample_deploy" "closed_steps sample_deploy" "plain_steps sample_deploy"
  "sample_triggers \<noteq> []"
  by (auto simp: sample_deploy_def docker_step_def deploy_step_def step_name_def
      publishing_steps_named_def closed_steps_def GetDependsOn_def plain_steps_def plain_def
      sample_triggers_def)

theorem workflow_tasks_witness:
  "\<exists>w. workflow_value sample_flow sample_triggers sample_deploy sample_parameters = Inr w
     \<and> map dt_Name (main_tasks w) = [''github-check-start'', ''build'', ''dev'']
     \<and> map dt_Depends (main_tasks w) = [[], [], ''build.Succeeded'']"
proof -
  obtain w where "workflow_value sample_flow sample_triggers sample_deploy sample_parameters = Inr w"
    using sample_workflow by blast
  with workflow_tasks [OF this] show ?thesis
    by (auto simp: sample_triggers_def sample_deploy_def step_name_def docker_step_def deploy_step_def
        GetDependsOn_def getDepends_def)
qed

theorem workflow_calls_match_witness:
  "\<exists>w. workflow_value sample_flow sample_triggers sample_deploy sample_parameters = Inr w
     \<and> distinct (map tpl_Name (wf_Templates w))"
  using workflow_calls_match sample_workflow by blast

theorem workflow_conditions_witness:
  "\<exists>w. workflow_value sample_flow sample_triggers sample_deploy sample_parameters = Inr w
     \<and> dt_When (main_tasks w ! 2)
       = ''{{tasks.build.outputs.parameters.jettison-deploy-step-status}} != Skipped''"
proof -
  obtain w where w: "workflow_value sample_flow sample_triggers sample_deploy sample_parameters = Inr w"
    using sample_workflow by blast
  have "dt_When (main_tasks w ! (length sample_triggers + 1))
      = ''{{tasks.build.outputs.parameters.jettison-deploy-step-status}} != Skipped''"
    using mp [OF conjunct2 [OF conjunct2 [OF workflow_conditions [OF w sample_deploy_ok(1), of 1]]]
        sample_deploy_ok(2)]
    by (simp add: sample_deploy_def step_name_def docker_step_def deploy_step_def GetDependsOn_def
        status_condition_def)
  with w show ?thesis by (simp add: sample_triggers_def numeral_2_eq_2)
qed


theorem trigger_parameters_cover_witness:
  "map tp_Dest pr_trigger_parameters
     = map parameter_dest [0..<length sample_parameters] @ [''metadata.generateName'']"
proof -
  have one: "length sample_triggers = 1"
    and pr: "\<forall>t \<in> set sample_triggers. trigger_type t = Some prTriggerType"
    by (simp_all add: sample_triggers_def)
  from trigger_parameters_cover [OF sample_getTriggerParameters pr] one show ?thesis by simp
qed

theorem multiple_triggers_clash_witness:
  "\<exists>w. workflow_value sample_flow (sample_triggers @ sample_triggers) sample_deploy sample_parameters = Inr w
     \<and> \<not> distinct (map dt_Name (main_tasks w))"
proof -
  obtain w where w: "workflow_value sample_flow (sample_triggers @ sample_triggers) sample_deploy
      sample_parameters = Inr w"
    using sample_two_triggers by blast
  have "\<exists>ds. getSensorDependencies (sample_triggers @ sample_triggers) = Inr ds"
    by (simp add: getSensorDependencies_def sample_triggers_def)
  then obtain ds where d: "getSensorDependencies (sample_triggers @ sample_triggers) = Inr ds" ..
  from multiple_triggers_clash [OF w d] w show ?thesis by (auto simp: sample_triggers_def)
qed

theorem workflow_scope_iff_witness:
  "\<exists>w. workflow_value sample_flow sample_triggers sample_deploy sample_parameters = Inr w
     \<and> in_scope w sample_parameters"
proof -
  obtain w where w: "workflow_value sample_flow sample_triggers sample_deploy sample_parameters = Inr w"
    using sample_workflow by blast
  from workflow_scope_iff [OF sample_getTriggerParameters w sample_deploy_ok(6,1,5)] w
  show ?thesis by (auto simp: sample_triggers_def)
qed

section \<open>A dependency that is not a step\<close>

text \<open>A flow whose only step deploys after a step \<open>build\<close> that does not exist.\<close>

definition dangling_step :: json where
  "dangling_step = JObj
     [(''stepSource'', JStr ''ArgoCD''), (''stepName'', JStr ''dev''),
      (''dependsOn'', JArr [JStr ''build'']),
      (''repoUrl'', JStr ''https://github.com/org/manifests.git''), (''repoPath'', JStr ''dev'')]"

definition dangling_flow :: flow where
  "dangling_flow = sample_flow\<lparr>Steps := [dangling_step]\<rparr>"

text \<open>
  C38. Validation does not check dependencies, and the sensor builder panics on a dependency that is
  not a step: there is a flow that preprocesses without error and for which \<open>BuildSensor\<close>
  dereferences a nil step, whatever the JSON encoder does.
\<close>

theorem dangling_dependency_panics:
  "\<exists>f ts ss. PreProcessFlow no_volume no_mount dangling_flow = (f, Inr (ts, ss))
     \<and> BuildSensor marshal f ts ss = Inl Panicked"
proof -
  define s where "s = \<lparr>StepName = Some ''dev'', StepSource = ''ArgoCD'', DependsOn = Some [''build''],
    Volumes = None, VolumeMounts = None, acd_RepoUrl = ''https://github.com/org/manifests.git'',
    acd_RepoPath = ''dev'', acd_BaseRef = None, acd_PauseReason = None\<rparr>"
  define s' where "s' = s\<lparr>acd_BaseRef := Some ''main''\<rparr>"
  have "parseTriggers dangling_flow = Inr sample_raw_triggers"
    using sample_parses(1) by (simp add: parseTriggers_def dangling_flow_def)
  moreover have "parseSteps no_volume no_mount dangling_flow = Inr [ArgoCDStep s]"
    by (simp add: parseSteps_def parseStep_def dangling_flow_def dangling_step_def s_def decode_simps
        source_simps)
  moreover have "applyDefaults dangling_flow sample_raw_triggers [ArgoCDStep s]
      = (dangling_flow\<lparr>ActiveDeadlineSeconds := Some 900\<rparr>, Inr (sample_triggers, [ArgoCDStep s']))"
    using sample_defaults
    by (simp add: applyDefaults_Inr dangling_flow_def s_def s'_def apply_base_defaults_def
        defaultBaseRef_def)
  moreover have "validate sample_triggers [ArgoCDStep s'] = Inr ()"
    by (simp add: validate_def sample_triggers_def)
  ultimately have pre: "PreProcessFlow no_volume no_mount dangling_flow
      = (dangling_flow\<lparr>ActiveDeadlineSeconds := Some 900\<rparr>, Inr (sample_triggers, [ArgoCDStep s']))"
    unfolding PreProcessFlow_Inr by blast
  have "getDockerfilePathDependency ''dev'' [(''dev'', ArgoCDStep s')] = Inl Panicked"
    by (simp add: getDockerfilePathDependency_def GetDependsOn_def s_def s'_def)
  then have "BuildSensor marshal f sample_triggers [ArgoCDStep s'] = Inl Panicked" for f
    by (simp add: BuildSensor_def getSensorDependencies_def sample_triggers_def getSensorTriggers_def
        getTriggerParameters_def getWorkflowTemplate_def workflow_value_def
        getWorkflowTemplateDAGTasks_def getInitialDAGTasks_def stepsByName_def named_step_def
        GetStepName_def argocd_task_def find_dockerfile_def s_def s'_def)
  with pre show ?thesis by blast
qed

end
