(* ===== verification/Web_Messages.thy ===== *)
theory Web_Messages
  imports Json
begin

text \<open>
  What the web server sends and receives (\<open>webmessage.go\<close>, \<open>weberror.go\<close>, \<open>webconn.go\<close> and the
  types of \<open>container_log_message_handler.go\<close> in \<open>internal/webserver\<close>): cluster resources, errors,
  container logs, and the messages of a client with their decoding.
\<close>

section \<open>Resources\<close>

text \<open>
  The Go type of an object of an informer, the metadata that the watcher reads or writes, and the
  rest. A nil map is None; reading it gives the empty string.
\<close>

datatype go_type = FlowType | ApplicationType | RolloutType | WorkflowType | PodType | OtherType string

record resource =
  res_Type :: go_type
  APIVersion :: string
  Kind :: string
  Namespace :: string
  Name :: string
  Labels :: "(string \<rightharpoonup> string) option"
  Annotations :: "(string \<rightharpoonup> string) option"
  res_Rest :: json

definition map_entry :: "(string \<rightharpoonup> string) option \<Rightarrow> string \<Rightarrow> string" where
  "map_entry m k = (case m of None \<Rightarrow> [] | Some m' \<Rightarrow> (case m' k of None \<Rightarrow> [] | Some v \<Rightarrow> v))"

definition groupVersion :: string where
  "groupVersion = ''workflows.jettisonproj.io/v1alpha1''"

section \<open>Connections\<close>

text \<open>A pointer to a connection; the context, the channel and the socket of it are state of the watcher.\<close>

record web_conn =
  conn_Id :: nat
  isAuxWs :: bool

section \<open>Messages to a client\<close>

record web_error =
  we_Kind :: string
  we_APIVersion :: string
  we_Namespace :: string
  we_Name :: string
  we_Reason :: string
  we_Message :: string

record container_log =
  cl_Kind :: string
  cl_APIVersion :: string
  cl_Namespace :: string
  cl_Name :: string
  cl_ContainerName :: string
  cl_LogLines :: "string list"

datatype message =
    ResourceList go_type "resource list"
  | WebErrorList "web_error list"
  | ContainerLogList "container_log list"

definition webErrorKind :: string where "webErrorKind = ''WebError''"

definition flowListWebError :: string where "flowListWebError = ''FlowListError''"

definition applicationListWebError :: string where "applicationListWebError = ''ApplicationListError''"

definition rolloutListWebError :: string where "rolloutListWebError = ''RolloutListError''"

definition workflowsListWebError :: string where "workflowsListWebError = ''WorkflowListError''"

definition podListWebError :: string where "podListWebError = ''PodListError''"

definition podLogsWebError :: string where "podLogsWebError = ''PodLogsError''"

definition podGetWebError :: string where "podGetWebError = ''PodGetError''"

definition podNotFoundWebError :: string where "podNotFoundWebError = ''PodNotFound''"

definition applicationSyncWebError :: string where "applicationSyncWebError = ''ApplicationSyncError''"

definition rolloutRetryWebError :: string where "rolloutRetryWebError = ''RolloutRetryError''"

definition newWebError :: "string \<Rightarrow> string \<Rightarrow> string \<Rightarrow> string \<Rightarrow> message" where
  "newWebError ns name reason msg =
     WebErrorList [\<lparr>we_Kind = webErrorKind, we_APIVersion = groupVersion, we_Namespace = ns, we_Name = name,
       we_Reason = reason, we_Message = msg\<rparr>]"

section \<open>Messages of a client\<close>

definition CONTAINER_LOG_MESSAGE_TYPE :: string where
  "CONTAINER_LOG_MESSAGE_TYPE = ''containerLog''"

definition RESOURCE_SUBSCRIPTION_MESSAGE_TYPE :: string where
  "RESOURCE_SUBSCRIPTION_MESSAGE_TYPE = ''resourceSubscription''"

definition SYNC_APPLICATION_MESSAGE_TYPE :: string where
  "SYNC_APPLICATION_MESSAGE_TYPE = ''syncApplication''"

definition RETRY_ROLLOUT_MESSAGE_TYPE :: string where
  "RETRY_ROLLOUT_MESSAGE_TYPE = ''retryRollout''"

record web_message =
  MessageType :: string
  MessageData :: "json option"

record container_log_data =
  cld_Namespace :: string
  cld_PodName :: string
  cld_ContainerName :: string

record resource_subscription =
  SubscriptionType :: string
  sub_Namespace :: string
  sub_Name :: string

record named_data =
  nd_Namespace :: string
  nd_Name :: string

text \<open>A raw message is kept as it is, \<open>null\<close> too; it is nil when the member is missing.\<close>

definition dec_raw :: "json option decoder" where
  "dec_raw j cur = Some (Some j)"

definition web_message_members :: "web_message field list" where
  "web_message_members =
     [field ''messageType'' MessageType MessageType_update dec_string,
      field ''messageData'' MessageData MessageData_update dec_raw]"

definition container_log_members :: "container_log_data field list" where
  "container_log_members =
     [field ''namespace'' cld_Namespace cld_Namespace_update dec_string,
      field ''podName'' cld_PodName cld_PodName_update dec_string,
      field ''containerName'' cld_ContainerName cld_ContainerName_update dec_string]"

definition subscription_members :: "resource_subscription field list" where
  "subscription_members =
     [field ''subscriptionType'' SubscriptionType SubscriptionType_update dec_string,
      field ''namespace'' sub_Namespace sub_Namespace_update dec_string,
      field ''name'' sub_Name sub_Name_update dec_string]"

definition named_members :: "named_data field list" where
  "named_members =
     [field ''namespace'' nd_Namespace nd_Namespace_update dec_string,
      field ''name'' nd_Name nd_Name_update dec_string]"

text \<open>
  The messages of \<open>readConn\<close>, decoded in its two stages; None where a stage panics: the text is not
  JSON, a member has another type, the data is missing, or the message type is unknown.
\<close>

datatype client_message =
    ContainerLogMessage container_log_data
  | ResourceSubscriptionMessage resource_subscription
  | SyncApplicationMessage named_data
  | RetryRolloutMessage named_data

definition decode_data :: "'r field list \<Rightarrow> 'r \<Rightarrow> json option \<Rightarrow> 'r option" where
  "decode_data members zero data = Option.bind data (\<lambda>j. dec_struct members j zero)"

definition decode_client_message :: "json option \<Rightarrow> client_message option" where
  "decode_client_message txt =
     Option.bind (decode_data web_message_members \<lparr>MessageType = [], MessageData = None\<rparr> txt) (\<lambda>m.
       if MessageType m = CONTAINER_LOG_MESSAGE_TYPE then
         map_option ContainerLogMessage (decode_data container_log_members
           \<lparr>cld_Namespace = [], cld_PodName = [], cld_ContainerName = []\<rparr> (MessageData m))
       else if MessageType m = RESOURCE_SUBSCRIPTION_MESSAGE_TYPE then
         map_option ResourceSubscriptionMessage (decode_data subscription_members
           \<lparr>SubscriptionType = [], sub_Namespace = [], sub_Name = []\<rparr> (MessageData m))
       else if MessageType m = SYNC_APPLICATION_MESSAGE_TYPE then
         map_option SyncApplicationMessage (decode_data named_members \<lparr>nd_Namespace = [], nd_Name = []\<rparr> (MessageData m))
       else if MessageType m = RETRY_ROLLOUT_MESSAGE_TYPE then
         map_option RetryRolloutMessage (decode_data named_members \<lparr>nd_Namespace = [], nd_Name = []\<rparr> (MessageData m))
       else None)"

text \<open>What a client sends for a message, and that it is decoded to that message.\<close>

fun encode_client_message :: "client_message \<Rightarrow> json" where
  "encode_client_message (ContainerLogMessage d) =
     JObj [(''messageType'', JStr CONTAINER_LOG_MESSAGE_TYPE),
       (''messageData'', JObj [(''namespace'', JStr (cld_Namespace d)), (''podName'', JStr (cld_PodName d)),
          (''containerName'', JStr (cld_ContainerName d))])]"
| "encode_client_message (ResourceSubscriptionMessage s) =
     JObj [(''messageType'', JStr RESOURCE_SUBSCRIPTION_MESSAGE_TYPE),
       (''messageData'', JObj [(''subscriptionType'', JStr (SubscriptionType s)), (''namespace'', JStr (sub_Namespace s)),
          (''name'', JStr (sub_Name s))])]"
| "encode_client_message (SyncApplicationMessage d) =
     JObj [(''messageType'', JStr SYNC_APPLICATION_MESSAGE_TYPE),
       (''messageData'', JObj [(''namespace'', JStr (nd_Namespace d)), (''name'', JStr (nd_Name d))])]"
| "encode_client_message (RetryRolloutMessage d) =
     JObj [(''messageType'', JStr RETRY_ROLLOUT_MESSAGE_TYPE),
       (''messageData'', JObj [(''namespace'', JStr (nd_Namespace d)), (''name'', JStr (nd_Name d))])]"

lemmas message_type_defs =
  CONTAINER_LOG_MESSAGE_TYPE_def RESOURCE_SUBSCRIPTION_MESSAGE_TYPE_def SYNC_APPLICATION_MESSAGE_TYPE_def
  RETRY_ROLLOUT_MESSAGE_TYPE_def

lemmas member_defs =
  web_message_members_def container_log_members_def subscription_members_def named_members_def

lemma decode_encode: "decode_client_message (Some (encode_client_message m)) = Some m"
  by (cases m)
     (simp_all add: decode_client_message_def decode_data_def member_defs message_type_defs dec_struct_def
      find_field_def field_def dec_string_def dec_raw_def)

end
