(* ===== verification/Goroutines.thy ===== *)
theory Goroutines
  imports Web_Messages
begin

text \<open>
  The goroutines of the web server as programs: trees of the operations on channels, contexts, wait
  groups, shared maps and libraries that \<open>flow_watcher.go\<close> and the message handlers perform, each
  with its continuation. A continuation is a function of what the operation returns.
\<close>

section \<open>Shared state\<close>

text \<open>
  \<open>conns\<close> and \<open>connSubscriptions\<close> are the maps of \<open>FlowWatcher\<close>, whose values are always true;
  \<open>cancelled\<close> and \<open>closed\<close> hold the connections whose context is cancelled and whose write channel
  is closed.
\<close>

record shared =
  conns :: "web_conn set"
  connSubscriptions :: "resource_subscription \<rightharpoonup> web_conn set"
  cancelled :: "web_conn set"
  closed :: "web_conn set"

text \<open>The values sent on the five channels that the run loop receives from.\<close>

datatype request =
    Register web_conn
  | Unregister web_conn
  | Subscribe web_conn resource_subscription
  | NotifyAll message
  | NotifySubscriptions resource

text \<open>
  What a library call is asked for, and what it can return: a list of the objects of a type, or of
  the pods of a namespace whose label \<open>jettison-app\<close> has a value; a pod or its log stream; a read from
  the socket (an error, unexpected or not; a text message, None when it is not JSON; another message);
  an event of the select of \<open>streamLogLines\<close>.
\<close>

datatype query = ListAll go_type | ListPods string string

datatype external =
    CloseStream container_log_data
  | PatchRolloutStatus string string string
  | SyncApplication string string

datatype 'a lookup = Found 'a | NotFound | LookupError go_error

datatype read_result =
    ReadError bool
  | ReadText "json option"
  | ReadOther

datatype log_event =
    Debounced
  | LogLine string
  | LogEnd "go_error option"
  | LogDone

section \<open>Programs\<close>

text \<open>
  \<^item> \<open>Return\<close>: the goroutine ends; \<open>Crash\<close>: a panic, which ends the process.
  \<^item> \<open>AtSelect\<close>: the select of the run loop. \<open>Send q p\<close>: send \<open>q\<close> to it, then \<open>p\<close>.
  \<^item> \<open>CheckCtx c p q\<close>: \<open>p\<close> if the context of \<open>c\<close> is done, else \<open>q\<close>.
  \<^item> \<open>SelectSend c m p\<close>: send \<open>m\<close> on the write channel of \<open>c\<close>, or go on when its context is done.
  \<^item> \<open>Receive c f\<close>: receive from the write channel of \<open>c\<close>; \<open>f None\<close> when it is closed.
  \<^item> \<open>Go p q\<close>: start \<open>p\<close>, then \<open>q\<close>; \<open>Fork ps q\<close>: start all of \<open>ps\<close>, wait for them to end, then \<open>q\<close>,
    which becomes \<open>Join I q\<close> with the goroutines to wait for.
  \<^item> \<open>Update f p\<close>: an assignment; \<open>Look f\<close>: a read; \<open>Range f g\<close>: a loop over a map in some order;
    \<open>Close c p\<close>: close the write channel of \<open>c\<close>.
  \<^item> \<open>List\<close>, \<open>GetPod\<close>, \<open>OpenLogs\<close>, \<open>Call\<close>, \<open>ReadSocket\<close>, \<open>WriteSocket\<close>, \<open>NextLog\<close>: library calls.
  \<^item> \<open>Again l\<close>: go round the loop \<open>l\<close> once more.
\<close>

datatype loop =
    WriteLoop web_conn
  | ReadLoop web_conn
  | LogLoop web_conn container_log_data "string list"

datatype prog =
    Return
  | Crash
  | AtSelect
  | Send request prog
  | CheckCtx web_conn prog prog
  | SelectSend web_conn message prog
  | Receive web_conn "message option \<Rightarrow> prog"
  | Go prog prog
  | Fork "prog list" prog
  | Join "nat set" prog
  | Update "shared \<Rightarrow> shared" prog
  | Look "shared \<Rightarrow> prog"
  | Range "shared \<Rightarrow> web_conn set" "web_conn list \<Rightarrow> prog"
  | Close web_conn prog
  | List query "go_error + resource list \<Rightarrow> prog"
  | GetPod container_log_data "resource lookup \<Rightarrow> prog"
  | OpenLogs container_log_data "unit lookup \<Rightarrow> prog"
  | Call external "go_error option \<Rightarrow> prog"
  | ReadSocket web_conn "read_result \<Rightarrow> prog"
  | WriteSocket web_conn message "go_error option \<Rightarrow> prog"
  | NextLog web_conn "log_event \<Rightarrow> prog"
  | Again loop

end
