(* ===== verification/Flow_Watcher.thy ===== *)
theory Flow_Watcher
  imports Goroutines
begin

text \<open>
  The watcher of \<open>internal/webserver\<close>: the run loop of \<open>flow_watcher.go\<close>, the goroutines of a
  connection (writer, reader, senders of the initial resources), the handlers of client messages
  and the informer callbacks. Each definition is the Go function of its name; \<open>k\<close> is what its
  caller does next. Logging is left out.
\<close>

section \<open>The watcher\<close>

text \<open>The fields of \<open>FlowWatcher\<close> that never change; \<open>gvk\<close> stands for \<open>apiutil.GVKForObject\<close> with the scheme.\<close>

record flow_watcher =
  mysqlWorkflows :: "resource list"
  controllerPodNamespace :: string
  controllerPodName :: string
  gvk :: "go_type \<Rightarrow> go_error + string \<times> string"

section \<open>Sending to a connection\<close>

definition sendConn :: "web_conn \<Rightarrow> message \<Rightarrow> prog \<Rightarrow> prog" where
  "sendConn c m k = CheckCtx c k (SelectSend c m k)"

definition sendWebErrorAndClose ::
    "web_conn \<Rightarrow> go_error \<Rightarrow> string \<Rightarrow> string \<Rightarrow> string \<Rightarrow> string \<Rightarrow> prog \<Rightarrow> prog" where
  "sendWebErrorAndClose c e ns name reason msg k =
     sendConn c (newWebError ns name reason (msg @ '': '' @ error_text e)) (Send (Unregister c) k)"

definition sendWebError :: "web_conn \<Rightarrow> string \<Rightarrow> string \<Rightarrow> string \<Rightarrow> string \<Rightarrow> prog \<Rightarrow> prog" where
  "sendWebError c ns name reason msg k = sendConn c (newWebError ns name reason msg) k"

fun send_each :: "web_conn list \<Rightarrow> message \<Rightarrow> prog \<Rightarrow> prog" where
  "send_each [] m k = k"
| "send_each (c # cs) m k = sendConn c m (send_each cs m k)"

section \<open>Registering a connection\<close>

definition sendInitialFlows :: "flow_watcher \<Rightarrow> web_conn \<Rightarrow> prog" where
  "sendInitialFlows w c = List (ListAll FlowType) (\<lambda>r. case r of
     Inl e \<Rightarrow> sendWebErrorAndClose c e (controllerPodNamespace w) (controllerPodName w) flowListWebError
       ''failed to get flows'' Return
   | Inr flows \<Rightarrow> sendConn c (ResourceList FlowType flows) Return)"

definition sendInitialApplications :: "flow_watcher \<Rightarrow> web_conn \<Rightarrow> prog" where
  "sendInitialApplications w c = List (ListAll ApplicationType) (\<lambda>r. case r of
     Inl e \<Rightarrow> sendWebErrorAndClose c e (controllerPodNamespace w) (controllerPodName w) applicationListWebError
       ''failed to get applications'' Return
   | Inr applications \<Rightarrow> sendConn c (ResourceList ApplicationType applications) Return)"

definition sendInitialRollouts :: "flow_watcher \<Rightarrow> web_conn \<Rightarrow> prog" where
  "sendInitialRollouts w c = List (ListAll RolloutType) (\<lambda>r. case r of
     Inl e \<Rightarrow> sendWebErrorAndClose c e (controllerPodNamespace w) (controllerPodName w) rolloutListWebError
       ''failed to get rollouts'' Return
   | Inr rollouts \<Rightarrow> sendConn c (ResourceList RolloutType rollouts) Return)"

definition sendInitialWorkflows :: "flow_watcher \<Rightarrow> web_conn \<Rightarrow> prog" where
  "sendInitialWorkflows w c = List (ListAll WorkflowType) (\<lambda>r. case r of
     Inl e \<Rightarrow> sendWebErrorAndClose c e (controllerPodNamespace w) (controllerPodName w) workflowsListWebError
       ''failed to get workflows'' Return
   | Inr workflows \<Rightarrow> sendConn c (ResourceList WorkflowType (mysqlWorkflows w @ workflows)) Return)"

text \<open>The goroutines of a connection; each round of their loops is in the section on loops below.\<close>

definition writeConn :: "web_conn \<Rightarrow> prog" where
  "writeConn c = Again (WriteLoop c)"

definition readConn :: "web_conn \<Rightarrow> prog" where
  "readConn c = Again (ReadLoop c)"

definition register_conn :: "web_conn \<Rightarrow> shared \<Rightarrow> shared" where
  "register_conn c s = s\<lparr>conns := insert c (conns s)\<rparr>"

definition registerConn :: "flow_watcher \<Rightarrow> web_conn \<Rightarrow> prog \<Rightarrow> prog" where
  "registerConn w c k = Go (writeConn c)
     (let registered = Update (register_conn c) (Go (readConn c) k) in
      if isAuxWs c then registered
      else Fork [sendInitialFlows w c, sendInitialApplications w c, sendInitialRollouts w c,
                 sendInitialWorkflows w c] registered)"

section \<open>Unregistering a connection\<close>

definition cancel_conn :: "web_conn \<Rightarrow> shared \<Rightarrow> shared" where
  "cancel_conn c s = s\<lparr>cancelled := insert c (cancelled s)\<rparr>"

definition delete_conn :: "web_conn \<Rightarrow> shared \<Rightarrow> shared" where
  "delete_conn c s = s\<lparr>conns := conns s - {c}\<rparr>"

definition unregisterConn :: "web_conn \<Rightarrow> prog \<Rightarrow> prog" where
  "unregisterConn c k = Look (\<lambda>s.
     if c \<notin> conns s then k
     else Update (cancel_conn c) (Update (delete_conn c) (Close c k)))"

section \<open>Subscriptions\<close>

definition POD_SUBSCRIPTION_TYPE :: string where
  "POD_SUBSCRIPTION_TYPE = ''pod''"

definition JETTISON_APP_LABEL_KEY :: string where
  "JETTISON_APP_LABEL_KEY = ''jettison-app''"

definition subscribers :: "resource_subscription \<Rightarrow> shared \<Rightarrow> web_conn set" where
  "subscribers sub s = (case connSubscriptions s sub of None \<Rightarrow> {} | Some cs \<Rightarrow> cs)"

definition make_subscription :: "resource_subscription \<Rightarrow> shared \<Rightarrow> shared" where
  "make_subscription sub s = s\<lparr>connSubscriptions := (connSubscriptions s)(sub \<mapsto> {})\<rparr>"

definition add_subscriber :: "resource_subscription \<Rightarrow> web_conn \<Rightarrow> shared \<Rightarrow> shared" where
  "add_subscriber sub c s = s\<lparr>connSubscriptions := (connSubscriptions s)(sub \<mapsto> insert c (subscribers sub s))\<rparr>"

definition remove_subscriber :: "resource_subscription \<Rightarrow> web_conn \<Rightarrow> shared \<Rightarrow> shared" where
  "remove_subscriber sub c s = s\<lparr>connSubscriptions := (connSubscriptions s)(sub \<mapsto> subscribers sub s - {c})\<rparr>"

definition subscribe_pods :: "web_conn \<Rightarrow> resource_subscription \<Rightarrow> prog \<Rightarrow> prog" where
  "subscribe_pods c sub k = List (ListPods (sub_Namespace sub) (sub_Name sub)) (\<lambda>r. case r of
     Inl e \<Rightarrow> sendWebErrorAndClose c e (sub_Namespace sub) (sub_Name sub) podListWebError
       (''failed to get subscription pods: '' @ sub_Namespace sub @ ''/'' @ sub_Name sub) k
   | Inr pods \<Rightarrow> sendConn c (ResourceList PodType pods) (Update (add_subscriber sub c) k))"

definition registerResourceSubscription :: "web_conn \<Rightarrow> resource_subscription \<Rightarrow> prog \<Rightarrow> prog" where
  "registerResourceSubscription c sub k = Look (\<lambda>s.
     if connSubscriptions s sub = None then Update (make_subscription sub) (subscribe_pods c sub k)
     else if c \<in> subscribers sub s then k
     else subscribe_pods c sub k)"

fun notify_each :: "resource_subscription \<Rightarrow> web_conn list \<Rightarrow> message \<Rightarrow> prog \<Rightarrow> prog" where
  "notify_each sub [] m k = k"
| "notify_each sub (c # cs) m k = Look (\<lambda>s.
     if c \<notin> conns s then Update (remove_subscriber sub c) (notify_each sub cs m k)
     else sendConn c m (notify_each sub cs m k))"

definition subscription_of :: "resource \<Rightarrow> resource_subscription" where
  "subscription_of r = \<lparr>SubscriptionType = POD_SUBSCRIPTION_TYPE, sub_Namespace = Namespace r,
     sub_Name = map_entry (Labels r) JETTISON_APP_LABEL_KEY\<rparr>"

definition notifyResourceSubscriptions :: "resource \<Rightarrow> prog \<Rightarrow> prog" where
  "notifyResourceSubscriptions r k =
     (if res_Type r = PodType then
        Range (subscribers (subscription_of r))
          (\<lambda>cs. notify_each (subscription_of r) cs (ResourceList PodType [r]) k)
      else k)"

section \<open>The run loop\<close>

definition registered_not_aux :: "shared \<Rightarrow> web_conn set" where
  "registered_not_aux s = {c \<in> conns s. \<not> isAuxWs c}"

definition serve :: "flow_watcher \<Rightarrow> request \<Rightarrow> prog" where
  "serve w q = (case q of
     Register c \<Rightarrow> registerConn w c AtSelect
   | Unregister c \<Rightarrow> unregisterConn c AtSelect
   | Subscribe c sub \<Rightarrow> registerResourceSubscription c sub AtSelect
   | NotifyAll m \<Rightarrow> Range conns (\<lambda>cs. send_each (filter (\<lambda>c. \<not> isAuxWs c) cs) m AtSelect)
   | NotifySubscriptions r \<Rightarrow> notifyResourceSubscriptions r AtSelect)"

section \<open>Informer events\<close>

definition backfillSchema :: "flow_watcher \<Rightarrow> resource \<Rightarrow> (resource \<Rightarrow> prog) \<Rightarrow> prog" where
  "backfillSchema w r k =
     (if APIVersion r = [] \<or> Kind r = [] then
        (case gvk w (res_Type r) of
           Inl e \<Rightarrow> Crash
         | Inr (apiVersion, kind) \<Rightarrow> k (r\<lparr>APIVersion := apiVersion, Kind := kind\<rparr>))
      else k r)"

definition deleteAnnotationKey :: string where
  "deleteAnnotationKey = groupVersion @ ''/watcher-event-type''"

definition mark_deleted :: "resource \<Rightarrow> resource" where
  "mark_deleted r = r\<lparr>Annotations := Some (case Annotations r of
     None \<Rightarrow> [deleteAnnotationKey \<mapsto> ''delete''] | Some m \<Rightarrow> m(deleteAnnotationKey \<mapsto> ''delete''))\<rparr>"

definition watched :: "go_type \<Rightarrow> bool" where
  "watched t \<longleftrightarrow> t \<in> {FlowType, ApplicationType, RolloutType, WorkflowType}"

definition notify_all :: "resource \<Rightarrow> prog" where
  "notify_all r = Send (NotifyAll (ResourceList (res_Type r) [r])) Return"

definition OnAdd :: "flow_watcher \<Rightarrow> resource \<Rightarrow> prog" where
  "OnAdd w r = (if watched (res_Type r) then backfillSchema w r notify_all else Return)"

definition OnUpdate :: "flow_watcher \<Rightarrow> resource \<Rightarrow> resource \<Rightarrow> prog" where
  "OnUpdate w old new = (if watched (res_Type new) then backfillSchema w new notify_all else Return)"

definition OnDelete :: "flow_watcher \<Rightarrow> resource \<Rightarrow> prog" where
  "OnDelete w r = (if watched (res_Type r) then backfillSchema w (mark_deleted r) notify_all else Return)"

definition notify_subscriptions :: "resource \<Rightarrow> prog" where
  "notify_subscriptions r = Send (NotifySubscriptions r) Return"

definition onSubscriptionResourceAdd :: "flow_watcher \<Rightarrow> resource \<Rightarrow> prog" where
  "onSubscriptionResourceAdd w r =
     (if res_Type r \<noteq> PodType then Return
      else if map_entry (Labels r) JETTISON_APP_LABEL_KEY = [] then Return
      else backfillSchema w r notify_subscriptions)"

definition onSubscriptionResourceUpdate :: "flow_watcher \<Rightarrow> resource \<Rightarrow> resource \<Rightarrow> prog" where
  "onSubscriptionResourceUpdate w old new =
     (if res_Type new \<noteq> PodType then Return
      else if map_entry (Labels new) JETTISON_APP_LABEL_KEY = [] then Return
      else backfillSchema w new notify_subscriptions)"

definition onSubscriptionResourceDelete :: "flow_watcher \<Rightarrow> resource \<Rightarrow> prog" where
  "onSubscriptionResourceDelete w r =
     (if res_Type r \<noteq> PodType then Return
      else if map_entry (Labels r) JETTISON_APP_LABEL_KEY = [] then Return
      else backfillSchema w (mark_deleted r) notify_subscriptions)"

text \<open>
  \<open>setupWatcher\<close> gets the informer of each type and adds the callbacks to it: \<open>OnAdd\<close>, \<open>OnUpdate\<close> and
  \<open>OnDelete\<close> to the first four, those of subscriptions to the last. It stops at the first error.
\<close>

definition informer_types :: "(go_type \<times> string) list" where
  "informer_types = [(FlowType, ''flow''), (ApplicationType, ''application''), (RolloutType, ''rollout''),
     (WorkflowType, ''workflow''), (PodType, ''pod'')]"

definition setup_informer ::
    "(go_type \<Rightarrow> go_error option) \<Rightarrow> (go_type \<Rightarrow> go_error option) \<Rightarrow> go_type \<times> string \<Rightarrow> go_error + go_type" where
  "setup_informer getInformer addEventHandler t = (case getInformer (fst t) of
     Some e \<Rightarrow> Inl (Wrapped (''failed to get '' @ snd t @ '' informer for webserver'') e)
   | None \<Rightarrow> (case addEventHandler (fst t) of
       Some e \<Rightarrow> Inl (Wrapped (''failed to init '' @ snd t @ '' informer for webserver'') e)
     | None \<Rightarrow> Inr (fst t)))"

definition setupWatcher :: "(go_type \<Rightarrow> go_error option) \<Rightarrow> (go_type \<Rightarrow> go_error option) \<Rightarrow> go_error + go_type list" where
  "setupWatcher getInformer addEventHandler = traverse (setup_informer getInformer addEventHandler) informer_types"

section \<open>Client messages\<close>

definition pod_path :: "container_log_data \<Rightarrow> string" where
  "pod_path d = cld_Namespace d @ ''/'' @ cld_PodName d"

definition containerLogKind :: string where
  "containerLogKind = ''ContainerLog''"

definition sendLogLines :: "web_conn \<Rightarrow> container_log_data \<Rightarrow> string list \<Rightarrow> prog \<Rightarrow> prog" where
  "sendLogLines c d logLines k = sendConn c (ContainerLogList [\<lparr>cl_Kind = containerLogKind,
     cl_APIVersion = groupVersion, cl_Namespace = cld_Namespace d, cl_Name = cld_PodName d,
     cl_ContainerName = cld_ContainerName d, cl_LogLines = logLines\<rparr>]) k"

text \<open>The deferred close of the stream.\<close>

definition close_stream :: "web_conn \<Rightarrow> container_log_data \<Rightarrow> prog" where
  "close_stream c d = Call (CloseStream d) (\<lambda>r. case r of
     Some e \<Rightarrow> sendWebErrorAndClose c e (cld_Namespace d) (cld_PodName d) podLogsWebError
       (''failed to close stream for pod logs: '' @ pod_path d) Return
   | None \<Rightarrow> Return)"

definition streamLogLines :: "web_conn \<Rightarrow> container_log_data \<Rightarrow> prog" where
  "streamLogLines c d = OpenLogs d (\<lambda>r. case r of
     NotFound \<Rightarrow> sendWebError c (cld_Namespace d) (cld_PodName d) podNotFoundWebError
       (''no pod found for log stream: '' @ pod_path d) Return
   | LookupError e \<Rightarrow> sendWebErrorAndClose c e (cld_Namespace d) (cld_PodName d) podLogsWebError
       (''failed to get pod log stream: '' @ pod_path d) Return
   | Found _ \<Rightarrow> Again (LogLoop c d []))"

text \<open>
  One round of the loop of \<open>streamLogLines\<close>. The lines are handed over as a list; that the slice of the
  message shares its array with the buffer is in \<open>Log_Buffer\<close>, and \<open>Log_Stream\<close> puts the two together.
\<close>

definition stream_log_round :: "web_conn \<Rightarrow> container_log_data \<Rightarrow> string list \<Rightarrow> prog" where
  "stream_log_round c d logLines = NextLog c (\<lambda>e. case e of
     LogDone \<Rightarrow> close_stream c d
   | Debounced \<Rightarrow>
       if logLines \<noteq> [] then sendLogLines c d logLines (Again (LogLoop c d []))
       else Again (LogLoop c d logLines)
   | LogLine l \<Rightarrow> Again (LogLoop c d (logLines @ [l]))
   | LogEnd (Some err) \<Rightarrow> sendWebErrorAndClose c err (cld_Namespace d) (cld_PodName d) podLogsWebError
       (''failed to scan pod log stream: '' @ pod_path d) (close_stream c d)
   | LogEnd None \<Rightarrow>
       if logLines \<noteq> [] then sendLogLines c d logLines (sendLogLines c d [] (close_stream c d))
       else sendLogLines c d logLines (close_stream c d))"

definition sendPod :: "flow_watcher \<Rightarrow> web_conn \<Rightarrow> container_log_data \<Rightarrow> prog" where
  "sendPod w c d = GetPod d (\<lambda>r. case r of
     NotFound \<Rightarrow> sendWebError c (cld_Namespace d) (cld_PodName d) podNotFoundWebError
       (''pod not found: '' @ pod_path d) Return
   | LookupError e \<Rightarrow> sendWebErrorAndClose c e (cld_Namespace d) (cld_PodName d) podGetWebError
       (''failed to get pod: '' @ pod_path d) Return
   | Found pod \<Rightarrow> backfillSchema w pod (\<lambda>pod. sendConn c (ResourceList PodType [pod]) Return))"

definition handleContainerLogMessage :: "flow_watcher \<Rightarrow> web_conn \<Rightarrow> container_log_data \<Rightarrow> prog \<Rightarrow> prog" where
  "handleContainerLogMessage w c d k = Go (streamLogLines c d) (Go (sendPod w c d) k)"

text \<open>A panic of the reader runs its deferred send to the run loop first.\<close>

definition reader_panic :: "web_conn \<Rightarrow> prog" where
  "reader_panic c = Send (Unregister c) Crash"

definition handleResourceSubscriptionMessage :: "web_conn \<Rightarrow> resource_subscription \<Rightarrow> prog \<Rightarrow> prog" where
  "handleResourceSubscriptionMessage c sub k =
     (if SubscriptionType sub \<noteq> POD_SUBSCRIPTION_TYPE then reader_panic c
      else Send (Subscribe c sub) k)"

definition syncApplication :: "web_conn \<Rightarrow> named_data \<Rightarrow> prog" where
  "syncApplication c d = Call (SyncApplication (nd_Namespace d) (nd_Name d)) (\<lambda>r. case r of
     Some e \<Rightarrow> sendWebErrorAndClose c e (nd_Namespace d) (nd_Name d) applicationSyncWebError
       (''failed to sync ArgoCD application: '' @ nd_Namespace d @ ''/'' @ nd_Name d) Return
   | None \<Rightarrow> Return)"

definition handleSyncApplicationMessage :: "web_conn \<Rightarrow> named_data \<Rightarrow> prog \<Rightarrow> prog" where
  "handleSyncApplicationMessage c d k = Go (syncApplication c d) k"

definition retryRolloutPatch :: string where
  "retryRolloutPatch = ''{\"status\":{\"abort\":false}}''"

definition retryRollout :: "web_conn \<Rightarrow> named_data \<Rightarrow> prog" where
  "retryRollout c d = Call (PatchRolloutStatus (nd_Namespace d) (nd_Name d) retryRolloutPatch) (\<lambda>r. case r of
     Some e \<Rightarrow> sendWebErrorAndClose c e (nd_Namespace d) (nd_Name d) rolloutRetryWebError
       (''failed to retry rollout: '' @ nd_Namespace d @ ''/'' @ nd_Name d) Return
   | None \<Rightarrow> Return)"

definition handleRetryRolloutMessage :: "web_conn \<Rightarrow> named_data \<Rightarrow> prog \<Rightarrow> prog" where
  "handleRetryRolloutMessage c d k = Go (retryRollout c d) k"

section \<open>The loops\<close>

text \<open>One round of the loop of \<open>writeConn\<close>; when the channel is closed, the socket is closed and the goroutine ends.\<close>

definition write_round :: "web_conn \<Rightarrow> prog" where
  "write_round c = Receive c (\<lambda>r. case r of
     None \<Rightarrow> Return
   | Some m \<Rightarrow> WriteSocket c m (\<lambda>err. case err of
       Some e \<Rightarrow> Send (Unregister c) (Again (WriteLoop c))
     | None \<Rightarrow> Again (WriteLoop c)))"

definition read_round :: "flow_watcher \<Rightarrow> web_conn \<Rightarrow> prog" where
  "read_round w c = ReadSocket c (\<lambda>r. case r of
     ReadError unexpected \<Rightarrow> if unexpected then reader_panic c else Send (Unregister c) Return
   | ReadOther \<Rightarrow> reader_panic c
   | ReadText txt \<Rightarrow> (case decode_client_message txt of
       None \<Rightarrow> reader_panic c
     | Some (ContainerLogMessage d) \<Rightarrow> handleContainerLogMessage w c d (Again (ReadLoop c))
     | Some (ResourceSubscriptionMessage sub) \<Rightarrow> handleResourceSubscriptionMessage c sub (Again (ReadLoop c))
     | Some (SyncApplicationMessage d) \<Rightarrow> handleSyncApplicationMessage c d (Again (ReadLoop c))
     | Some (RetryRolloutMessage d) \<Rightarrow> handleRetryRolloutMessage c d (Again (ReadLoop c))))"

primrec round_of :: "flow_watcher \<Rightarrow> loop \<Rightarrow> prog" where
  "round_of w (WriteLoop c) = write_round c"
| "round_of w (ReadLoop c) = read_round w c"
| "round_of w (LogLoop c d logLines) = stream_log_round c d logLines"

section \<open>New connections\<close>

definition auxWsFlag :: string where
  "auxWsFlag = ''aux=true''"

text \<open>The upgraded socket gets a connection of its own (\<open>n\<close> is its address).\<close>

definition handleWebsocket :: "bool \<Rightarrow> string \<Rightarrow> nat \<Rightarrow> prog" where
  "handleWebsocket upgraded rawQuery n =
     (if \<not> upgraded then Return
      else Send (Register \<lparr>conn_Id = n, isAuxWs = (rawQuery = auxWsFlag)\<rparr>) Return)"

end
