(* ===== verification/Argo_Sync.thy ===== *)
theory Argo_Sync
  imports Prelude "HOL-Library.Word"
begin

text \<open>
  The client that synchronises ArgoCD applications (\<open>argosync.go\<close>), with its cache of the session token.
  Times are Unix seconds in an \<open>int64\<close>. The mutex makes each use of the cache one step. What the ArgoCD API
  answers is a parameter of each call.
\<close>

section \<open>The client\<close>

definition argocdServerAddr :: string where
  "argocdServerAddr = ''argocd-server.argocd''"

definition argocdUser :: string where
  "argocdUser = ''jettisonproj''"

definition tokenRefreshThresholdSeconds :: "64 word" where
  "tokenRefreshThresholdSeconds = 12 * 60 * 60"

definition syncOption :: string where
  "syncOption = ''CreateNamespace=true''"

record sync_client =
  argocdCred :: string
  argocdAuthToken :: string
  lastTokenRefreshTime :: "64 word"

record sync_request =
  Prune :: bool
  sr_Name :: string
  AppNamespace :: string
  SyncOptions :: "string list"

record client_options =
  ServerAddr :: string
  PlainText :: bool
  AuthToken :: string

text \<open>The API during one call of \<open>Sync\<close>: sessions by user and password, then clients by their options.\<close>

record argo_api =
  NewSessionClient :: "go_error option"
  CreateSession :: "string \<Rightarrow> string \<Rightarrow> go_error + string"
  NewClient :: "client_options \<Rightarrow> go_error option"
  NewApplicationClient :: "client_options \<Rightarrow> go_error option"
  SyncApp :: "client_options \<Rightarrow> sync_request \<Rightarrow> go_error option"

definition NewSyncClient :: "(client_options \<Rightarrow> go_error option) \<Rightarrow> string \<Rightarrow> go_error + sync_client" where
  "NewSyncClient newClient cred =
     (case newClient \<lparr>ServerAddr = argocdServerAddr, PlainText = True, AuthToken = []\<rparr> of
     Some e \<Rightarrow> Inl (Wrapped ''failed to create ArgoCD client without auth'' e)
   | None \<Rightarrow> Inr \<lparr>argocdCred = cred, argocdAuthToken = [], lastTokenRefreshTime = 0\<rparr>)"

definition getAuthToken :: "64 word \<Rightarrow> argo_api \<Rightarrow> sync_client \<Rightarrow> (go_error + string) \<times> sync_client" where
  "getAuthToken now api c =
     (if now <s lastTokenRefreshTime c + tokenRefreshThresholdSeconds then (Inr (argocdAuthToken c), c)
      else case NewSessionClient api of
        Some e \<Rightarrow> (Inl (Wrapped ''failed to create ArgoCD session client'' e), c)
      | None \<Rightarrow> (case CreateSession api argocdUser (argocdCred c) of
          Inl e \<Rightarrow> (Inl (Wrapped ''failed to create ArgoCD session'' e), c)
        | Inr token \<Rightarrow> (Inr token, c\<lparr>argocdAuthToken := token, lastTokenRefreshTime := now\<rparr>)))"

text \<open>None is the nil error.\<close>

definition Sync :: "64 word \<Rightarrow> argo_api \<Rightarrow> string \<Rightarrow> string \<Rightarrow> sync_client \<Rightarrow> go_error option \<times> sync_client" where
  "Sync now api ns name c = (case getAuthToken now api c of
     (Inl e, c') \<Rightarrow> (Some e, c')
   | (Inr token, c') \<Rightarrow>
       (let opts = \<lparr>ServerAddr = argocdServerAddr, PlainText = True, AuthToken = token\<rparr> in
        case NewClient api opts of
          Some e \<Rightarrow> (Some (Wrapped ''failed to create ArgoCD client with auth'' e), c')
        | None \<Rightarrow> (case NewApplicationClient api opts of
            Some e \<Rightarrow> (Some (Wrapped ''failed to create ArgoCD application client'' e), c')
          | None \<Rightarrow> (case SyncApp api opts
                \<lparr>Prune = True, sr_Name = name, AppNamespace = ns, SyncOptions = [syncOption]\<rparr> of
              Some e \<Rightarrow> (Some (Wrapped (''failed to sync application '' @ name) e), c')
            | None \<Rightarrow> (None, c')))))"

section \<open>The age of a token\<close>

text \<open>Calls of \<open>Sync\<close> one after the other, at the time and with the API of each; their errors in order.\<close>

record sync_call =
  sc_now :: "64 word"
  sc_api :: argo_api
  sc_namespace :: string
  sc_name :: string

fun sync_calls :: "sync_call list \<Rightarrow> sync_client \<Rightarrow> go_error option list" where
  "sync_calls [] c = []"
| "sync_calls (k # ks) c =
     (case Sync (sc_now k) (sc_api k) (sc_namespace k) (sc_name k) c of (r, c') \<Rightarrow> r # sync_calls ks c')"

text \<open>Times of this era: after the first half day of 1970, and far from the largest \<open>int64\<close>.\<close>

definition clock :: "64 word \<Rightarrow> bool" where
  "clock t \<longleftrightarrow> 43200 \<le> sint t \<and> sint t < 2 ^ 62"

lemma threshold_no_overflow:
  assumes "sint t < 2 ^ 62" and "0 \<le> sint t"
  shows "sint (t + tokenRefreshThresholdSeconds) = sint t + 43200"
proof -
  have "sint (tokenRefreshThresholdSeconds) = 43200"
    by (simp add: tokenRefreshThresholdSeconds_def)
  moreover have "signed_take_bit 63 (sint t + 43200) = sint t + 43200"
    by (rule signed_take_bit_int_eq_self) (use assms in simp_all)
  ultimately show ?thesis
    by (simp add: sint_word_ariths(1))
qed

lemma cached_iff:
  assumes "clock t" and "0 \<le> sint (lastTokenRefreshTime c)" and "sint (lastTokenRefreshTime c) < 2 ^ 62"
  shows "t <s lastTokenRefreshTime c + tokenRefreshThresholdSeconds \<longleftrightarrow> sint t < sint (lastTokenRefreshTime c) + 43200"
  by (simp add: word_sless_alt threshold_no_overflow [OF assms(3,2)])

text \<open>The token of the cache was created at the time of the cache, by one of the calls.\<close>

definition cache_of :: "string \<Rightarrow> sync_call set \<Rightarrow> sync_client \<Rightarrow> bool" where
  "cache_of cred calls c \<longleftrightarrow> argocdCred c = cred \<and>
     (lastTokenRefreshTime c = 0 \<or> (\<exists>k \<in> calls. sc_now k = lastTokenRefreshTime c
        \<and> CreateSession (sc_api k) argocdUser cred = Inr (argocdAuthToken c) \<and> clock (lastTokenRefreshTime c)))"

text \<open>A token from one of the calls, created less than twelve hours before \<open>now\<close>.\<close>

definition fresh_token :: "string \<Rightarrow> sync_call set \<Rightarrow> 64 word \<Rightarrow> string \<Rightarrow> bool" where
  "fresh_token cred calls now token \<longleftrightarrow> (\<exists>k \<in> calls. CreateSession (sc_api k) argocdUser cred = Inr token
     \<and> sint now < sint (sc_now k) + 12 * 60 * 60)"

lemma getAuthToken_cache:
  assumes "cache_of cred calls c" and "clock (sc_now k)" and "getAuthToken (sc_now k) (sc_api k) c = (r, c')"
  shows "cache_of cred (insert k calls) c'
    \<and> (\<forall>token. r = Inr token \<longrightarrow> fresh_token cred (insert k calls) (sc_now k) token)"
proof (cases "sc_now k <s lastTokenRefreshTime c + tokenRefreshThresholdSeconds")
  case True
  then have c: "c' = c" "r = Inr (argocdAuthToken c)" using assms(3) by (auto simp: getAuthToken_def)
  have last: "lastTokenRefreshTime c \<noteq> 0"
  proof
    assume "lastTokenRefreshTime c = 0"
    with True cached_iff [OF assms(2), of c] assms(2) show False by (simp add: clock_def)
  qed
  then obtain k' where k': "k' \<in> calls" "sc_now k' = lastTokenRefreshTime c" "clock (lastTokenRefreshTime c)"
    "CreateSession (sc_api k') argocdUser cred = Inr (argocdAuthToken c)" using assms(1) by (auto simp: cache_of_def)
  then have "sint (sc_now k) < sint (sc_now k') + 12 * 60 * 60"
    using cached_iff [OF assms(2), of c] True by (simp add: clock_def)
  with c k' assms(1) show ?thesis by (auto simp: cache_of_def fresh_token_def)
next
  case False
  have "fresh_token cred (insert k calls) (sc_now k) token"
    if "CreateSession (sc_api k) argocdUser cred = Inr token" for token
    using that unfolding fresh_token_def by (intro bexI [of _ k]) simp_all
  with False assms show ?thesis
    by (auto simp: getAuthToken_def cache_of_def split: option.splits sum.splits)
qed

text \<open>The cache changes only as the token is fetched, and a success means a sync with that token.\<close>

definition the_request :: "sync_call \<Rightarrow> sync_request" where
  "the_request k = \<lparr>Prune = True, sr_Name = sc_name k, AppNamespace = sc_namespace k,
     SyncOptions = [''CreateNamespace=true'']\<rparr>"

definition token_options :: "string \<Rightarrow> client_options" where
  "token_options token = \<lparr>ServerAddr = argocdServerAddr, PlainText = True, AuthToken = token\<rparr>"

lemma Sync_cases:
  assumes "Sync (sc_now k) (sc_api k) (sc_namespace k) (sc_name k) c = (r, c')"
  obtains t where "getAuthToken (sc_now k) (sc_api k) c = (t, c')"
    and "r = None \<longrightarrow> (\<exists>token. t = Inr token \<and> SyncApp (sc_api k) (token_options token) (the_request k) = None)"
proof -
  obtain t c'' where t: "getAuthToken (sc_now k) (sc_api k) c = (t, c'')" by fastforce
  show thesis
  proof (rule that [of t])
    show "getAuthToken (sc_now k) (sc_api k) c = (t, c')"
      using t assms by (cases t) (auto simp: Sync_def Let_def split: option.splits)
    show "r = None \<longrightarrow> (\<exists>token. t = Inr token \<and> SyncApp (sc_api k) (token_options token) (the_request k) = None)"
      using t assms by (cases t) (auto simp: Sync_def Let_def token_options_def the_request_def syncOption_def split: option.splits)
  qed
qed

lemma sync_calls_fresh:
  assumes "cache_of cred past c" and "\<forall>k \<in> set ks. clock (sc_now k)" and "i < length ks"
    and "sync_calls ks c ! i = None"
  shows "\<exists>token. fresh_token cred (past \<union> set (take (Suc i) ks)) (sc_now (ks ! i)) token
    \<and> SyncApp (sc_api (ks ! i)) (token_options token) (the_request (ks ! i)) = None"
  using assms
proof (induction ks arbitrary: c past i)
  case (Cons k ks)
  obtain r c' where r: "Sync (sc_now k) (sc_api k) (sc_namespace k) (sc_name k) c = (r, c')" by fastforce
  from Sync_cases [OF r] obtain t where t: "getAuthToken (sc_now k) (sc_api k) c = (t, c')"
    "r = None \<longrightarrow> (\<exists>token. t = Inr token \<and> SyncApp (sc_api k) (token_options token) (the_request k) = None)" .
  have "clock (sc_now k)" using Cons.prems by simp
  note c' = getAuthToken_cache [OF Cons.prems(1) this t(1)]
  show ?case
  proof (cases i)
    case 0
    with Cons.prems(4) r have "r = None" by simp
    with t(2) obtain token where token: "t = Inr token" "SyncApp (sc_api k) (token_options token) (the_request k) = None" by blast
    with c' have "fresh_token cred (insert k past) (sc_now k) token" by blast
    with 0 token(2) show ?thesis by (intro exI [of _ token]) simp
  next
    case (Suc j)
    with Cons.prems r have "\<exists>token. fresh_token cred (insert k past \<union> set (take (Suc j) ks)) (sc_now (ks ! j)) token
      \<and> SyncApp (sc_api (ks ! j)) (token_options token) (the_request (ks ! j)) = None"
      by (intro Cons.IH [OF conjunct1 [OF c']]) auto
    with Suc show ?thesis by simp
  qed
qed simp

section \<open>Properties\<close>

text \<open>
  C20. Whatever calls are made and fail, a call of \<open>Sync\<close> succeeds only when the application was synced, with pruning and
  creation of its namespace, under a token that ArgoCD issued to the user and credential of the client in
  one of the calls so far, less than twelve hours before: for times between the first half day of
  1970 and 2^62 seconds the refresh threshold does not overflow.
\<close>

theorem Sync_token_fresh:
  assumes "NewSyncClient newClient cred = Inr c" and "\<forall>k \<in> set ks. clock (sc_now k)"
    and "i < length ks" and "sync_calls ks c ! i = None"
  shows "\<exists>token k. k \<in> set (take (Suc i) ks) \<and> CreateSession (sc_api k) ''jettisonproj'' cred = Inr token
    \<and> sint (sc_now (ks ! i)) < sint (sc_now k) + 12 * 60 * 60
    \<and> SyncApp (sc_api (ks ! i)) \<lparr>ServerAddr = ''argocd-server.argocd'', PlainText = True, AuthToken = token\<rparr>
         \<lparr>Prune = True, sr_Name = sc_name (ks ! i), AppNamespace = sc_namespace (ks ! i),
         SyncOptions = [''CreateNamespace=true'']\<rparr> = None"
proof -
  have "cache_of cred {} c" using assms(1) by (auto simp: NewSyncClient_def cache_of_def split: option.splits)
  from sync_calls_fresh [OF this assms(2-4)] show ?thesis
    by (auto simp: fresh_token_def the_request_def argocdUser_def argocdServerAddr_def token_options_def)
qed

definition sample_call :: "64 word \<Rightarrow> string \<Rightarrow> sync_call" where
  "sample_call now token = \<lparr>sc_now = now, sc_api = \<lparr>NewSessionClient = None, CreateSession = (\<lambda>u p. Inr token),
     NewClient = (\<lambda>t. None), NewApplicationClient = (\<lambda>t. None),
     SyncApp = (\<lambda>t r. if AuthToken t = ''a'' then None else Some (LibError ''bad token''))\<rparr>,
     sc_namespace = ''argocd'', sc_name = ''api''\<rparr>"

definition sample_calls :: "sync_call list" where
  "sample_calls = [sample_call 1700000000 ''a'', sample_call 1700043199 ''b'', sample_call 1700043200 ''c'']"

lemma Sync_token_fresh_witness:
  "sync_calls sample_calls \<lparr>argocdCred = ''pw'', argocdAuthToken = [], lastTokenRefreshTime = 0\<rparr>
     = [None, None, Some (Wrapped ''failed to sync application api'' (LibError ''bad token''))]
   \<and> (\<exists>token k. k \<in> set (take 2 sample_calls) \<and> CreateSession (sc_api k) ''jettisonproj'' ''pw'' = Inr token
        \<and> sint (sc_now (sample_calls ! 1)) < sint (sc_now k) + 12 * 60 * 60)"
proof -
  let ?c = "\<lparr>argocdCred = ''pw'', argocdAuthToken = [], lastTokenRefreshTime = 0\<rparr>"
  have calls: "sync_calls sample_calls ?c
      = [None, None, Some (Wrapped ''failed to sync application api'' (LibError ''bad token''))]"
    by (simp add: sample_calls_def sample_call_def Sync_def Let_def getAuthToken_def tokenRefreshThresholdSeconds_def word_sless_alt)
  have new: "NewSyncClient (\<lambda>opts. None) ''pw'' = Inr ?c" by (simp add: NewSyncClient_def)
  have times: "\<forall>k \<in> set sample_calls. clock (sc_now k)"
    by (simp add: sample_calls_def sample_call_def clock_def)
  have "1 < length sample_calls" by (simp add: sample_calls_def)
  moreover have "sync_calls sample_calls ?c ! 1 = None" unfolding calls by simp
  moreover have "Suc 1 = 2" by simp
  ultimately show ?thesis using Sync_token_fresh [OF new times, of 1] calls by metis
qed

end
