(* ===== verification/Web_Server.thy ===== *)
theory Web_Server
  imports Flow_Watcher Argo_Sync
begin

text \<open>
  The HTTP handlers of \<open>flow_webserver.go\<close> and the archived workflows of \<open>workflow_mysql.go\<close>. What the
  cluster client and the database answer is a parameter, and so is the label of archived workflows, a constant
  of Argo Workflows. \<open>handleWebsocket\<close> is with the watcher.
\<close>

section \<open>Archived workflows\<close>

text \<open>The database: the results of opening, of the query, of each row and of closing the rows.\<close>

record archive_db =
  db_Open :: "go_error option"
  db_Query :: "go_error option"
  db_Rows :: "(go_error + (go_error + resource)) list"
  db_Close :: "go_error option"
  db_Err :: "go_error option"

text \<open>A row: scanned, decoded, and marked as persisted; the labels of the workflow may be a nil map.\<close>

definition archived_row :: "string \<Rightarrow> string \<Rightarrow> go_error + (go_error + resource) \<Rightarrow> resource res" where
  "archived_row label addr row = (case row of
     Inl e \<Rightarrow> Inl (Failed (Wrapped (''failed to read mysql query '' @ addr) e))
   | Inr (Inl e) \<Rightarrow> Inl (Failed (Wrapped (''failed to unmarshal workflow '' @ addr) e))
   | Inr (Inr workflow) \<Rightarrow> (case Labels workflow of
       None \<Rightarrow> Inl Panicked
     | Some m \<Rightarrow> Inr (workflow\<lparr>Labels := Some (m(label \<mapsto> ''Persisted''))\<rparr>)))"

definition or_failed :: "string \<Rightarrow> go_error option \<Rightarrow> 'a res \<Rightarrow> 'a res" where
  "or_failed msg err k = (case err of Some e \<Rightarrow> Inl (Failed (Wrapped msg e)) | None \<Rightarrow> k)"

definition getWorkflowsFromMysql :: "string \<Rightarrow> string \<Rightarrow> archive_db \<Rightarrow> resource list res" where
  "getWorkflowsFromMysql label addr db =
     or_failed (''failed to open mysql db '' @ addr) (db_Open db)
       (or_failed (''failed to query mysql db '' @ addr) (db_Query db)
         (and_then (traverse (archived_row label addr) (db_Rows db)) (\<lambda>workflows.
           or_failed (''failed to close mysql query '' @ addr) (db_Close db)
             (or_failed (''error in mysql query '' @ addr) (db_Err db) (Inr workflows)))))"

text \<open>\<open>mysqlWorkflowsMap\<close>, by namespace and name, as \<open>SetupWithManager\<close> fills it.\<close>

type_synonym workflow_index = "string \<rightharpoonup> (string \<rightharpoonup> resource)"

definition index_workflow :: "resource \<Rightarrow> workflow_index \<Rightarrow> workflow_index" where
  "index_workflow r m = m(Namespace r \<mapsto>
     (case m (Namespace r) of None \<Rightarrow> [Name r \<mapsto> r] | Some byName \<Rightarrow> byName(Name r \<mapsto> r)))"

fun index_workflows :: "resource list \<Rightarrow> workflow_index \<Rightarrow> workflow_index" where
  "index_workflows [] m = m"
| "index_workflows (r # rs) m = index_workflows rs (index_workflow r m)"

definition getMysqlWorkflow :: "workflow_index \<Rightarrow> string \<Rightarrow> string \<Rightarrow> resource option" where
  "getMysqlWorkflow m ns name = (case m ns of None \<Rightarrow> None | Some byName \<Rightarrow> byName name)"

section \<open>Handlers\<close>

text \<open>A response: the status and the body; all have the content type JSON.\<close>

datatype body = Encoded resource | Plain string

type_synonym response = "nat \<times> body"

definition StatusOK :: nat where "StatusOK = 200"

definition StatusNotFound :: nat where "StatusNotFound = 404"

definition StatusInternalServerError :: nat where "StatusInternalServerError = 500"

text \<open>\<open>get\<close> is the \<open>Get\<close> of the cluster client for the type and key of the request.\<close>

definition handleFlow :: "(string \<Rightarrow> string \<Rightarrow> resource lookup) \<Rightarrow> string \<Rightarrow> string \<Rightarrow> response" where
  "handleFlow get ns name = (case get ns name of
     NotFound \<Rightarrow> (StatusNotFound, Plain ''{\"error\":\"flow not found\"}'')
   | LookupError e \<Rightarrow> (StatusInternalServerError, Plain ''{\"error\":\"failed to fetch flow\"}'')
   | Found flow \<Rightarrow> (StatusOK, Encoded flow))"

definition handleApplication :: "(string \<Rightarrow> string \<Rightarrow> resource lookup) \<Rightarrow> string \<Rightarrow> string \<Rightarrow> response" where
  "handleApplication get ns name = (case get ns name of
     NotFound \<Rightarrow> (StatusNotFound, Plain ''{\"error\":\"application not found\"}'')
   | LookupError e \<Rightarrow> (StatusInternalServerError, Plain ''{\"error\":\"failed to fetch application\"}'')
   | Found application \<Rightarrow> (StatusOK, Encoded application))"

definition handlePod :: "(string \<Rightarrow> string \<Rightarrow> resource lookup) \<Rightarrow> string \<Rightarrow> string \<Rightarrow> response" where
  "handlePod get ns name = (case get ns name of
     NotFound \<Rightarrow> (StatusNotFound, Plain ''{\"error\":\"pod not found\"}'')
   | LookupError e \<Rightarrow> (StatusInternalServerError, Plain ''{\"error\":\"failed to fetch pod\"}'')
   | Found pod \<Rightarrow> (StatusOK, Encoded pod))"

definition handleRollout :: "(string \<Rightarrow> string \<Rightarrow> resource lookup) \<Rightarrow> string \<Rightarrow> string \<Rightarrow> response" where
  "handleRollout get ns name = (case get ns name of
     NotFound \<Rightarrow> (StatusNotFound, Plain ''{\"error\":\"rollout not found\"}'')
   | LookupError e \<Rightarrow> (StatusInternalServerError, Plain ''{\"error\":\"failed to fetch rollout\"}'')
   | Found rollout \<Rightarrow> (StatusOK, Encoded rollout))"

definition handleWorkflow ::
    "(string \<Rightarrow> string \<Rightarrow> resource lookup) \<Rightarrow> workflow_index \<Rightarrow> string \<Rightarrow> string \<Rightarrow> response" where
  "handleWorkflow get m ns name = (case get ns name of
     NotFound \<Rightarrow> (case getMysqlWorkflow m ns name of
       Some workflow \<Rightarrow> (StatusOK, Encoded workflow)
     | None \<Rightarrow> (StatusNotFound, Plain ''{\"error\":\"workflow not found\"}''))
   | LookupError e \<Rightarrow> (StatusInternalServerError, Plain ''{\"error\":\"failed to fetch workflow\"}'')
   | Found workflow \<Rightarrow> (StatusOK, Encoded workflow))"

definition syncApplication_handler ::
    "64 word \<Rightarrow> argo_api \<Rightarrow> string \<Rightarrow> string \<Rightarrow> sync_client \<Rightarrow> response \<times> sync_client" where
  "syncApplication_handler now api ns name c = (case Sync now api ns name c of
     (Some e, c') \<Rightarrow> ((StatusInternalServerError, Plain ''{\"error\":\"failed to sync ArgoCD application\"}''), c')
   | (None, c') \<Rightarrow> ((StatusOK, Plain ''{\"message\":\"application synced successfully\"}''), c'))"

section \<open>Lemmas\<close>

lemma or_failed_Inr [simp]: "or_failed msg err k = Inr x \<longleftrightarrow> err = None \<and> k = Inr x"
  by (auto simp: or_failed_def split: option.splits)

lemma or_failed_Panicked [simp]: "or_failed msg err k = Inl Panicked \<longleftrightarrow> err = None \<and> k = Inl Panicked"
  by (auto simp: or_failed_def split: option.splits)

text \<open>The last workflow of that namespace and name.\<close>

definition last_workflow :: "resource list \<Rightarrow> string \<Rightarrow> string \<Rightarrow> resource option" where
  "last_workflow rs ns name = find (\<lambda>r. Namespace r = ns \<and> Name r = name) (rev rs)"

lemma find_append: "find P (xs @ ys) = (case find P xs of None \<Rightarrow> find P ys | Some x \<Rightarrow> Some x)"
  by (induction xs) auto

lemma get_index_workflow:
  "getMysqlWorkflow (index_workflow r m) ns name
     = (if Namespace r = ns \<and> Name r = name then Some r else getMysqlWorkflow m ns name)"
  by (auto simp: getMysqlWorkflow_def index_workflow_def split: option.splits)

lemma get_index_workflows:
  "getMysqlWorkflow (index_workflows rs m) ns name
     = (case last_workflow rs ns name of None \<Rightarrow> getMysqlWorkflow m ns name | Some r \<Rightarrow> Some r)"
  by (induction rs m rule: index_workflows.induct)
     (simp_all add: last_workflow_def find_append get_index_workflow split: option.split)

text \<open>The workflow with the mark of the archive.\<close>

definition persisted :: "string \<Rightarrow> resource \<Rightarrow> resource" where
  "persisted label r = r\<lparr>Labels := map_option (\<lambda>m. m(label \<mapsto> ''Persisted'')) (Labels r)\<rparr>"

lemma archived_row_Inr:
  "archived_row label addr row = Inr w \<longleftrightarrow> (\<exists>r. row = Inr (Inr r) \<and> Labels r \<noteq> None \<and> w = persisted label r)"
  by (auto simp: archived_row_def persisted_def split: sum.splits option.splits)

lemma archived_rows_Inr:
  "traverse (archived_row label addr) rows = Inr ws \<longleftrightarrow>
     (\<exists>rs. rows = map (\<lambda>r. Inr (Inr r)) rs \<and> (\<forall>r \<in> set rs. Labels r \<noteq> None) \<and> ws = map (persisted label) rs)"
proof (induction rows arbitrary: ws)
  case (Cons row rows)
  have "traverse (archived_row label addr) (row # rows) = Inr ws \<longleftrightarrow>
    (\<exists>r rs. row = Inr (Inr r) \<and> Labels r \<noteq> None \<and> rows = map (\<lambda>r. Inr (Inr r)) rs
       \<and> (\<forall>r \<in> set rs. Labels r \<noteq> None) \<and> ws = persisted label r # map (persisted label) rs)"
    by (auto simp: Cons.IH archived_row_Inr)
  also have "\<dots> \<longleftrightarrow> (\<exists>rs. row # rows = map (\<lambda>r. Inr (Inr r)) rs \<and> (\<forall>r \<in> set rs. Labels r \<noteq> None) \<and> ws = map (persisted label) rs)"
    (is "?l \<longleftrightarrow> ?r")
  proof
    assume ?l
    then obtain r rs where "row = Inr (Inr r)" "Labels r \<noteq> None" "rows = map (\<lambda>r. Inr (Inr r)) rs"
      "\<forall>r \<in> set rs. Labels r \<noteq> None" "ws = persisted label r # map (persisted label) rs" by blast
    then show ?r by (intro exI [of _ "r # rs"]) auto
  qed (auto simp: Cons_eq_map_conv)
  finally show ?case .
qed auto

lemma last_workflow_persisted:
  "last_workflow (map (persisted label) rs) ns name = map_option (persisted label) (last_workflow rs ns name)"
  by (induction rs) (auto simp: last_workflow_def find_append persisted_def split: option.splits)

text \<open>
  Loading the archive gives one workflow per row, in order, with the label of archived workflows added and nothing
  else changed, exactly when no call fails and every workflow has labels; otherwise start-up stops.
\<close>

lemma getWorkflowsFromMysql_exact:
  "getWorkflowsFromMysql label addr db = Inr ws \<longleftrightarrow>
     db_Open db = None \<and> db_Query db = None \<and> db_Close db = None \<and> db_Err db = None
     \<and> (\<exists>rs. db_Rows db = map (\<lambda>r. Inr (Inr r)) rs \<and> (\<forall>r \<in> set rs. Labels r \<noteq> None) \<and> ws = map (persisted label) rs)"
  by (auto simp: getWorkflowsFromMysql_def archived_rows_Inr)

text \<open>A lookup in the index of the loaded archive.\<close>

lemma archive_lookup:
  assumes "getWorkflowsFromMysql label addr db = Inr ws" and "db_Rows db = map (\<lambda>r. Inr (Inr r)) rs"
  shows "getMysqlWorkflow (index_workflows ws Map.empty) ns name = map_option (persisted label) (last_workflow rs ns name)"
proof -
  have ws: "ws = map (persisted label) rs"
    using assms(1) unfolding getWorkflowsFromMysql_exact assms(2) by (auto dest: map_injective simp: inj_def)
  show ?thesis
    unfolding get_index_workflows ws last_workflow_persisted
    by (cases "last_workflow rs ns name") (simp_all add: getMysqlWorkflow_def)
qed

section \<open>Properties\<close>

text \<open>
  A workflow is served from the cluster when the cluster has it, else from the archive as it was last recorded there
  under that namespace and name, marked as persisted; it is not found exactly when neither has it, and an
  error of the cluster is never hidden by the archive.
\<close>

lemma handleWorkflow_serves:
  assumes "getWorkflowsFromMysql label addr db = Inr ws" and "db_Rows db = map (\<lambda>r. Inr (Inr r)) rs"
  shows "handleWorkflow get (index_workflows ws Map.empty) ns name =
    (case get ns name of
       Found r \<Rightarrow> (200, Encoded r)
     | LookupError e \<Rightarrow> (500, Plain ''{\"error\":\"failed to fetch workflow\"}'')
     | NotFound \<Rightarrow> (case last_workflow rs ns name of
         None \<Rightarrow> (404, Plain ''{\"error\":\"workflow not found\"}'')
       | Some r \<Rightarrow> (200, Encoded (persisted label r))))"
proof -
  have "getMysqlWorkflow (index_workflows ws Map.empty) ns name = map_option (persisted label) (last_workflow rs ns name)"
    by (rule archive_lookup [OF assms])
  then show ?thesis
    by (auto simp: handleWorkflow_def StatusOK_def StatusNotFound_def StatusInternalServerError_def
        split: lookup.splits option.splits)
qed

definition archived_run :: "string \<Rightarrow> resource" where
  "archived_run v = \<lparr>res_Type = WorkflowType, APIVersion = v, Kind = ''Workflow'', Namespace = ''dev'', Name = ''run-1'',
     Labels = Some Map.empty, Annotations = None, res_Rest = JNull\<rparr>"

lemma handleWorkflow_serves_witness:
  "\<exists>ws. getWorkflowsFromMysql ''archived'' ''db'' \<lparr>db_Open = None, db_Query = None,
        db_Rows = [Inr (Inr (archived_run ''v1'')), Inr (Inr (archived_run ''v2''))], db_Close = None, db_Err = None\<rparr> = Inr ws
     \<and> handleWorkflow (\<lambda>ns name. NotFound) (index_workflows ws Map.empty) ''dev'' ''run-1''
         = (200, Encoded (persisted ''archived'' (archived_run ''v2'')))
     \<and> handleWorkflow (\<lambda>ns name. NotFound) (index_workflows ws Map.empty) ''dev'' ''run-2''
         = (404, Plain ''{\"error\":\"workflow not found\"}'')"
proof -
  let ?rs = "[archived_run ''v1'', archived_run ''v2'']"
  let ?db = "\<lparr>db_Open = None, db_Query = None, db_Rows = map (\<lambda>r. Inr (Inr r)) ?rs, db_Close = None, db_Err = None\<rparr>"
  have db: "getWorkflowsFromMysql ''archived'' ''db'' ?db = Inr (map (persisted ''archived'') ?rs)"
    by (simp add: getWorkflowsFromMysql_def or_failed_def archived_row_def persisted_def archived_run_def)
  have last: "last_workflow ?rs ''dev'' ''run-1'' = Some (archived_run ''v2'')" "last_workflow ?rs ''dev'' ''run-2'' = None"
    by (simp_all add: last_workflow_def archived_run_def)
  show ?thesis
    using handleWorkflow_serves [OF db, of ?rs "\<lambda>ns name. NotFound" "''dev''" "''run-1''"]
      handleWorkflow_serves [OF db, of ?rs "\<lambda>ns name. NotFound" "''dev''" "''run-2''"] db last by simp
qed

end
