(* ===== verification/Effects.thy ===== *)
theory Effects
  imports Prelude
begin

text \<open>
  Calls with effects: a function of the state of the world that returns a result or a fault and the
  state after it. A fault keeps the effects made before it, as an early return of an error does.
  A client call returns its own error as text.
\<close>

type_synonym ('s, 'a) op = "'s \<Rightarrow> 'a res \<times> 's"

definition return :: "'a \<Rightarrow> ('s, 'a) op" where
  "return x s = (Inr x, s)"

definition throw :: "fault \<Rightarrow> ('s, 'a) op" where
  "throw f s = (Inl f, s)"

definition pure_res :: "'a res \<Rightarrow> ('s, 'a) op" where
  "pure_res r s = (r, s)"

definition bind_op :: "('s, 'a) op \<Rightarrow> ('a \<Rightarrow> ('s, 'b) op) \<Rightarrow> ('s, 'b) op" where
  "bind_op m f s = (case m s of (Inl e, s') \<Rightarrow> (Inl e, s') | (Inr x, s') \<Rightarrow> f x s')"

text \<open>A library call whose error the caller returns as it is, or wraps.\<close>

definition call :: "('s \<Rightarrow> (go_error + 'a) \<times> 's) \<Rightarrow> ('s, 'a) op" where
  "call c s = (case c s of (Inl e, s') \<Rightarrow> (Inl (Failed e), s') | (Inr x, s') \<Rightarrow> (Inr x, s'))"

definition call_wrapped :: "string \<Rightarrow> ('s \<Rightarrow> (go_error + 'a) \<times> 's) \<Rightarrow> ('s, 'a) op" where
  "call_wrapped m c s =
     (case c s of (Inl e, s') \<Rightarrow> (Inl (Failed (Wrapped m e)), s') | (Inr x, s') \<Rightarrow> (Inr x, s'))"

lemma return_simps [simp]: "return x s = (Inr x, s)"
  by (simp add: return_def)

lemma throw_simps [simp]: "throw f s = (Inl f, s)"
  by (simp add: throw_def)

lemma pure_res_simps [simp]: "pure_res r s = (r, s)"
  by (simp add: pure_res_def)

lemma bind_op_Inr [simp]:
  "bind_op m f s = (Inr y, s'') \<longleftrightarrow> (\<exists>x s'. m s = (Inr x, s') \<and> f x s' = (Inr y, s''))"
  by (auto simp: bind_op_def split: prod.splits sum.splits)

lemma bind_op_Inl:
  "bind_op m f s = (Inl e, s'') \<longleftrightarrow>
     m s = (Inl e, s'') \<or> (\<exists>x s'. m s = (Inr x, s') \<and> f x s' = (Inl e, s''))"
  by (auto simp: bind_op_def split: prod.splits sum.splits)

lemma bind_op_eval:
  "m s = (Inr x, s') \<Longrightarrow> bind_op m f s = f x s'"
  "m s = (Inl e, s') \<Longrightarrow> bind_op m f s = (Inl e, s')"
  by (simp_all add: bind_op_def)

lemma call_Inr [simp]: "call c s = (Inr x, s') \<longleftrightarrow> c s = (Inr x, s')"
  by (auto simp: call_def split: prod.splits sum.splits)

lemma call_Inl: "call c s = (Inl f, s') \<longleftrightarrow> (\<exists>e. f = Failed e \<and> c s = (Inl e, s'))"
  by (auto simp: call_def split: prod.splits sum.splits)

lemma call_wrapped_Inr [simp]: "call_wrapped m c s = (Inr x, s') \<longleftrightarrow> c s = (Inr x, s')"
  by (auto simp: call_wrapped_def split: prod.splits sum.splits)

lemma call_wrapped_Inl:
  "call_wrapped m c s = (Inl f, s') \<longleftrightarrow> (\<exists>e. f = Failed (Wrapped m e) \<and> c s = (Inl e, s'))"
  by (auto simp: call_wrapped_def split: prod.splits sum.splits)

section \<open>Properties of the state that calls keep\<close>

text \<open>A call keeps \<open>P\<close> when every outcome of it, errors included, keeps \<open>P\<close>.\<close>

definition keeps :: "('s \<Rightarrow> bool) \<Rightarrow> ('s, 'a) op \<Rightarrow> bool" where
  "keeps P m \<longleftrightarrow> (\<forall>s r s'. m s = (r, s') \<longrightarrow> P s \<longrightarrow> P s')"

named_theorems keeps_rules \<open>calls that keep a property of the state\<close>

lemma keepsD: "keeps P m \<Longrightarrow> m s = (r, s') \<Longrightarrow> P s \<Longrightarrow> P s'"
  by (auto simp: keeps_def)

lemma keeps_return [keeps_rules]: "keeps P (return x)"
  by (simp add: keeps_def)

lemma keeps_throw [keeps_rules]: "keeps P (throw f)"
  by (simp add: keeps_def)

lemma keeps_pure [keeps_rules]: "keeps P (pure_res r)"
  by (simp add: keeps_def)

lemma keeps_bind [keeps_rules]:
  assumes "keeps P m" and "\<And>x. keeps P (f x)"
  shows "keeps P (bind_op m f)"
  unfolding keeps_def
proof (intro allI impI)
  fix s r s' assume r: "bind_op m f s = (r, s')" and P: "P s"
  obtain r1 s1 where m: "m s = (r1, s1)" by fastforce
  then have "P s1" using assms(1) P by (auto simp: keeps_def)
  with r m assms(2) show "P s'" by (cases r1) (auto simp: bind_op_def keeps_def)
qed

lemma keeps_case_option [keeps_rules]:
  "keeps P m \<Longrightarrow> (\<And>x. keeps P (f x)) \<Longrightarrow> keeps P (case z of None \<Rightarrow> m | Some x \<Rightarrow> f x)"
  by (cases z) auto

lemma keeps_if [keeps_rules]: "keeps P m \<Longrightarrow> keeps P n \<Longrightarrow> keeps P (if b then m else n)"
  by auto

lemma keeps_call: "(\<And>s r s'. c s = (r, s') \<Longrightarrow> P s \<Longrightarrow> P s') \<Longrightarrow> keeps P (call c)"
  by (fastforce simp: keeps_def call_def split: prod.splits sum.splits)

lemma keeps_call_wrapped: "(\<And>s r s'. c s = (r, s') \<Longrightarrow> P s \<Longrightarrow> P s') \<Longrightarrow> keeps P (call_wrapped m c)"
  by (fastforce simp: keeps_def call_wrapped_def split: prod.splits sum.splits)

end
