(* ===== verification/Web_Setup.thy ===== *)
theory Web_Setup
  imports Web_Server Effects
begin

text \<open>
  How the web server is put together and reached (\<open>flow_webserver.go\<close>): \<open>SetupWithManager\<close> with everything that it
  starts, \<open>newServer\<close>, the routes, and the way of a request through \<open>http.ServeMux\<close> to its handler. What the
  file system, the database, the manager and the clients answer during the set-up is a parameter.
\<close>

section \<open>Routes\<close>

text \<open>
  A pattern of \<open>http.ServeMux\<close>: a method and the segments of a path. The paths of requests are given by their
  decoded segments; those that the mux redirects to a cleaner path (with empty inner segments or dots) are left out.
  A wildcard does not match the empty segment after a trailing slash. \<open>GET\<close> also serves \<open>HEAD\<close>.
\<close>

datatype path_segment = Literal string | Wildcard string

type_synonym pattern = "string \<times> path_segment list"

definition parse_segment :: "string \<Rightarrow> path_segment" where
  "parse_segment s = (case cut_prefix ''{'' s of None \<Rightarrow> Literal s | Some r \<Rightarrow> Wildcard (trim_suffix ''}'' r))"

definition parse_pattern :: "string \<Rightarrow> pattern option" where
  "parse_pattern p = (case split_on (CHR '' '') p of
     [method, path] \<Rightarrow> Some (method, map parse_segment (tl (split_on (CHR ''/'') path)))
   | _ \<Rightarrow> None)"

fun match_segments :: "path_segment list \<Rightarrow> string list \<Rightarrow> (string \<times> string) list option" where
  "match_segments [] [] = Some []"
| "match_segments (Literal l # ps) (s # ss) = (if s = l then match_segments ps ss else None)"
| "match_segments (Wildcard v # ps) (s # ss) = (if s = [] then None else map_option (Cons (v, s)) (match_segments ps ss))"
| "match_segments _ _ = None"

definition serves_method :: "string \<Rightarrow> string \<Rightarrow> bool" where
  "serves_method method m \<longleftrightarrow> m = method \<or> method = ''GET'' \<and> m = ''HEAD''"

definition match_pattern :: "pattern \<Rightarrow> string \<Rightarrow> string list \<Rightarrow> (string \<times> string) list option" where
  "match_pattern p m segs = (if serves_method (fst p) m then match_segments (snd p) segs else None)"

text \<open>The first pattern that matches; which one is first does not matter when no request matches two.\<close>

fun find_route :: "(pattern \<times> 'e) list \<Rightarrow> string \<Rightarrow> string list \<Rightarrow> ('e \<times> (string \<times> string) list) option" where
  "find_route [] m segs = None"
| "find_route ((p, e) # rs) m segs =
     (case match_pattern p m segs of Some bs \<Rightarrow> Some (e, bs) | None \<Rightarrow> find_route rs m segs)"

text \<open>\<open>HandleFunc\<close> panics on a pattern that it cannot parse.\<close>

fun handle_funcs :: "(string \<times> 'e) list \<Rightarrow> (pattern \<times> 'e) list \<Rightarrow> (pattern \<times> 'e) list res" where
  "handle_funcs [] mux = Inr mux"
| "handle_funcs ((p, e) # rs) mux = and_then (deref (parse_pattern p)) (\<lambda>q. handle_funcs rs (mux @ [(q, e)]))"

datatype endpoint =
    WebsocketRoute
  | FlowRoute
  | ApplicationRoute
  | PodRoute
  | RolloutRoute
  | WorkflowRoute
  | SyncRoute

definition routes :: "(string \<times> endpoint) list" where
  "routes =
     [(''GET /ws'', WebsocketRoute),
      (''GET /api/v1/namespaces/{namespace}/flows/{name}'', FlowRoute),
      (''GET /api/v1/namespaces/{namespace}/applications/{name}'', ApplicationRoute),
      (''GET /api/v1/namespaces/{namespace}/pods/{name}'', PodRoute),
      (''GET /api/v1/namespaces/{namespace}/rollouts/{name}'', RolloutRoute),
      (''GET /api/v1/namespaces/{namespace}/workflows/{name}'', WorkflowRoute),
      (''POST /api/v1/namespaces/{namespace}/applications/{name}/sync'', SyncRoute)]"

section \<open>Setting up\<close>

type_synonym mux = "(pattern \<times> endpoint) list"

text \<open>Durations are nanoseconds.\<close>

record http_server =
  srv_Handler :: mux
  MaxHeaderBytes :: int
  IdleTimeout :: int
  ReadHeaderTimeout :: int

definition newServer :: "mux \<Rightarrow> http_server" where
  "newServer handler = \<lparr>srv_Handler = handler, MaxHeaderBytes = 2 ^ 20, IdleTimeout = 90 * 1000000000,
     ReadHeaderTimeout = 32 * 1000000000\<rparr>"

record manager_server =
  ms_Name :: string
  ms_Server :: http_server
  ms_Listener :: string

text \<open>\<open>FlowWebServer\<close>; the scheme is what the watcher uses of it, and pointers may be nil.\<close>

record flow_web_server =
  BindAddress :: string
  WorkflowMysqlAddress :: string
  ArgoCDKey :: string
  scheme_gvk :: "go_type \<Rightarrow> go_error + string \<times> string"
  ControllerPodNamespace :: string
  ControllerPodName :: string
  flowWatcher :: "flow_watcher option"
  mysqlWorkflowsMap :: workflow_index
  syncClient :: "sync_client option"

text \<open>What the environment answers to the calls of the set-up.\<close>

record setup_env =
  se_Label :: string
  se_Archive :: "string \<Rightarrow> archive_db"
  se_ReadFile :: "string \<Rightarrow> go_error + string"
  se_NewArgoClient :: "client_options \<Rightarrow> go_error option"
  se_NewKubeClient :: "go_error option"
  se_Listen :: "string \<Rightarrow> string \<Rightarrow> go_error option"
  se_Add :: "manager_server \<Rightarrow> go_error option"
  se_GetInformer :: "go_type \<Rightarrow> go_error option"
  se_AddEventHandler :: "go_type \<Rightarrow> go_error option"

text \<open>What the set-up leaves behind, in order.\<close>

datatype setup_effect =
    Listening string
  | ServerAdded manager_server
  | RunLoopStarted
  | InformerWatched go_type

record setup_state =
  web :: flow_web_server
  effects :: "setup_effect list"

definition must :: "string \<Rightarrow> go_error option \<Rightarrow> ('s, unit) op" where
  "must msg err = pure_res (or_failed msg err (Inr ()))"

definition set_web :: "(flow_web_server \<Rightarrow> flow_web_server) \<Rightarrow> (setup_state, unit) op" where
  "set_web f st = (Inr (), st\<lparr>web := f (web st)\<rparr>)"

definition emit :: "setup_effect list \<Rightarrow> (setup_state, unit) op" where
  "emit xs st = (Inr (), st\<lparr>effects := effects st @ xs\<rparr>)"

text \<open>The informers that got their callbacks before an error of \<open>setupWatcher\<close>, which starts the run loop first.\<close>

definition informers_watched :: "setup_env \<Rightarrow> go_type list" where
  "informers_watched env =
     map fst (takeWhile (\<lambda>t. \<not> isl (setup_informer (se_GetInformer env) (se_AddEventHandler env) t)) informer_types)"

definition set_up_watcher :: "setup_env \<Rightarrow> (setup_state, unit) op" where
  "set_up_watcher env = bind_op (emit (RunLoopStarted # map InformerWatched (informers_watched env))) (\<lambda>_.
     pure_res (case setupWatcher (se_GetInformer env) (se_AddEventHandler env) of
       Inl e \<Rightarrow> Inl (Failed (Wrapped ''failed to set up watcher for webserver'' e)) | Inr _ \<Rightarrow> Inr ()))"

definition load_workflows :: "setup_env \<Rightarrow> flow_web_server \<Rightarrow> (setup_state, resource list) op" where
  "load_workflows env s =
     bind_op (pure_res (wrap (''failed to fetch mysql workflows from '' @ WorkflowMysqlAddress s)
       (getWorkflowsFromMysql (se_Label env) (WorkflowMysqlAddress s) (se_Archive env (WorkflowMysqlAddress s))))) (\<lambda>mysqlWorkflows.
     bind_op (set_web (mysqlWorkflowsMap_update (\<lambda>_. index_workflows mysqlWorkflows Map.empty))) (\<lambda>_.
     return mysqlWorkflows))"

definition load_sync_client :: "setup_env \<Rightarrow> flow_web_server \<Rightarrow> (setup_state, unit) op" where
  "load_sync_client env s = (case se_ReadFile env (ArgoCDKey s) of
     Inl e \<Rightarrow> throw (Failed (Wrapped ''failed to read ArgoCD key'' e))
   | Inr argocdCredBytes \<Rightarrow> (case NewSyncClient (se_NewArgoClient env) (trim_space argocdCredBytes) of
       Inl e \<Rightarrow> bind_op (set_web (syncClient_update (\<lambda>_. None))) (\<lambda>_.
         throw (Failed (Wrapped ''failed to create ArgoCD sync client'' e)))
     | Inr c \<Rightarrow> set_web (syncClient_update (\<lambda>_. Some c))))"

definition new_watcher :: "flow_web_server \<Rightarrow> resource list \<Rightarrow> flow_watcher" where
  "new_watcher s workflows = \<lparr>mysqlWorkflows = workflows, controllerPodNamespace = ControllerPodNamespace s,
     controllerPodName = ControllerPodName s, gvk = scheme_gvk s\<rparr>"

definition SetupWithManager :: "setup_env \<Rightarrow> flow_web_server \<Rightarrow> (setup_state, unit) op" where
  "SetupWithManager env s =
     bind_op (load_workflows env s) (\<lambda>mysqlWorkflows.
     bind_op (load_sync_client env s) (\<lambda>_.
     bind_op (must ''failed to create kube client'' (se_NewKubeClient env)) (\<lambda>_.
     bind_op (must ''webserver failed to listen'' (se_Listen env ''tcp'' (BindAddress s))) (\<lambda>_.
     bind_op (emit [Listening (BindAddress s)]) (\<lambda>_.
     bind_op (pure_res (handle_funcs routes [])) (\<lambda>mux.
     let server = \<lparr>ms_Name = ''jettison server'', ms_Server = newServer mux, ms_Listener = BindAddress s\<rparr> in
     bind_op (must ''failed to add webserver to manager'' (se_Add env server)) (\<lambda>_.
     bind_op (emit [ServerAdded server]) (\<lambda>_.
     bind_op (set_up_watcher env) (\<lambda>_.
     set_web (flowWatcher_update (\<lambda>_. Some (new_watcher s mysqlWorkflows))))))))))))"

section \<open>Requests\<close>

text \<open>What the cluster, the clock and ArgoCD answer during a request, and the upgrade of the socket at a new address.\<close>

record request_env =
  re_Get :: "go_type \<Rightarrow> string \<Rightarrow> string \<Rightarrow> resource lookup"
  re_Now :: "64 word"
  re_Argo :: argo_api
  re_Upgraded :: bool
  re_Conn :: nat

text \<open>A handler answers, goes on as the goroutine of a socket, or panics on a nil pointer.\<close>

datatype http_result = Answered response | Socket prog | HandlerPanic

definition path_value :: "(string \<times> string) list \<Rightarrow> string \<Rightarrow> string" where
  "path_value bs v = (case map_of bs v of None \<Rightarrow> [] | Some x \<Rightarrow> x)"

definition handle :: "flow_web_server \<Rightarrow> request_env \<Rightarrow> string \<Rightarrow> endpoint \<Rightarrow> string \<Rightarrow> string \<Rightarrow> http_result \<times> flow_web_server" where
  "handle s env rawQuery e ns name = (case e of
     WebsocketRoute \<Rightarrow>
       (if re_Upgraded env \<and> flowWatcher s = None then HandlerPanic
        else Socket (handleWebsocket (re_Upgraded env) rawQuery (re_Conn env)), s)
   | FlowRoute \<Rightarrow> (Answered (handleFlow (re_Get env FlowType) ns name), s)
   | ApplicationRoute \<Rightarrow> (Answered (handleApplication (re_Get env ApplicationType) ns name), s)
   | PodRoute \<Rightarrow> (Answered (handlePod (re_Get env PodType) ns name), s)
   | RolloutRoute \<Rightarrow> (Answered (handleRollout (re_Get env RolloutType) ns name), s)
   | WorkflowRoute \<Rightarrow> (Answered (handleWorkflow (re_Get env WorkflowType) (mysqlWorkflowsMap s) ns name), s)
   | SyncRoute \<Rightarrow> (case syncClient s of
       None \<Rightarrow> (HandlerPanic, s)
     | Some c \<Rightarrow> (case syncApplication_handler (re_Now env) (re_Argo env) ns name c of
         (r, c') \<Rightarrow> (Answered r, s\<lparr>syncClient := Some c'\<rparr>))))"

definition StatusMethodNotAllowed :: nat where "StatusMethodNotAllowed = 405"

definition newline :: string where "newline = [CHR 0x0A]"

text \<open>
  \<open>ServeHTTP\<close> of the mux, on the segments of a clean path (others are redirected first, which is not
  modelled); a path that only other methods serve is refused with the status 405.
\<close>

definition serve_http :: "mux \<Rightarrow> flow_web_server \<Rightarrow> request_env \<Rightarrow> string \<Rightarrow> string list \<Rightarrow> string
    \<Rightarrow> http_result \<times> flow_web_server" where
  "serve_http mux s env m segs rawQuery = (case find_route mux m segs of
     Some (e, bs) \<Rightarrow> handle s env rawQuery e (path_value bs ''namespace'') (path_value bs ''name'')
   | None \<Rightarrow> (Answered
       (if \<exists>r \<in> set mux. match_segments (snd (fst r)) segs \<noteq> None
        then (StatusMethodNotAllowed, Plain (''Method Not Allowed'' @ newline))
        else (StatusNotFound, Plain (''404 page not found'' @ newline))), s))"

section \<open>The way of a request\<close>

lemma match_segments_Some:
  "match_segments [] segs = Some bs \<longleftrightarrow> segs = [] \<and> bs = []"
  "match_segments (Literal l # ps) segs = Some bs \<longleftrightarrow> (\<exists>ss. segs = l # ss \<and> match_segments ps ss = Some bs)"
  "match_segments (Wildcard v # ps) segs = Some bs \<longleftrightarrow>
     (\<exists>s ss bs'. segs = s # ss \<and> s \<noteq> [] \<and> bs = (v, s) # bs' \<and> match_segments ps ss = Some bs')"
  by (cases segs; auto)+

lemma find_route_Some: "find_route rs m segs = Some (e, bs) \<Longrightarrow> \<exists>p. (p, e) \<in> set rs \<and> match_pattern p m segs = Some bs"
  by (induction rs m segs rule: find_route.induct) (auto split: option.splits)

lemma find_route_None: "find_route rs m segs = None \<longleftrightarrow> (\<forall>r \<in> set rs. match_pattern (fst r) m segs = None)"
  by (induction rs m segs rule: find_route.induct) (auto split: option.splits)

text \<open>A table in which no request matches two patterns: the order of registration does not matter.\<close>

locale disjoint_routes =
  fixes rs :: "(pattern \<times> 'e) list"
  assumes apart: "r \<in> set rs \<Longrightarrow> r' \<in> set rs \<Longrightarrow> match_pattern (fst r) m segs = Some bs \<Longrightarrow>
    match_pattern (fst r') m segs = Some bs' \<Longrightarrow> r = r'"
begin

lemma find_route_iff:
  "find_route rs m segs = Some (e, bs) \<longleftrightarrow> (\<exists>p. (p, e) \<in> set rs \<and> match_pattern p m segs = Some bs)"
proof
  assume "\<exists>p. (p, e) \<in> set rs \<and> match_pattern p m segs = Some bs"
  then obtain p where p: "(p, e) \<in> set rs" "match_pattern p m segs = Some bs" by blast
  then have "find_route rs m segs \<noteq> None" unfolding find_route_None by fastforce
  then obtain e' bs' where f: "find_route rs m segs = Some (e', bs')" by auto
  from find_route_Some [OF this] obtain p' where p': "(p', e') \<in> set rs" "match_pattern p' m segs = Some bs'" by blast
  with p apart [of "(p, e)" "(p', e')" m segs bs bs'] f show "find_route rs m segs = Some (e, bs)" by simp
qed (rule find_route_Some)

lemma find_route_order:
  assumes "set rs' = set rs"
  shows "find_route rs' m segs = find_route rs m segs"
proof (cases "find_route rs' m segs")
  case None
  then show ?thesis using assms by (simp add: find_route_None [THEN iffD2] find_route_None)
next
  case (Some f)
  then obtain e bs where "find_route rs' m segs = Some (e, bs)" by (cases f) simp
  with find_route_Some [OF this] assms find_route_iff [of m segs e bs] show ?thesis by simp
qed

end

text \<open>The table of the web server.\<close>

definition object_path :: "string \<Rightarrow> path_segment list" where
  "object_path kind = [Literal ''api'', Literal ''v1'', Literal ''namespaces'', Wildcard ''namespace'', Literal kind, Wildcard ''name'']"

definition route_table :: mux where
  "route_table =
     [((''GET'', [Literal ''ws'']), WebsocketRoute), ((''GET'', object_path ''flows''), FlowRoute),
      ((''GET'', object_path ''applications''), ApplicationRoute), ((''GET'', object_path ''pods''), PodRoute),
      ((''GET'', object_path ''rollouts''), RolloutRoute), ((''GET'', object_path ''workflows''), WorkflowRoute),
      ((''POST'', object_path ''applications'' @ [Literal ''sync'']), SyncRoute)]"

lemma routes_registered: "handle_funcs routes [] = Inr route_table"
  by code_simp

lemma match_object_path:
  "match_segments (object_path kind) segs = Some bs \<longleftrightarrow> (\<exists>ns name. ns \<noteq> [] \<and> name \<noteq> []
     \<and> segs = [''api'', ''v1'', ''namespaces'', ns, kind, name] \<and> bs = [(''namespace'', ns), (''name'', name)])"
  by (auto simp: object_path_def match_segments_Some)

lemma match_sync_path:
  "match_segments (object_path kind @ [Literal act]) segs = Some bs \<longleftrightarrow> (\<exists>ns name. ns \<noteq> [] \<and> name \<noteq> []
     \<and> segs = [''api'', ''v1'', ''namespaces'', ns, kind, name, act] \<and> bs = [(''namespace'', ns), (''name'', name)])"
  by (auto simp: object_path_def match_segments_Some)

lemmas match_paths = match_object_path match_sync_path match_segments_Some

text \<open>Where requests go, by their method and path: the route with the namespace and the name of the path.\<close>

definition object_routes :: "string \<rightharpoonup> endpoint" where
  "object_routes = [''flows'' \<mapsto> FlowRoute, ''applications'' \<mapsto> ApplicationRoute, ''pods'' \<mapsto> PodRoute,
     ''rollouts'' \<mapsto> RolloutRoute, ''workflows'' \<mapsto> WorkflowRoute]"

definition destination :: "string \<Rightarrow> string list \<Rightarrow> (endpoint \<times> string \<times> string) option" where
  "destination m segs = (case segs of
     [x] \<Rightarrow> if x = ''ws'' \<and> m \<in> {''GET'', ''HEAD''} then Some (WebsocketRoute, [], []) else None
   | [x, y, z, ns, kind, name] \<Rightarrow>
       if [x, y, z] = [''api'', ''v1'', ''namespaces''] \<and> ns \<noteq> [] \<and> name \<noteq> [] \<and> m \<in> {''GET'', ''HEAD''}
       then map_option (\<lambda>e. (e, ns, name)) (object_routes kind) else None
   | [x, y, z, ns, kind, name, act] \<Rightarrow>
       if [x, y, z, kind, act] = [''api'', ''v1'', ''namespaces'', ''applications'', ''sync''] \<and> ns \<noteq> [] \<and> name \<noteq> []
         \<and> m = ''POST'' then Some (SyncRoute, ns, name) else None
   | _ \<Rightarrow> None)"

lemma destination_of_match:
  assumes "(p, e) \<in> set route_table" and "match_pattern p m segs = Some bs"
  shows "destination m segs = Some (e, path_value bs ''namespace'', path_value bs ''name'')"
proof -
  have "serves_method (fst p) m" and m: "match_segments (snd p) segs = Some bs"
    using assms(2) by (simp_all add: match_pattern_def split: if_splits)
  then have "fst p = ''GET'' \<Longrightarrow> m \<in> {''GET'', ''HEAD''}" "fst p = ''POST'' \<Longrightarrow> m = ''POST''"
    by (auto simp: serves_method_def)
  with assms(1) m show ?thesis
    unfolding route_table_def
    by (auto simp: match_paths destination_def object_routes_def path_value_def)
qed

interpretation table: disjoint_routes route_table
proof
  fix r r' :: "pattern \<times> endpoint" and m segs bs bs'
  assume r: "r \<in> set route_table" "r' \<in> set route_table"
    "match_pattern (fst r) m segs = Some bs" "match_pattern (fst r') m segs = Some bs'"
  then have "snd r = snd r'"
    using destination_of_match [of "fst r" "snd r" m segs bs] destination_of_match [of "fst r'" "snd r'" m segs bs'] by simp
  moreover have "distinct (map snd route_table)" by (simp add: route_table_def)
  ultimately show "r = r'" using r(1,2) by (auto simp: distinct_map dest: inj_onD)
qed

lemma find_destination:
  "map_option (\<lambda>(e, bs). (e, path_value bs ''namespace'', path_value bs ''name'')) (find_route route_table m segs)
     = destination m segs"
proof (cases "find_route route_table m segs")
  case (Some f)
  then obtain e bs where f: "find_route route_table m segs = Some (e, bs)" by (cases f) simp
  then obtain p where "(p, e) \<in> set route_table" "match_pattern p m segs = Some bs"
    using table.find_route_iff by blast
  with f show ?thesis by (simp add: destination_of_match)
next
  case None
  have "destination m segs = None"
  proof (rule ccontr)
    assume "destination m segs \<noteq> None"
    then obtain e ns name where "destination m segs = Some (e, ns, name)" by auto
    then have "\<exists>r \<in> set route_table. match_pattern (fst r) m segs \<noteq> None"
      by (auto simp: destination_def object_routes_def route_table_def match_pattern_def serves_method_def match_paths
          split: list.splits if_splits)
    with None show False unfolding find_route_None by (metis (full_types))
  qed
  with None show ?thesis by simp
qed

lemma other_method:
  "(\<exists>r \<in> set route_table. match_segments (snd (fst r)) segs \<noteq> None)
     \<longleftrightarrow> destination ''GET'' segs \<noteq> None \<or> destination ''POST'' segs \<noteq> None" (is "?l \<longleftrightarrow> ?r")
proof
  assume ?l
  then obtain p e bs where p: "(p, e) \<in> set route_table" "match_segments (snd p) segs = Some bs" by auto
  then have "fst p = ''GET'' \<or> fst p = ''POST''" by (auto simp: route_table_def)
  moreover have "match_pattern p (fst p) segs = Some bs" using p(2) by (simp add: match_pattern_def serves_method_def)
  ultimately show ?r using destination_of_match [OF p(1)] by fastforce
next
  assume ?r
  then obtain m where "destination m segs \<noteq> None" by blast
  then have "find_route route_table m segs \<noteq> None" by (simp flip: find_destination)
  then obtain r where "r \<in> set route_table" "match_pattern (fst r) m segs \<noteq> None"
    unfolding find_route_None by blast
  then show ?l by (auto simp: match_pattern_def split: if_splits)
qed

lemma serve_http_route_table:
  "serve_http route_table s q m segs rawQuery = (case destination m segs of
     Some (e, ns, name) \<Rightarrow> handle s q rawQuery e ns name
   | None \<Rightarrow> (Answered
       (if destination ''GET'' segs \<noteq> None \<or> destination ''POST'' segs \<noteq> None
        then (405, Plain (''Method Not Allowed'' @ newline)) else (404, Plain (''404 page not found'' @ newline))), s))"
  unfolding serve_http_def other_method find_destination [symmetric]
  by (auto simp: StatusMethodNotAllowed_def StatusNotFound_def split: option.split)

section \<open>A complete set-up\<close>

lemma must_Inr [simp]: "must msg err st = (Inr (), st') \<longleftrightarrow> err = None \<and> st' = st"
  by (auto simp: must_def)

lemma must_Inl: "must msg err st = (Inl f, st') \<longleftrightarrow> (\<exists>e. err = Some e \<and> f = Failed (Wrapped msg e)) \<and> st' = st"
  by (auto simp: must_def or_failed_def split: option.splits)

lemma emit_eval [simp]: "emit xs st = (Inr (), st\<lparr>effects := effects st @ xs\<rparr>)"
  by (simp add: emit_def)

lemma set_web_eval [simp]: "set_web f st = (Inr (), st\<lparr>web := f (web st)\<rparr>)"
  by (simp add: set_web_def)

definition informers_ready :: "setup_env \<Rightarrow> bool" where
  "informers_ready env \<longleftrightarrow> (\<forall>t \<in> {FlowType, ApplicationType, RolloutType, WorkflowType, PodType}.
     se_GetInformer env t = None \<and> se_AddEventHandler env t = None)"

lemma setupWatcher_Inr:
  "isl (setupWatcher (se_GetInformer env) (se_AddEventHandler env)) \<longleftrightarrow> \<not> informers_ready env"
  by (auto simp: setupWatcher_def informer_types_def setup_informer_def informers_ready_def split: option.splits)

lemma informers_all_watched:
  "informers_ready env \<Longrightarrow> informers_watched env = [FlowType, ApplicationType, RolloutType, WorkflowType, PodType]"
  by (simp add: informers_watched_def informers_ready_def informer_types_def setup_informer_def)

lemma set_up_watcher_Inr:
  "set_up_watcher env st = (Inr (), st') \<longleftrightarrow> informers_ready env
     \<and> st' = st\<lparr>effects := effects st @ RunLoopStarted
         # map InformerWatched [FlowType, ApplicationType, RolloutType, WorkflowType, PodType]\<rparr>"
  using setupWatcher_Inr [of env]
  by (cases "setupWatcher (se_GetInformer env) (se_AddEventHandler env)")
     (auto simp: set_up_watcher_def informers_all_watched)

text \<open>What is left by a set-up without error.\<close>

definition the_server :: "flow_web_server \<Rightarrow> manager_server" where
  "the_server s = \<lparr>ms_Name = ''jettison server'', ms_Server = newServer route_table, ms_Listener = BindAddress s\<rparr>"

definition ready_web :: "flow_web_server \<Rightarrow> resource list \<Rightarrow> string \<Rightarrow> flow_web_server \<Rightarrow> flow_web_server" where
  "ready_web s workflows cred s' = s'\<lparr>mysqlWorkflowsMap := index_workflows workflows Map.empty,
     syncClient := Some \<lparr>argocdCred = trim_space cred, argocdAuthToken = [], lastTokenRefreshTime = 0\<rparr>,
     flowWatcher := Some (new_watcher s workflows)\<rparr>"

definition setup_effects :: "flow_web_server \<Rightarrow> setup_effect list" where
  "setup_effects s = [Listening (BindAddress s), ServerAdded (the_server s), RunLoopStarted]
     @ map InformerWatched [FlowType, ApplicationType, RolloutType, WorkflowType, PodType]"

definition setup_ready :: "setup_env \<Rightarrow> flow_web_server \<Rightarrow> resource list \<Rightarrow> string \<Rightarrow> bool" where
  "setup_ready env s workflows cred \<longleftrightarrow>
     getWorkflowsFromMysql (se_Label env) (WorkflowMysqlAddress s) (se_Archive env (WorkflowMysqlAddress s)) = Inr workflows
     \<and> se_ReadFile env (ArgoCDKey s) = Inr cred
     \<and> se_NewArgoClient env \<lparr>ServerAddr = ''argocd-server.argocd'', PlainText = True, AuthToken = []\<rparr> = None
     \<and> se_NewKubeClient env = None \<and> se_Listen env ''tcp'' (BindAddress s) = None
     \<and> se_Add env (the_server s) = None \<and> informers_ready env"

lemma load_sync_client_Inr:
  "load_sync_client env s st = (Inr (), st') \<longleftrightarrow> (\<exists>cred. se_ReadFile env (ArgoCDKey s) = Inr cred
     \<and> se_NewArgoClient env \<lparr>ServerAddr = ''argocd-server.argocd'', PlainText = True, AuthToken = []\<rparr> = None
     \<and> st' = st\<lparr>web := (web st)\<lparr>syncClient :=
         Some \<lparr>argocdCred = trim_space cred, argocdAuthToken = [], lastTokenRefreshTime = 0\<rparr>\<rparr>\<rparr>)"
  by (auto simp: load_sync_client_def NewSyncClient_def argocdServerAddr_def split: sum.splits option.splits)

lemma load_workflows_Inr:
  "load_workflows env s st = (Inr ws, st') \<longleftrightarrow>
     getWorkflowsFromMysql (se_Label env) (WorkflowMysqlAddress s) (se_Archive env (WorkflowMysqlAddress s)) = Inr ws
     \<and> st' = st\<lparr>web := (web st)\<lparr>mysqlWorkflowsMap := index_workflows ws Map.empty\<rparr>\<rparr>"
  by (auto simp: load_workflows_def)

lemma SetupWithManager_Inr:
  "SetupWithManager env s st = (Inr (), st') \<longleftrightarrow> (\<exists>workflows cred. setup_ready env s workflows cred
     \<and> st' = st\<lparr>web := ready_web s workflows cred (web st), effects := effects st @ setup_effects s\<rparr>)"
  unfolding SetupWithManager_def setup_ready_def
  by (auto simp: load_workflows_Inr load_sync_client_Inr routes_registered set_up_watcher_Inr Let_def the_server_def
      ready_web_def setup_effects_def)

section \<open>Properties\<close>

text \<open>The answer with an object, or the error that names its kind.\<close>

definition lookup_answer :: "string \<Rightarrow> resource lookup \<Rightarrow> response" where
  "lookup_answer kind r = (case r of
     Found x \<Rightarrow> (200, Encoded x)
   | NotFound \<Rightarrow> (404, Plain (''{\"error\":\"'' @ kind @ '' not found\"}''))
   | LookupError e \<Rightarrow> (500, Plain (''{\"error\":\"failed to fetch '' @ kind @ ''\"}'')))"

lemma handlers_answer:
  "handleFlow get ns name = lookup_answer ''flow'' (get ns name)"
  "handleApplication get ns name = lookup_answer ''application'' (get ns name)"
  "handlePod get ns name = lookup_answer ''pod'' (get ns name)"
  "handleRollout get ns name = lookup_answer ''rollout'' (get ns name)"
  by (auto simp: handleFlow_def handleApplication_def handlePod_def handleRollout_def lookup_answer_def
      StatusOK_def StatusNotFound_def StatusInternalServerError_def split: lookup.split)

text \<open>A workflow that the cluster does not have is taken from the archive.\<close>

definition or_archived :: "string \<Rightarrow> resource list \<Rightarrow> string \<Rightarrow> string \<Rightarrow> resource lookup \<Rightarrow> resource lookup" where
  "or_archived label rows ns name r = (case r of
     NotFound \<Rightarrow> (case last_workflow rows ns name of None \<Rightarrow> NotFound | Some w \<Rightarrow> Found (persisted label w))
   | _ \<Rightarrow> r)"

lemma handleWorkflow_answers:
  assumes "getWorkflowsFromMysql label addr db = Inr ws" and "db_Rows db = map (\<lambda>r. Inr (Inr r)) rows"
  shows "handleWorkflow get (index_workflows ws Map.empty) ns name
    = lookup_answer ''workflow'' (or_archived label rows ns name (get ns name))"
proof -
  have "getMysqlWorkflow (index_workflows ws Map.empty) ns name = map_option (persisted label) (last_workflow rows ns name)"
    by (rule archive_lookup [OF assms])
  then show ?thesis
    by (auto simp: handleWorkflow_def or_archived_def lookup_answer_def StatusOK_def StatusNotFound_def
        StatusInternalServerError_def split: lookup.splits option.splits)
qed

text \<open>
  C19. After a set-up without error every request is answered through the routes that it registered, and no handler
  meets a nil pointer: a \<open>GET\<close> or \<open>HEAD\<close> of an object, by kind, namespace and name, with what the
  cluster has of that type under that key (a workflow also from the archive, as last recorded), or with the error of its kind; a
  \<open>POST\<close> of a sync by the ArgoCD client; \<open>/ws\<close> by a socket of its own; any other request by
  405 when another method serves its path, and by 404 otherwise. The paths are those that \<open>http.ServeMux\<close>
  serves as they are; a path that it redirects to a cleaner one (empty, \<open>.\<close> or \<open>..\<close> segments) is outside.
\<close>

theorem requests_answered:
  assumes "SetupWithManager env s \<lparr>web = s, effects = []\<rparr> = (Inr (), st)"
    and "ServerAdded srv \<in> set (effects st)"
    and "db_Rows (se_Archive env (WorkflowMysqlAddress s)) = map (\<lambda>r. Inr (Inr r)) rows"
  shows "serve_http (srv_Handler (ms_Server srv)) (web st) q m segs rawQuery =
    (case destination m segs of
       Some (WebsocketRoute, _, _) \<Rightarrow> (Socket (handleWebsocket (re_Upgraded q) rawQuery (re_Conn q)), web st)
     | Some (FlowRoute, ns, name) \<Rightarrow> (Answered (lookup_answer ''flow'' (re_Get q FlowType ns name)), web st)
     | Some (ApplicationRoute, ns, name) \<Rightarrow>
         (Answered (lookup_answer ''application'' (re_Get q ApplicationType ns name)), web st)
     | Some (PodRoute, ns, name) \<Rightarrow> (Answered (lookup_answer ''pod'' (re_Get q PodType ns name)), web st)
     | Some (RolloutRoute, ns, name) \<Rightarrow> (Answered (lookup_answer ''rollout'' (re_Get q RolloutType ns name)), web st)
     | Some (WorkflowRoute, ns, name) \<Rightarrow>
         (Answered (lookup_answer ''workflow'' (or_archived (se_Label env) rows ns name (re_Get q WorkflowType ns name))), web st)
     | Some (SyncRoute, ns, name) \<Rightarrow>
         (case syncApplication_handler (re_Now q) (re_Argo q) ns name (the (syncClient (web st))) of
            (r, c) \<Rightarrow> (Answered r, (web st)\<lparr>syncClient := Some c\<rparr>))
     | None \<Rightarrow> (Answered
         (if destination ''GET'' segs \<noteq> None \<or> destination ''POST'' segs \<noteq> None
          then (405, Plain (''Method Not Allowed'' @ newline)) else (404, Plain (''404 page not found'' @ newline))), web st))"
proof -
  obtain ws cred where ready: "setup_ready env s ws cred" and web: "web st = ready_web s ws cred s"
    and effects: "effects st = setup_effects s"
    using assms(1) unfolding SetupWithManager_Inr by auto
  have mux: "srv_Handler (ms_Server srv) = route_table"
    using assms(2) by (auto simp: effects setup_effects_def the_server_def newServer_def)
  have loaded: "getWorkflowsFromMysql (se_Label env) (WorkflowMysqlAddress s) (se_Archive env (WorkflowMysqlAddress s)) = Inr ws"
    using ready by (simp add: setup_ready_def)
  have workflows: "handleWorkflow get (mysqlWorkflowsMap (web st)) ns name
      = lookup_answer ''workflow'' (or_archived (se_Label env) rows ns name (get ns name))" for get ns name
    by (simp add: web ready_web_def handleWorkflow_answers [OF loaded assms(3)])
  have "flowWatcher (web st) \<noteq> None" "syncClient (web st) \<noteq> None" by (simp_all add: web ready_web_def)
  then show ?thesis
    unfolding mux serve_http_route_table
    by (auto simp: handle_def handlers_answer workflows split: option.split endpoint.split)
qed

text \<open>An environment in which everything works, with one archived workflow.\<close>

definition sample_setup :: setup_env where
  "sample_setup = \<lparr>se_Label = ''archived'',
     se_Archive = (\<lambda>addr. \<lparr>db_Open = None, db_Query = None, db_Rows = [Inr (Inr (archived_run ''v1''))], db_Close = None,
       db_Err = None\<rparr>),
     se_ReadFile = (\<lambda>f. Inr (''pw'' @ newline)), se_NewArgoClient = (\<lambda>opts. None), se_NewKubeClient = None,
     se_Listen = (\<lambda>net addr. None), se_Add = (\<lambda>srv. None), se_GetInformer = (\<lambda>t. None),
     se_AddEventHandler = (\<lambda>t. None)\<rparr>"

definition sample_web :: flow_web_server where
  "sample_web = \<lparr>BindAddress = '':2846'', WorkflowMysqlAddress = ''/argo'', ArgoCDKey = ''/key'',
     scheme_gvk = (\<lambda>t. Inr (''v1'', ''Kind'')), ControllerPodNamespace = ''jettison'', ControllerPodName = ''controller-0'',
     flowWatcher = None, mysqlWorkflowsMap = Map.empty, syncClient = None\<rparr>"

definition empty_cluster :: request_env where
  "empty_cluster = \<lparr>re_Get = (\<lambda>t ns name. NotFound), re_Now = 1700000000,
     re_Argo = \<lparr>NewSessionClient = None, CreateSession = (\<lambda>u p. Inr ''token''), NewClient = (\<lambda>opts. None),
       NewApplicationClient = (\<lambda>opts. None), SyncApp = (\<lambda>opts r. None)\<rparr>, re_Upgraded = True, re_Conn = 1\<rparr>"

lemma sample_ready:
  "setup_ready sample_setup sample_web [persisted ''archived'' (archived_run ''v1'')] (''pw'' @ newline)"
  by (simp add: setup_ready_def sample_setup_def sample_web_def informers_ready_def getWorkflowsFromMysql_def
      or_failed_def archived_row_def archived_run_def persisted_def)

lemma trimmed: "trim_space (''pw'' @ newline) = ''pw''"
  by code_simp

lemma requests_answered_witness:
  "\<exists>st. SetupWithManager sample_setup sample_web \<lparr>web = sample_web, effects = []\<rparr> = (Inr (), st)
     \<and> argocdCred (the (syncClient (web st))) = ''pw''
     \<and> serve_http route_table (web st) empty_cluster ''GET''
          [''api'', ''v1'', ''namespaces'', ''dev'', ''workflows'', ''run-1''] []
        = (Answered (200, Encoded (persisted ''archived'' (archived_run ''v1''))), web st)
     \<and> serve_http route_table (web st) empty_cluster ''POST'' [''ws''] []
        = (Answered (405, Plain (''Method Not Allowed'' @ newline)), web st)"
proof -
  let ?st = "\<lparr>web = ready_web sample_web [persisted ''archived'' (archived_run ''v1'')] (''pw'' @ newline) sample_web,
    effects = setup_effects sample_web\<rparr>"
  have run: "SetupWithManager sample_setup sample_web \<lparr>web = sample_web, effects = []\<rparr> = (Inr (), ?st)"
    unfolding SetupWithManager_Inr using sample_ready by auto
  have "ServerAdded (the_server sample_web) \<in> set (effects ?st)" by (simp add: setup_effects_def)
  moreover have "db_Rows (se_Archive sample_setup (WorkflowMysqlAddress sample_web)) = map (\<lambda>r. Inr (Inr r)) [archived_run ''v1'']"
    by (simp add: sample_setup_def)
  moreover have "srv_Handler (ms_Server (the_server sample_web)) = route_table"
    by (simp add: the_server_def newServer_def)
  ultimately have answers: "serve_http route_table (web ?st) empty_cluster ''GET''
      [''api'', ''v1'', ''namespaces'', ''dev'', ''workflows'', ''run-1''] []
      = (Answered (200, Encoded (persisted ''archived'' (archived_run ''v1''))), web ?st)"
    "serve_http route_table (web ?st) empty_cluster ''POST'' [''ws''] []
      = (Answered (405, Plain (''Method Not Allowed'' @ newline)), web ?st)"
    using requests_answered [OF run, of "the_server sample_web" "[archived_run ''v1'']" empty_cluster "''GET''"
        "[''api'', ''v1'', ''namespaces'', ''dev'', ''workflows'', ''run-1'']" "[]"]
      requests_answered [OF run, of "the_server sample_web" "[archived_run ''v1'']" empty_cluster "''POST''" "[''ws'']" "[]"]
    by (simp_all add: destination_def object_routes_def or_archived_def lookup_answer_def empty_cluster_def
        last_workflow_def archived_run_def sample_setup_def)
  have "argocdCred (the (syncClient (web ?st))) = ''pw''" by (simp add: ready_web_def trimmed [simplified])
  with run answers show ?thesis by blast
qed

end
