(* ===== verification/Pod_Index.thy ===== *)
theory Pod_Index
  imports Flow_Watcher
begin

text \<open>
  The index of pods that \<open>cmd/main.go\<close> registers with the manager, and how the list of a subscription, which is
  answered from that index, fits the callbacks of \<open>flow_watcher.go\<close> that tell subscribers of later events.
\<close>

section \<open>The index of pods\<close>

definition JETTISON_APP_INDEX_KEY :: string where
  "JETTISON_APP_INDEX_KEY = ''metadata.labels.jettison-app''"

text \<open>The values under which a pod is indexed.\<close>

definition app_labels :: "resource \<Rightarrow> string list" where
  "app_labels item = (let appLabel = map_entry (Labels item) JETTISON_APP_LABEL_KEY in
     if appLabel = [] then [] else [appLabel])"

section \<open>Lists and notifications\<close>

text \<open>
  The list of a subscription: the pods of its namespace (of all namespaces, for the empty one) that the index has
  under its name, as the cache of controller-runtime documents.
\<close>

definition cached_list :: "resource set \<Rightarrow> resource_subscription \<Rightarrow> resource list \<Rightarrow> bool" where
  "cached_list pods sub ps \<longleftrightarrow>
     set ps = {p \<in> pods. (sub_Namespace sub = [] \<or> Namespace p = sub_Namespace sub) \<and> sub_Name sub \<in> set (app_labels p)}"

text \<open>A callback that sends the pod to the run loop for this subscription.\<close>

definition notifies :: "resource_subscription \<Rightarrow> prog \<Rightarrow> bool" where
  "notifies sub p \<longleftrightarrow> (\<exists>r. p = Send (NotifySubscriptions r) Return \<and> subscription_of r = sub)"

lemma backfill_notifies [simp]:
  assumes "gvk w (res_Type r) = Inr v"
  shows "notifies sub (backfillSchema w r notify_subscriptions) \<longleftrightarrow> subscription_of r = sub"
  using assms by (cases v) (auto simp: notifies_def backfillSchema_def notify_subscriptions_def subscription_of_def)

lemma notifies_Return [simp]: "\<not> notifies sub Return"
  by (simp add: notifies_def)

lemma subscription_of_deleted [simp]: "subscription_of (mark_deleted r) = subscription_of r"
  by (simp add: subscription_of_def mark_deleted_def)

lemma res_Type_deleted [simp]: "res_Type (mark_deleted r) = res_Type r"
  by (simp add: mark_deleted_def)

text \<open>
  C16. The pods that a subscriber of a namespace and an application is sent at first are those whose later events it is
  told of: the index of pods that \<open>main\<close> registers and the callbacks for added, changed and deleted pods agree on
  every pod, pods without the label included. A subscription without a namespace lists the pods of all of them,
  but no event of a pod ever reaches it.
\<close>

theorem subscription_coherent:
  assumes "cached_list pods sub ps" and "p \<in> pods" and "res_Type p = PodType" and "Namespace p \<noteq> []"
    and "gvk w PodType = Inr v" and "SubscriptionType sub = ''pod''"
  shows "(p \<in> set ps \<longleftrightarrow> (if sub_Namespace sub = [] then app_labels p = [sub_Name sub]
        else notifies sub (onSubscriptionResourceAdd w p)))
    \<and> (notifies sub (onSubscriptionResourceUpdate w old p) \<longleftrightarrow> notifies sub (onSubscriptionResourceAdd w p))
    \<and> (notifies sub (onSubscriptionResourceDelete w p) \<longleftrightarrow> notifies sub (onSubscriptionResourceAdd w p))
    \<and> (sub_Namespace sub = [] \<longrightarrow> \<not> notifies sub (onSubscriptionResourceAdd w p))"
proof -
  have add: "notifies sub (onSubscriptionResourceAdd w p) \<longleftrightarrow>
      map_entry (Labels p) JETTISON_APP_LABEL_KEY \<noteq> [] \<and> subscription_of p = sub"
    using assms(3,5) by (simp add: onSubscriptionResourceAdd_def)
  have "notifies sub (onSubscriptionResourceUpdate w old p) \<longleftrightarrow> notifies sub (onSubscriptionResourceAdd w p)"
    using assms(3,5) unfolding add by (simp add: onSubscriptionResourceUpdate_def)
  moreover have "notifies sub (onSubscriptionResourceDelete w p) \<longleftrightarrow> notifies sub (onSubscriptionResourceAdd w p)"
    using assms(3,5) unfolding add by (simp add: onSubscriptionResourceDelete_def)
  moreover have "subscription_of p = sub \<longleftrightarrow>
      Namespace p = sub_Namespace sub \<and> map_entry (Labels p) JETTISON_APP_LABEL_KEY = sub_Name sub"
    using assms(6) by (cases sub) (auto simp: subscription_of_def POD_SUBSCRIPTION_TYPE_def)
  ultimately show ?thesis
    using assms(1,2,4) unfolding add by (auto simp: cached_list_def app_labels_def Let_def)
qed

definition labelled_pod :: "string \<Rightarrow> resource" where
  "labelled_pod app = \<lparr>res_Type = PodType, APIVersion = ''v1'', Kind = ''Pod'', Namespace = ''dev'', Name = app @ ''-0'',
     Labels = Some [JETTISON_APP_LABEL_KEY \<mapsto> app], Annotations = None, res_Rest = JNull\<rparr>"

definition plain_watcher :: flow_watcher where
  "plain_watcher = \<lparr>mysqlWorkflows = [], controllerPodNamespace = ''jettison'', controllerPodName = ''controller-0'',
     gvk = (\<lambda>t. Inr (''v1'', ''Kind''))\<rparr>"

lemma subscription_coherent_witness:
  "labelled_pod ''web'' \<in> set [labelled_pod ''web'']
   \<and> notifies \<lparr>SubscriptionType = ''pod'', sub_Namespace = ''dev'', sub_Name = ''web''\<rparr>
       (onSubscriptionResourceDelete plain_watcher (labelled_pod ''web''))
   \<and> \<not> notifies \<lparr>SubscriptionType = ''pod'', sub_Namespace = ''dev'', sub_Name = ''web''\<rparr>
       (onSubscriptionResourceAdd plain_watcher (labelled_pod ''api''))"
proof -
  let ?sub = "\<lparr>SubscriptionType = ''pod'', sub_Namespace = ''dev'', sub_Name = ''web''\<rparr>"
  let ?pods = "{labelled_pod ''web'', labelled_pod ''api''}"
  have l: "cached_list ?pods ?sub [labelled_pod ''web'']"
    by (auto simp: cached_list_def app_labels_def Let_def labelled_pod_def map_entry_def)
  have p: "labelled_pod ''web'' \<in> ?pods" "labelled_pod ''api'' \<in> ?pods" by simp_all
  have t: "res_Type (labelled_pod a) = PodType" "Namespace (labelled_pod a) \<noteq> []" for a by (simp_all add: labelled_pod_def)
  have w: "gvk plain_watcher PodType = Inr (''v1'', ''Kind'')" by (simp add: plain_watcher_def)
  have s: "SubscriptionType ?sub = ''pod''" by simp
  have "labelled_pod ''api'' \<noteq> labelled_pod ''web''" by (simp add: labelled_pod_def)
  with subscription_coherent [OF l p(1) t w s] subscription_coherent [OF l p(2) t w s] show ?thesis by simp
qed

end
