(* ===== verification/Kube_Api.thy ===== *)
theory Kube_Api
  imports Effects Sensor_Builder
begin

text \<open>
  The Kubernetes API as the reconciler uses it: objects of nine kinds addressed by kind, namespace
  and name, and a record of the client calls and library functions on a state of the world. The
  documented behaviour of the API that the theorems rest on is stated in \<open>Reconciler_Objects\<close>.
\<close>

section \<open>Objects and calls\<close>

datatype kube_spec =
    EventBusSpec event_bus_spec
  | PVCSpec pvc_spec
  | ServiceAccountSpec
  | RoleSpec "policy_rule list"
  | RoleBindingSpec role_binding_spec
  | AppProjectSpec app_project_spec
  | ApplicationSpec application_spec
  | SensorSpec sensor_spec
  | EventSourceSpec event_source_spec

type_synonym kobject = "kube_spec object"

datatype kind =
    EventBusKind | PVCKind | ServiceAccountKind | RoleKind | RoleBindingKind
  | AppProjectKind | ApplicationKind | SensorKind | EventSourceKind

fun kind_of :: "kube_spec \<Rightarrow> kind" where
  "kind_of (EventBusSpec s) = EventBusKind"
| "kind_of (PVCSpec s) = PVCKind"
| "kind_of ServiceAccountSpec = ServiceAccountKind"
| "kind_of (RoleSpec s) = RoleKind"
| "kind_of (RoleBindingSpec s) = RoleBindingKind"
| "kind_of (AppProjectSpec s) = AppProjectKind"
| "kind_of (ApplicationSpec s) = ApplicationKind"
| "kind_of (SensorSpec s) = SensorKind"
| "kind_of (EventSourceSpec s) = EventSourceKind"

type_synonym key = "kind \<times> string \<times> string"

definition key_of :: "kobject \<Rightarrow> key" where
  "key_of ob = (kind_of (obj_Spec ob), obj_Namespace ob, obj_Name ob)"

text \<open>The values that the reconciler compares with \<open>equality.Semantic.DeepDerivative\<close>.\<close>

datatype compared =
    CSpec kube_spec
  | CRequests "(string \<times> string) list"
  | CRules "policy_rule list"
  | CSubjects "subject list"

text \<open>
  A read returns nothing for an object that is not found. \<open>kc_SetOwner\<close> is
  \<open>ctrl.SetControllerReference\<close> with the scheme, \<open>kc_SetCondition\<close> is
  \<open>meta.SetStatusCondition\<close>.
\<close>

record 'w kube_client =
  kc_GetFlow :: "string \<times> string \<Rightarrow> 'w \<Rightarrow> (go_error + flow option) \<times> 'w"
  kc_UpdateStatus :: "flow \<Rightarrow> 'w \<Rightarrow> (go_error + unit) \<times> 'w"
  kc_Get :: "key \<Rightarrow> 'w \<Rightarrow> (go_error + kobject option) \<times> 'w"
  kc_Create :: "kobject \<Rightarrow> 'w \<Rightarrow> (go_error + unit) \<times> 'w"
  kc_Update :: "kobject \<Rightarrow> 'w \<Rightarrow> (go_error + unit) \<times> 'w"
  kc_Delete :: "kobject \<Rightarrow> 'w \<Rightarrow> (go_error + unit) \<times> 'w"
  kc_SetOwner :: "flow \<Rightarrow> kobject \<Rightarrow> go_error + kobject"
  kc_SetCondition :: "condition \<Rightarrow> condition list \<Rightarrow> condition list \<times> bool"
  kc_Derivative :: "compared \<Rightarrow> compared \<Rightarrow> bool"

section \<open>Parts of a spec\<close>

text \<open>A field of a spec; the zero value for a spec of another kind.\<close>

fun requests_of :: "kube_spec \<Rightarrow> (string \<times> string) list" where
  "requests_of (PVCSpec s) = pvc_Requests s"
| "requests_of _ = []"

fun set_requests :: "(string \<times> string) list \<Rightarrow> kube_spec \<Rightarrow> kube_spec" where
  "set_requests r (PVCSpec s) = PVCSpec (s\<lparr>pvc_Requests := r\<rparr>)"
| "set_requests r s = s"

fun rules_of :: "kube_spec \<Rightarrow> policy_rule list" where
  "rules_of (RoleSpec s) = s"
| "rules_of _ = []"

fun subjects_of :: "kube_spec \<Rightarrow> subject list" where
  "subjects_of (RoleBindingSpec s) = rb_Subjects s"
| "subjects_of _ = []"

fun set_subjects :: "subject list \<Rightarrow> kube_spec \<Rightarrow> kube_spec" where
  "set_subjects r (RoleBindingSpec s) = RoleBindingSpec (s\<lparr>rb_Subjects := r\<rparr>)"
| "set_subjects r s = s"

fun role_ref_of :: "kube_spec \<Rightarrow> role_ref option" where
  "role_ref_of (RoleBindingSpec s) = Some (rb_RoleRef s)"
| "role_ref_of _ = None"

fun event_source_of :: "kube_spec \<Rightarrow> event_source_spec" where
  "event_source_of (EventSourceSpec s) = s"
| "event_source_of _ = \<lparr>ess_Service = None, ess_Github = None, ess_Rest = JNull\<rparr>"

section \<open>The reconciler's state\<close>

text \<open>
  The fields of \<open>FlowReconciler\<close>: the world behind its clients, and the sets of what it has
  already synchronised. A name maps to True in the Go maps iff it is in the set.
\<close>

record 'w rstate =
  r_World :: 'w
  SyncedNamespaces :: "string set"
  SyncedProjects :: "string set"
  SyncedRepos :: "string \<rightharpoonup> string set"

definition on_world :: "('w, 'a) op \<Rightarrow> ('w rstate, 'a) op" where
  "on_world m st = (case m (r_World st) of (r, w') \<Rightarrow> (r, st\<lparr>r_World := w'\<rparr>))"

definition modify :: "('s \<Rightarrow> 's) \<Rightarrow> ('s, unit) op" where
  "modify f s = (Inr (), f s)"

lemma modify_simps [simp]: "modify f s = (Inr (), f s)"
  by (simp add: modify_def)

lemma on_world_Inr [simp]:
  "on_world m st = (Inr x, st') \<longleftrightarrow> (\<exists>w'. m (r_World st) = (Inr x, w') \<and> st' = st\<lparr>r_World := w'\<rparr>)"
  by (auto simp: on_world_def split: prod.splits)

lemma on_world_result:
  "on_world m st = (r, st') \<longleftrightarrow> (\<exists>w'. m (r_World st) = (r, w') \<and> st' = st\<lparr>r_World := w'\<rparr>)"
  by (auto simp: on_world_def split: prod.splits)

definition kget :: "'w kube_client \<Rightarrow> key \<Rightarrow> ('w rstate, kobject option) op" where
  "kget c k = on_world (call (kc_Get c k))"

definition kcreate :: "'w kube_client \<Rightarrow> kobject \<Rightarrow> ('w rstate, unit) op" where
  "kcreate c ob = on_world (call (kc_Create c ob))"

definition kupdate :: "'w kube_client \<Rightarrow> kobject \<Rightarrow> ('w rstate, unit) op" where
  "kupdate c ob = on_world (call (kc_Update c ob))"

definition kdelete :: "'w kube_client \<Rightarrow> kobject \<Rightarrow> ('w rstate, unit) op" where
  "kdelete c ob = on_world (call (kc_Delete c ob))"

text \<open>
  The step that the reconciler repeats for each object: fetch it; create it when it is not found;
  update it when it has drifted; report whether anything was written.
\<close>

definition ensure ::
  "'w kube_client \<Rightarrow> kobject \<Rightarrow> (kube_spec \<Rightarrow> bool) \<Rightarrow> (kube_spec \<Rightarrow> kube_spec)
     \<Rightarrow> ('w rstate, bool) op" where
  "ensure c desired drifted revised =
     bind_op (kget c (key_of desired)) (\<lambda>existing.
       case existing of
         None \<Rightarrow> bind_op (kcreate c desired) (\<lambda>_. return True)
       | Some ob \<Rightarrow>
           if drifted (obj_Spec ob) then
             bind_op (kupdate c (ob\<lparr>obj_Spec := revised (obj_Spec ob)\<rparr>)) (\<lambda>_. return True)
           else return False)"

text \<open>The comparison and the update for objects whose whole spec is managed.\<close>

definition spec_drifted :: "'w kube_client \<Rightarrow> kobject \<Rightarrow> kube_spec \<Rightarrow> bool" where
  "spec_drifted c desired s \<longleftrightarrow> \<not> kc_Derivative c (CSpec (obj_Spec desired)) (CSpec s)"

definition whole_spec :: "kobject \<Rightarrow> kube_spec \<Rightarrow> kube_spec" where
  "whole_spec desired s = obj_Spec desired"

end
