(* ===== verification/Gh_Settings.thy ===== *)
theory Gh_Settings
  imports Effects Json
begin

text \<open>
  Synchronisation of a repository's GitHub settings and default ruleset
  (\<open>internal/controller/ghsettings/ghsettings.go\<close>).

  Each group of settings is an instance of one contract: the result complies, a difference is
  reported exactly when the input does not comply, and compliant settings are left alone. The
  GitHub API is a record of calls on a state of the world.
\<close>

section \<open>Settings\<close>

definition appId :: int where
  "appId = 1682308"

text \<open>The client of the App: the transport that signs with the key of the file, and the client on top of it.\<close>

definition GetGitHubClient ::
    "(int \<Rightarrow> string \<Rightarrow> go_error + 't) \<Rightarrow> ('t \<Rightarrow> 'c) \<Rightarrow> string \<Rightarrow> go_error + 't \<times> 'c" where
  "GetGitHubClient newTransport newClient githubKey = (case newTransport appId githubKey of
     Inl e \<Rightarrow> Inl (Wrapped ''failed to get GitHub client transport'' e)
   | Inr ghTransport \<Rightarrow> Inr (ghTransport, newClient ghTransport))"

definition defaultRulesetName :: string where
  "defaultRulesetName = ''default''"

definition defaultBranch :: string where
  "defaultBranch = ''~DEFAULT_BRANCH''"

definition rulesetSourceType :: string where
  "rulesetSourceType = ''Repository''"

definition rulesetTargetBranch :: string where
  "rulesetTargetBranch = ''branch''"

definition enforcementActive :: string where
  "enforcementActive = ''active''"

definition mergeMethodSquash :: string where
  "mergeMethodSquash = ''squash''"

record repo_settings =
  AllowMergeCommit :: "bool option"
  AllowSquashMerge :: "bool option"
  AllowRebaseMerge :: "bool option"
  AllowUpdateBranch :: "bool option"
  AllowAutoMerge :: "bool option"
  DeleteBranchOnMerge :: "bool option"
  repo_Rest :: json

record ref_name =
  rn_Include :: "string list"
  rn_Exclude :: "string list option"

record ruleset_conditions =
  rc_RefName :: "ref_name option"
  rc_Rest :: json

record pr_rules =
  AllowedMergeMethods :: "string list"
  DismissStaleReviewsOnPush :: bool
  RequireCodeOwnerReview :: bool
  RequireLastPushApproval :: bool
  RequiredApprovingReviewCount :: int
  RequiredReviewThreadResolution :: bool

record status_check =
  chk_Context :: string
  chk_IntegrationID :: "int option"

record status_checks =
  DoNotEnforceOnCreate :: "bool option"
  RequiredChecks :: "status_check list"
  StrictPolicy :: bool

record ruleset_rules =
  RequiredLinearHistory :: "unit option"
  rules_Deletion :: "unit option"
  rules_PullRequest :: "pr_rules option"
  rules_StatusChecks :: "status_checks option"
  NonFastForward :: "unit option"
  rules_Rest :: json

record ruleset =
  rs_ID :: "int option"
  rs_Name :: string
  rs_Target :: "string option"
  rs_SourceType :: "string option"
  rs_Enforcement :: string
  rs_Conditions :: "ruleset_conditions option"
  rs_Rules :: "ruleset_rules option"
  rs_Rest :: json

definition jettisonRequiredCheck :: status_check where
  "jettisonRequiredCheck = \<lparr>chk_Context = ''Jettison PR Flow'', chk_IntegrationID = Some appId\<rparr>"

definition jettisonStatusChecks :: status_checks where
  "jettisonStatusChecks =
     \<lparr>DoNotEnforceOnCreate = Some False, RequiredChecks = [jettisonRequiredCheck], StrictPolicy = True\<rparr>"

definition jettisonAllowedMergeMethods :: "string list" where
  "jettisonAllowedMergeMethods = [mergeMethodSquash]"

definition jettisonPrRules :: pr_rules where
  "jettisonPrRules =
     \<lparr>AllowedMergeMethods = jettisonAllowedMergeMethods, DismissStaleReviewsOnPush = True,
      RequireCodeOwnerReview = False, RequireLastPushApproval = False,
      RequiredApprovingReviewCount = 0, RequiredReviewThreadResolution = True\<rparr>"

definition jettisonRulesetRules :: ruleset_rules where
  "jettisonRulesetRules =
     \<lparr>RequiredLinearHistory = Some (), rules_Deletion = Some (),
      rules_PullRequest = Some jettisonPrRules, rules_StatusChecks = Some jettisonStatusChecks,
      NonFastForward = Some (), rules_Rest = JNull\<rparr>"

definition jettisonRefName :: ref_name where
  "jettisonRefName = \<lparr>rn_Include = [defaultBranch], rn_Exclude = Some []\<rparr>"

definition jettisonRulesetConditions :: ruleset_conditions where
  "jettisonRulesetConditions = \<lparr>rc_RefName = Some jettisonRefName, rc_Rest = JNull\<rparr>"

definition jettisonRuleset :: ruleset where
  "jettisonRuleset =
     \<lparr>rs_ID = None, rs_Name = defaultRulesetName, rs_Target = Some rulesetTargetBranch,
      rs_SourceType = Some rulesetSourceType, rs_Enforcement = enforcementActive,
      rs_Conditions = Some jettisonRulesetConditions, rs_Rules = Some jettisonRulesetRules,
      rs_Rest = JNull\<rparr>"

section \<open>Synchronising the settings\<close>

text \<open>
  \<open>if bad { fix; hasDiff = true }\<close>; a pointer that is nil or has another value than wanted; and
  a nil pointer replaced by the default, other values being synchronised in place.
\<close>

definition fix_if :: "('a \<Rightarrow> bool) \<Rightarrow> ('a \<Rightarrow> 'a) \<Rightarrow> 'a \<times> bool \<Rightarrow> 'a \<times> bool" where
  "fix_if bad upd xd = (case xd of (x, d) \<Rightarrow> if bad x then (upd x, True) else (x, d))"

definition not_set :: "'b \<Rightarrow> 'b option \<Rightarrow> bool" where
  "not_set want p = (case p of None \<Rightarrow> True | Some v \<Rightarrow> v \<noteq> want)"

definition sync_ptr :: "'a \<Rightarrow> ('a \<Rightarrow> 'a \<times> bool) \<Rightarrow> 'a option \<Rightarrow> 'a option \<times> bool" where
  "sync_ptr d sync p =
     (case p of None \<Rightarrow> (Some d, True) | Some v \<Rightarrow> (case sync v of (v', diff) \<Rightarrow> (Some v', diff)))"

text \<open>A field that is synchronised by its own routine.\<close>

definition sync_field ::
  "('r \<Rightarrow> 'a) \<Rightarrow> (('a \<Rightarrow> 'a) \<Rightarrow> 'r \<Rightarrow> 'r) \<Rightarrow> ('a \<Rightarrow> 'a \<times> bool) \<Rightarrow> 'r \<times> bool \<Rightarrow> 'r \<times> bool" where
  "sync_field get upd sync rd =
     (case rd of (r, d) \<Rightarrow> case sync (get r) of (v, diff) \<Rightarrow> (upd (\<lambda>_. v) r, d \<or> diff))"

definition sync_repo :: "repo_settings \<Rightarrow> repo_settings \<times> bool" where
  "sync_repo r =
     fix_if (\<lambda>r. not_set True (DeleteBranchOnMerge r)) (DeleteBranchOnMerge_update (\<lambda>_. Some True))
     (fix_if (\<lambda>r. not_set True (AllowAutoMerge r)) (AllowAutoMerge_update (\<lambda>_. Some True))
     (fix_if (\<lambda>r. not_set True (AllowUpdateBranch r)) (AllowUpdateBranch_update (\<lambda>_. Some True))
     (fix_if (\<lambda>r. not_set False (AllowRebaseMerge r)) (AllowRebaseMerge_update (\<lambda>_. Some False))
     (fix_if (\<lambda>r. not_set True (AllowSquashMerge r)) (AllowSquashMerge_update (\<lambda>_. Some True))
     (fix_if (\<lambda>r. not_set False (AllowMergeCommit r)) (AllowMergeCommit_update (\<lambda>_. Some False))
     (r, False))))))"

definition sync_ref_name :: "ref_name \<Rightarrow> ref_name \<times> bool" where
  "sync_ref_name n =
     fix_if (\<lambda>n. rn_Exclude n = None \<or> rn_Exclude n \<noteq> Some []) (rn_Exclude_update (\<lambda>_. Some []))
     (fix_if (\<lambda>n. length (rn_Include n) \<noteq> 1
           \<or> length (rn_Include n) = 1 \<and> rn_Include n ! 0 \<noteq> defaultBranch)
        (rn_Include_update (\<lambda>_. [defaultBranch]))
     (n, False))"

definition sync_conditions :: "ruleset_conditions \<Rightarrow> ruleset_conditions \<times> bool" where
  "sync_conditions c =
     sync_field rc_RefName rc_RefName_update (sync_ptr jettisonRefName sync_ref_name) (c, False)"

definition sync_pr_rules :: "pr_rules \<Rightarrow> pr_rules \<times> bool" where
  "sync_pr_rules p =
     fix_if (\<lambda>p. \<not> RequiredReviewThreadResolution p) (RequiredReviewThreadResolution_update (\<lambda>_. True))
     (fix_if (\<lambda>p. RequiredApprovingReviewCount p \<noteq> 0) (RequiredApprovingReviewCount_update (\<lambda>_. 0))
     (fix_if RequireLastPushApproval (RequireLastPushApproval_update (\<lambda>_. False))
     (fix_if RequireCodeOwnerReview (RequireCodeOwnerReview_update (\<lambda>_. False))
     (fix_if (\<lambda>p. \<not> DismissStaleReviewsOnPush p) (DismissStaleReviewsOnPush_update (\<lambda>_. True))
     (fix_if (\<lambda>p. length (AllowedMergeMethods p) \<noteq> 1
           \<or> AllowedMergeMethods p ! 0 \<noteq> mergeMethodSquash)
        (AllowedMergeMethods_update (\<lambda>_. jettisonAllowedMergeMethods))
     (p, False))))))"

definition sync_status_checks :: "status_checks \<Rightarrow> status_checks \<times> bool" where
  "sync_status_checks s =
     fix_if (\<lambda>s. \<not> StrictPolicy s) (StrictPolicy_update (\<lambda>_. True))
     (fix_if (\<lambda>s. length (RequiredChecks s) \<noteq> 1
           \<or> chk_Context (RequiredChecks s ! 0) \<noteq> chk_Context jettisonRequiredCheck
           \<or> chk_IntegrationID (RequiredChecks s ! 0) = None
           \<or> chk_IntegrationID (RequiredChecks s ! 0) \<noteq> Some appId)
        (RequiredChecks_update (\<lambda>_. [jettisonRequiredCheck]))
     (fix_if (\<lambda>s. not_set False (DoNotEnforceOnCreate s)) (DoNotEnforceOnCreate_update (\<lambda>_. Some False))
     (s, False)))"

definition sync_rules :: "ruleset_rules \<Rightarrow> ruleset_rules \<times> bool" where
  "sync_rules r =
     fix_if (\<lambda>r. NonFastForward r = None) (NonFastForward_update (\<lambda>_. Some ()))
     (sync_field rules_StatusChecks rules_StatusChecks_update
        (sync_ptr jettisonStatusChecks sync_status_checks)
     (sync_field rules_PullRequest rules_PullRequest_update (sync_ptr jettisonPrRules sync_pr_rules)
     (fix_if (\<lambda>r. rules_Deletion r = None) (rules_Deletion_update (\<lambda>_. Some ()))
     (fix_if (\<lambda>r. RequiredLinearHistory r = None) (RequiredLinearHistory_update (\<lambda>_. Some ()))
     (r, False)))))"

definition sync_ruleset :: "ruleset \<Rightarrow> ruleset \<times> bool" where
  "sync_ruleset r =
     sync_field rs_Rules rs_Rules_update (sync_ptr jettisonRulesetRules sync_rules)
     (sync_field rs_Conditions rs_Conditions_update (sync_ptr jettisonRulesetConditions sync_conditions)
     (fix_if (\<lambda>r. rs_Enforcement r \<noteq> enforcementActive) (rs_Enforcement_update (\<lambda>_. enforcementActive))
     (fix_if (\<lambda>r. not_set rulesetSourceType (rs_SourceType r))
        (rs_SourceType_update (\<lambda>_. Some rulesetSourceType))
     (fix_if (\<lambda>r. not_set rulesetTargetBranch (rs_Target r))
        (rs_Target_update (\<lambda>_. Some rulesetTargetBranch))
     (r, False)))))"

section \<open>Synchronising a repository\<close>

record 'w github_client =
  gh_FindInstallation :: "string \<Rightarrow> string \<Rightarrow> 'w \<Rightarrow> (go_error + int option) \<times> 'w"
  gh_GetRepo :: "int \<Rightarrow> string \<Rightarrow> string \<Rightarrow> 'w \<Rightarrow> (go_error + repo_settings) \<times> 'w"
  gh_EditRepo :: "int \<Rightarrow> string \<Rightarrow> string \<Rightarrow> repo_settings \<Rightarrow> 'w \<Rightarrow> (go_error + unit) \<times> 'w"
  gh_GetAllRulesets :: "int \<Rightarrow> string \<Rightarrow> string \<Rightarrow> 'w \<Rightarrow> (go_error + ruleset list) \<times> 'w"
  gh_GetRuleset :: "int \<Rightarrow> string \<Rightarrow> string \<Rightarrow> int \<Rightarrow> 'w \<Rightarrow> (go_error + ruleset) \<times> 'w"
  gh_CreateRuleset :: "int \<Rightarrow> string \<Rightarrow> string \<Rightarrow> ruleset \<Rightarrow> 'w \<Rightarrow> (go_error + unit) \<times> 'w"
  gh_UpdateRuleset :: "int \<Rightarrow> string \<Rightarrow> string \<Rightarrow> int \<Rightarrow> ruleset \<Rightarrow> 'w \<Rightarrow> (go_error + unit) \<times> 'w"

definition repo_label :: "string \<Rightarrow> string \<Rightarrow> string" where
  "repo_label repoOrg repoName = repoOrg @ ''/'' @ repoName"

text \<open>The installation error is dropped from the message; the others are wrapped.\<close>

definition find_installation :: "'w github_client \<Rightarrow> string \<Rightarrow> string \<Rightarrow> ('w, int) op" where
  "find_installation gh repoOrg repoName w =
     (case gh_FindInstallation gh repoOrg repoName w of
        (Inl e, w') \<Rightarrow> (Inl (Failed (Errorf (''failed to get installation id for repo: ''
                        @ repo_label repoOrg repoName))), w')
      | (Inr i, w') \<Rightarrow> (deref i, w'))"

definition sync_repo_settings ::
  "'w github_client \<Rightarrow> int \<Rightarrow> string \<Rightarrow> string \<Rightarrow> ('w, unit) op" where
  "sync_repo_settings gh inst repoOrg repoName =
     bind_op (call_wrapped (''failed to fetch repo '' @ repo_label repoOrg repoName)
       (gh_GetRepo gh inst repoOrg repoName)) (\<lambda>repo.
     case sync_repo repo of (repo', hasDiff) \<Rightarrow>
       if hasDiff then
         call_wrapped (''failed to edit repo settings '' @ repo_label repoOrg repoName)
           (gh_EditRepo gh inst repoOrg repoName repo')
       else return ())"

definition find_default_ruleset ::
  "'w github_client \<Rightarrow> int \<Rightarrow> string \<Rightarrow> string \<Rightarrow> ruleset list \<Rightarrow> ('w, ruleset option) op" where
  "find_default_ruleset gh inst repoOrg repoName rulesets =
     (case find (\<lambda>r. rs_Name r = defaultRulesetName) rulesets of
        None \<Rightarrow> return None
      | Some r \<Rightarrow> bind_op (pure_res (deref (rs_ID r))) (\<lambda>i.
          bind_op (call_wrapped (''failed to get ruleset for '' @ repo_label repoOrg repoName)
            (gh_GetRuleset gh inst repoOrg repoName i)) (\<lambda>full. return (Some full))))"

definition sync_found_ruleset ::
  "'w github_client \<Rightarrow> int \<Rightarrow> string \<Rightarrow> string \<Rightarrow> ruleset option \<Rightarrow> ('w, unit) op" where
  "sync_found_ruleset gh inst repoOrg repoName defaultRuleset =
     (case defaultRuleset of
       None \<Rightarrow> call_wrapped (''failed to create repo rulesets '' @ repo_label repoOrg repoName)
                (gh_CreateRuleset gh inst repoOrg repoName jettisonRuleset)
     | Some r \<Rightarrow>
         (case sync_ruleset r of (r', hasDiff) \<Rightarrow>
            if hasDiff then
              bind_op (pure_res (deref (rs_ID r'))) (\<lambda>i.
              call_wrapped (''failed to edit repo rulesets '' @ repo_label repoOrg repoName)
                (gh_UpdateRuleset gh inst repoOrg repoName i r'))
            else return ()))"

definition sync_rulesets ::
  "'w github_client \<Rightarrow> int \<Rightarrow> string \<Rightarrow> string \<Rightarrow> ('w, unit) op" where
  "sync_rulesets gh inst repoOrg repoName =
     bind_op (call_wrapped (''failed to get rulesets for '' @ repo_label repoOrg repoName)
       (gh_GetAllRulesets gh inst repoOrg repoName)) (\<lambda>rulesets.
     bind_op (find_default_ruleset gh inst repoOrg repoName rulesets)
       (sync_found_ruleset gh inst repoOrg repoName))"

definition SyncGitHubSettingsForRepo ::
  "'w github_client \<Rightarrow> string \<Rightarrow> string \<Rightarrow> ('w, unit) op" where
  "SyncGitHubSettingsForRepo gh repoOrg repoName =
     bind_op (find_installation gh repoOrg repoName) (\<lambda>inst.
     bind_op (sync_repo_settings gh inst repoOrg repoName) (\<lambda>_.
     sync_rulesets gh inst repoOrg repoName))"

section \<open>The contract of the synchronisation routines\<close>

locale settings_sync =
  fixes sync :: "'a \<Rightarrow> 'a \<times> bool" and compliant :: "'a \<Rightarrow> bool"
  assumes complies: "compliant (fst (sync x))"
    and reports: "snd (sync x) \<longleftrightarrow> \<not> compliant x"
    and leaves: "compliant x \<Longrightarrow> fst (sync x) = x"
begin

lemma sync_compliant: "compliant x \<Longrightarrow> sync x = (x, False)"
  using leaves reports by (metis prod.collapse)

lemma sync_twice: "sync (fst (sync x)) = (fst (sync x), False)"
  by (rule sync_compliant) (rule complies)

lemma unchanged_iff: "fst (sync x) = x \<longleftrightarrow> compliant x"
  using complies leaves by metis

end

text \<open>A default for a nil pointer keeps the contract, when it complies itself.\<close>

locale settings_default = settings_sync +
  fixes d :: 'a
  assumes default_complies: "compliant d"

definition ptr_compliant :: "('a \<Rightarrow> bool) \<Rightarrow> 'a option \<Rightarrow> bool" where
  "ptr_compliant compliant p = (case p of None \<Rightarrow> False | Some v \<Rightarrow> compliant v)"

sublocale settings_default \<subseteq> ptr: settings_sync "sync_ptr d sync" "ptr_compliant compliant"
proof
  fix p
  show "ptr_compliant compliant (fst (sync_ptr d sync p))"
    using complies default_complies by (cases p) (simp_all add: sync_ptr_def ptr_compliant_def case_prod_unfold)
  show "snd (sync_ptr d sync p) \<longleftrightarrow> \<not> ptr_compliant compliant p"
    using reports by (cases p) (simp_all add: sync_ptr_def ptr_compliant_def case_prod_unfold)
  show "ptr_compliant compliant p \<Longrightarrow> fst (sync_ptr d sync p) = p"
    using sync_compliant by (cases p) (simp_all add: sync_ptr_def ptr_compliant_def)
qed

section \<open>The routines keep the contract\<close>

definition repo_compliant :: "repo_settings \<Rightarrow> bool" where
  "repo_compliant r \<longleftrightarrow>
     AllowMergeCommit r = Some False \<and> AllowSquashMerge r = Some True \<and> AllowRebaseMerge r = Some False
     \<and> AllowUpdateBranch r = Some True \<and> AllowAutoMerge r = Some True \<and> DeleteBranchOnMerge r = Some True"

definition ref_name_compliant :: "ref_name \<Rightarrow> bool" where
  "ref_name_compliant n \<longleftrightarrow> rn_Include n = [defaultBranch] \<and> rn_Exclude n = Some []"

definition conditions_compliant :: "ruleset_conditions \<Rightarrow> bool" where
  "conditions_compliant c \<longleftrightarrow> ptr_compliant ref_name_compliant (rc_RefName c)"

definition pr_rules_compliant :: "pr_rules \<Rightarrow> bool" where
  "pr_rules_compliant p \<longleftrightarrow> p = jettisonPrRules"

definition status_checks_compliant :: "status_checks \<Rightarrow> bool" where
  "status_checks_compliant s \<longleftrightarrow> s = jettisonStatusChecks"

definition rules_compliant :: "ruleset_rules \<Rightarrow> bool" where
  "rules_compliant r \<longleftrightarrow>
     RequiredLinearHistory r \<noteq> None \<and> rules_Deletion r \<noteq> None \<and> NonFastForward r \<noteq> None
     \<and> ptr_compliant pr_rules_compliant (rules_PullRequest r)
     \<and> ptr_compliant status_checks_compliant (rules_StatusChecks r)"

definition ruleset_compliant :: "ruleset \<Rightarrow> bool" where
  "ruleset_compliant r \<longleftrightarrow>
     rs_Target r = Some rulesetTargetBranch \<and> rs_SourceType r = Some rulesetSourceType
     \<and> rs_Enforcement r = enforcementActive
     \<and> ptr_compliant conditions_compliant (rs_Conditions r)
     \<and> ptr_compliant rules_compliant (rs_Rules r)"

lemma not_set_iff [simp]: "not_set want p \<longleftrightarrow> p \<noteq> Some want"
  by (auto simp: not_set_def split: option.split)

lemma length_one_iff: "length xs = Suc 0 \<and> xs ! 0 = a \<longleftrightarrow> xs = [a]"
  by (cases xs) auto

interpretation repo_settings: settings_sync sync_repo repo_compliant
proof
  fix r :: repo_settings
  show "repo_compliant (fst (sync_repo r))" "snd (sync_repo r) \<longleftrightarrow> \<not> repo_compliant r"
    "repo_compliant r \<Longrightarrow> fst (sync_repo r) = r"
    by (cases r; auto simp: sync_repo_def fix_if_def repo_compliant_def)+
qed

interpretation ref_names: settings_default sync_ref_name ref_name_compliant jettisonRefName
proof
  fix n :: ref_name
  have bad: "(length (rn_Include n) \<noteq> 1 \<or> length (rn_Include n) = 1 \<and> rn_Include n ! 0 \<noteq> defaultBranch)
      \<longleftrightarrow> rn_Include n \<noteq> [defaultBranch]"
    using length_one_iff [of "rn_Include n" defaultBranch] by auto
  show "ref_name_compliant (fst (sync_ref_name n))" "snd (sync_ref_name n) \<longleftrightarrow> \<not> ref_name_compliant n"
    "ref_name_compliant n \<Longrightarrow> fst (sync_ref_name n) = n"
    using bad by (auto simp: sync_ref_name_def fix_if_def ref_name_compliant_def)
  show "ref_name_compliant jettisonRefName"
    by (simp add: ref_name_compliant_def jettisonRefName_def)
qed

lemma set_rc_RefName_id: "rc_RefName_update (\<lambda>_. rc_RefName c) c = c"
  by (cases c) simp

interpretation conditions: settings_default sync_conditions conditions_compliant jettisonRulesetConditions
proof
  fix c :: ruleset_conditions
  show "conditions_compliant (fst (sync_conditions c))"
    "snd (sync_conditions c) \<longleftrightarrow> \<not> conditions_compliant c"
    using ref_names.ptr.complies [of "rc_RefName c"] ref_names.ptr.reports [of "rc_RefName c"]
    by (auto simp: sync_conditions_def sync_field_def conditions_compliant_def split: prod.splits)
  show "conditions_compliant c \<Longrightarrow> fst (sync_conditions c) = c"
    by (simp add: sync_conditions_def sync_field_def conditions_compliant_def ref_names.ptr.sync_compliant
        set_rc_RefName_id)
  show "conditions_compliant jettisonRulesetConditions"
    by (simp add: conditions_compliant_def jettisonRulesetConditions_def ptr_compliant_def
        ref_names.default_complies)
qed

interpretation pr_rules: settings_default sync_pr_rules pr_rules_compliant jettisonPrRules
proof
  fix p :: pr_rules
  have bad: "(length (AllowedMergeMethods p) \<noteq> 1 \<or> AllowedMergeMethods p ! 0 \<noteq> mergeMethodSquash)
      \<longleftrightarrow> AllowedMergeMethods p \<noteq> [mergeMethodSquash]"
    using length_one_iff [of "AllowedMergeMethods p" mergeMethodSquash] by auto
  show "pr_rules_compliant (fst (sync_pr_rules p))" "snd (sync_pr_rules p) \<longleftrightarrow> \<not> pr_rules_compliant p"
    "pr_rules_compliant p \<Longrightarrow> fst (sync_pr_rules p) = p"
    using bad by (cases p; auto simp: sync_pr_rules_def fix_if_def pr_rules_compliant_def
        jettisonPrRules_def jettisonAllowedMergeMethods_def)+
qed (simp add: pr_rules_compliant_def)

interpretation status_checks: settings_default sync_status_checks status_checks_compliant jettisonStatusChecks
proof
  fix s :: status_checks
  have eq: "c = jettisonRequiredCheck \<longleftrightarrow>
      chk_Context c = chk_Context jettisonRequiredCheck \<and> chk_IntegrationID c = Some appId" for c :: status_check
    by (cases c) (simp add: jettisonRequiredCheck_def)
  have bad: "(length (RequiredChecks s) \<noteq> 1
        \<or> chk_Context (RequiredChecks s ! 0) \<noteq> chk_Context jettisonRequiredCheck
        \<or> chk_IntegrationID (RequiredChecks s ! 0) = None
        \<or> chk_IntegrationID (RequiredChecks s ! 0) \<noteq> Some appId)
      \<longleftrightarrow> RequiredChecks s \<noteq> [jettisonRequiredCheck]"
    using length_one_iff [of "RequiredChecks s" jettisonRequiredCheck] eq by auto
  show "status_checks_compliant (fst (sync_status_checks s))"
    "snd (sync_status_checks s) \<longleftrightarrow> \<not> status_checks_compliant s"
    "status_checks_compliant s \<Longrightarrow> fst (sync_status_checks s) = s"
    using bad by (cases s; auto simp: sync_status_checks_def fix_if_def status_checks_compliant_def
        jettisonStatusChecks_def)+
qed (simp add: status_checks_compliant_def)

text \<open>A routine on a whole pointer field, as the two functions it consists of.\<close>

lemma sync_field_eq: "sync_field get upd sync (r, d) = (upd (\<lambda>_. fst (sync (get r))) r, d \<or> snd (sync (get r)))"
  by (simp add: sync_field_def case_prod_unfold)

lemma unit_option_iff [simp]: "(p :: unit option) \<noteq> None \<longleftrightarrow> p = Some ()"
  by (cases p) auto

lemma sync_rules_eq:
  "sync_rules r =
     (r\<lparr>RequiredLinearHistory := Some (), rules_Deletion := Some (), NonFastForward := Some (),
        rules_PullRequest := fst (sync_ptr jettisonPrRules sync_pr_rules (rules_PullRequest r)),
        rules_StatusChecks := fst (sync_ptr jettisonStatusChecks sync_status_checks (rules_StatusChecks r))\<rparr>,
      \<not> rules_compliant r)"
  using pr_rules.ptr.reports [of "rules_PullRequest r"]
    status_checks.ptr.reports [of "rules_StatusChecks r"]
  by (cases r) (auto simp: sync_rules_def fix_if_def sync_field_eq rules_compliant_def)

lemma set_rules_id:
  "RequiredLinearHistory r = Some () \<Longrightarrow> rules_Deletion r = Some () \<Longrightarrow> NonFastForward r = Some ()
     \<Longrightarrow> rules_PullRequest r = p \<Longrightarrow> rules_StatusChecks r = c
     \<Longrightarrow> r\<lparr>RequiredLinearHistory := Some (), rules_Deletion := Some (), NonFastForward := Some (),
           rules_PullRequest := p, rules_StatusChecks := c\<rparr> = (r :: ruleset_rules)"
  by (cases r) simp

interpretation rules: settings_default sync_rules rules_compliant jettisonRulesetRules
proof
  fix r :: ruleset_rules
  show "rules_compliant (fst (sync_rules r))"
    by (simp add: sync_rules_eq rules_compliant_def pr_rules.ptr.complies status_checks.ptr.complies)
  show "snd (sync_rules r) \<longleftrightarrow> \<not> rules_compliant r" by (simp add: sync_rules_eq)
  show "rules_compliant r \<Longrightarrow> fst (sync_rules r) = r"
    by (simp add: sync_rules_eq rules_compliant_def set_rules_id pr_rules.ptr.leaves
        status_checks.ptr.leaves)
  show "rules_compliant jettisonRulesetRules"
    by (simp add: rules_compliant_def jettisonRulesetRules_def ptr_compliant_def
        pr_rules.default_complies status_checks.default_complies)
qed

lemma sync_ruleset_eq:
  "sync_ruleset r =
     (r\<lparr>rs_Target := Some rulesetTargetBranch, rs_SourceType := Some rulesetSourceType,
        rs_Enforcement := enforcementActive,
        rs_Conditions := fst (sync_ptr jettisonRulesetConditions sync_conditions (rs_Conditions r)),
        rs_Rules := fst (sync_ptr jettisonRulesetRules sync_rules (rs_Rules r))\<rparr>,
      \<not> ruleset_compliant r)"
  using conditions.ptr.reports [of "rs_Conditions r"] rules.ptr.reports [of "rs_Rules r"]
  by (cases r) (auto simp: sync_ruleset_def fix_if_def sync_field_eq ruleset_compliant_def)

lemma set_ruleset_id:
  "rs_Target r = t \<Longrightarrow> rs_SourceType r = s \<Longrightarrow> rs_Enforcement r = e \<Longrightarrow> rs_Conditions r = c
     \<Longrightarrow> rs_Rules r = u
     \<Longrightarrow> r\<lparr>rs_Target := t, rs_SourceType := s, rs_Enforcement := e, rs_Conditions := c, rs_Rules := u\<rparr>
       = (r :: ruleset)"
  by (cases r) simp

interpretation rulesets: settings_sync sync_ruleset ruleset_compliant
proof
  fix r :: ruleset
  show "ruleset_compliant (fst (sync_ruleset r))"
    by (simp add: sync_ruleset_eq ruleset_compliant_def conditions.ptr.complies rules.ptr.complies)
  show "snd (sync_ruleset r) \<longleftrightarrow> \<not> ruleset_compliant r" by (simp add: sync_ruleset_eq)
  show "ruleset_compliant r \<Longrightarrow> fst (sync_ruleset r) = r"
    by (simp add: sync_ruleset_eq ruleset_compliant_def set_ruleset_id conditions.ptr.leaves
        rules.ptr.leaves)
qed

lemma sync_ruleset_keeps [simp]:
  "rs_ID (fst (sync_ruleset r)) = rs_ID r" "rs_Name (fst (sync_ruleset r)) = rs_Name r"
  by (simp_all add: sync_ruleset_eq)

lemma jettisonRuleset_compliant: "ruleset_compliant jettisonRuleset"
  by (simp add: ruleset_compliant_def jettisonRuleset_def ptr_compliant_def
      conditions.default_complies rules.default_complies)

text \<open>
  C29. Synchronising a ruleset enforces the policy and is minimal: the result has the branch target,
  the default-branch condition, the pull-request rule and the status checks that Jettison requires;
  a difference is reported exactly when the ruleset did not comply; a second synchronisation reports
  none; and the ruleset's ID and name never change.
\<close>

theorem sync_ruleset_correct:
  "ruleset_compliant (fst (sync_ruleset r)) \<and> (snd (sync_ruleset r) \<longleftrightarrow> \<not> ruleset_compliant r)
   \<and> sync_ruleset (fst (sync_ruleset r)) = (fst (sync_ruleset r), False)
   \<and> rs_ID (fst (sync_ruleset r)) = rs_ID r \<and> rs_Name (fst (sync_ruleset r)) = rs_Name r"
  using rulesets.complies rulesets.reports rulesets.sync_twice by simp

text \<open>
  Synchronising the repository settings leaves squash merging as the only merge method, with
  branch updates, auto-merge and branch deletion on; a difference is reported exactly when one of
  the six settings was absent or different; and a second synchronisation reports none.
\<close>

lemma sync_repo_correct:
  "repo_compliant (fst (sync_repo r)) \<and> (snd (sync_repo r) \<longleftrightarrow> \<not> repo_compliant r)
   \<and> sync_repo (fst (sync_repo r)) = (fst (sync_repo r), False)
   \<and> repo_Rest (fst (sync_repo r)) = repo_Rest r"
proof -
  have "repo_Rest (fst (sync_repo r)) = repo_Rest r"
    by (cases r) (simp add: sync_repo_def fix_if_def)
  then show ?thesis using repo_settings.complies repo_settings.reports repo_settings.sync_twice by simp
qed

section \<open>A repository ends in sync\<close>

text \<open>
  What the code relies on of the GitHub REST API, stated over the settings \<open>R\<close> and the rulesets
  \<open>S\<close> of each repository: reads change nothing and return the current values, an accepted edit
  stores what was sent, ruleset IDs are unique, and the list call returns the IDs and names of a
  first page of 30 rulesets (the default page size).
\<close>

type_synonym 'w repo_view = "'w \<Rightarrow> string \<times> string \<Rightarrow> repo_settings option"
type_synonym 'w ruleset_view = "'w \<Rightarrow> string \<times> string \<Rightarrow> ruleset list"

definition ruleset_key :: "ruleset \<Rightarrow> int option \<times> string" where
  "ruleset_key r = (rs_ID r, rs_Name r)"

definition same_views :: "'w repo_view \<Rightarrow> 'w ruleset_view \<Rightarrow> 'w \<Rightarrow> 'w \<Rightarrow> bool" where
  "same_views R S w w' \<longleftrightarrow> R w' = R w \<and> S w' = S w"

definition lawful_reads :: "'w github_client \<Rightarrow> 'w repo_view \<Rightarrow> 'w ruleset_view \<Rightarrow> bool" where
  "lawful_reads gh R S \<longleftrightarrow>
     (\<forall>w org n. distinct (map rs_ID (S w (org, n))))
     \<and> (\<forall>w org n r w'. gh_FindInstallation gh org n w = (r, w') \<longrightarrow> same_views R S w w')
     \<and> (\<forall>w i org n r w'. gh_GetRepo gh i org n w = (r, w') \<longrightarrow>
          same_views R S w w' \<and> (\<forall>s. r = Inr s \<longrightarrow> R w (org, n) = Some s))
     \<and> (\<forall>w i org n r w'. gh_GetAllRulesets gh i org n w = (r, w') \<longrightarrow>
          same_views R S w w'
          \<and> (\<forall>l. r = Inr l \<longrightarrow> map ruleset_key l = map ruleset_key (take 30 (S w (org, n)))))
     \<and> (\<forall>w i org n rid r w'. gh_GetRuleset gh i org n rid w = (r, w') \<longrightarrow>
          same_views R S w w' \<and> (\<forall>x. r = Inr x \<longrightarrow> x \<in> set (S w (org, n)) \<and> rs_ID x = Some rid))"

definition lawful_writes :: "'w github_client \<Rightarrow> 'w repo_view \<Rightarrow> 'w ruleset_view \<Rightarrow> bool" where
  "lawful_writes gh R S \<longleftrightarrow>
     (\<forall>w i org n s w'. gh_EditRepo gh i org n s w = (Inr (), w') \<longrightarrow>
          R w' = (R w)((org, n) \<mapsto> s) \<and> S w' = S w)
     \<and> (\<forall>w i org n x w'. gh_CreateRuleset gh i org n x w = (Inr (), w') \<longrightarrow>
          R w' = R w \<and> (\<exists>rid. S w' = (S w)((org, n) := S w (org, n) @ [x\<lparr>rs_ID := Some rid\<rparr>])))
     \<and> (\<forall>w i org n rid x w'. gh_UpdateRuleset gh i org n rid x w = (Inr (), w') \<longrightarrow>
          rs_ID x = Some rid \<longrightarrow>
          R w' = R w
          \<and> S w' = (S w)((org, n) := map (\<lambda>y. if rs_ID y = Some rid then x else y) (S w (org, n))))"

lemma lawful_IDs: "lawful_reads gh R S \<Longrightarrow> distinct (map rs_ID (S w (org, n)))"
  by (simp add: lawful_reads_def)

lemma lawful_FindInstallation:
  "lawful_reads gh R S \<Longrightarrow> gh_FindInstallation gh org n w = (r, w') \<Longrightarrow> same_views R S w w'"
  unfolding lawful_reads_def by (elim conjE) metis

lemma lawful_GetRepo:
  assumes "lawful_reads gh R S" and "gh_GetRepo gh i org n w = (r, w')"
  shows "same_views R S w w'" and "r = Inr s \<Longrightarrow> R w (org, n) = Some s"
  using assms unfolding lawful_reads_def by (elim conjE, metis)+

lemma lawful_GetAllRulesets:
  assumes "lawful_reads gh R S" and "gh_GetAllRulesets gh i org n w = (r, w')"
  shows "same_views R S w w'"
    and "r = Inr l \<Longrightarrow> map ruleset_key l = map ruleset_key (take 30 (S w (org, n)))"
  using assms unfolding lawful_reads_def by (elim conjE, metis)+

lemma lawful_GetRuleset:
  assumes "lawful_reads gh R S" and "gh_GetRuleset gh i org n rid w = (r, w')"
  shows "same_views R S w w'" and "r = Inr x \<Longrightarrow> x \<in> set (S w (org, n)) \<and> rs_ID x = Some rid"
  using assms unfolding lawful_reads_def by (elim conjE, metis)+

lemma lawful_EditRepo:
  "lawful_writes gh R S \<Longrightarrow> gh_EditRepo gh i org n s w = (Inr (), w')
     \<Longrightarrow> R w' = (R w)((org, n) \<mapsto> s) \<and> S w' = S w"
  unfolding lawful_writes_def by (elim conjE) metis

lemma lawful_CreateRuleset:
  "lawful_writes gh R S \<Longrightarrow> gh_CreateRuleset gh i org n x w = (Inr (), w')
     \<Longrightarrow> R w' = R w \<and> (\<exists>rid. S w' = (S w)((org, n) := S w (org, n) @ [x\<lparr>rs_ID := Some rid\<rparr>]))"
  unfolding lawful_writes_def by (elim conjE) blast

lemma lawful_UpdateRuleset:
  "lawful_writes gh R S \<Longrightarrow> gh_UpdateRuleset gh i org n rid x w = (Inr (), w') \<Longrightarrow> rs_ID x = Some rid
     \<Longrightarrow> R w' = R w
       \<and> S w' = (S w)((org, n) := map (\<lambda>y. if rs_ID y = Some rid then x else y) (S w (org, n)))"
  unfolding lawful_writes_def by (elim conjE) blast

definition default_ruleset :: "ruleset list \<Rightarrow> ruleset option" where
  "default_ruleset rs = find (\<lambda>r. rs_Name r = defaultRulesetName) rs"

text \<open>The repository is in sync: settings and default ruleset comply.\<close>

definition repo_in_sync :: "'w repo_view \<Rightarrow> 'w ruleset_view \<Rightarrow> 'w \<Rightarrow> string \<times> string \<Rightarrow> bool" where
  "repo_in_sync R S w k \<longleftrightarrow>
     ptr_compliant repo_compliant (R w k) \<and> ptr_compliant ruleset_compliant (default_ruleset (S w k))"

lemma default_ruleset_key:
  "map ruleset_key l = map ruleset_key l' \<Longrightarrow>
     map_option ruleset_key (default_ruleset l) = map_option ruleset_key (default_ruleset l')"
proof (induction l arbitrary: l')
  case (Cons r l)
  then obtain r' l'' where "l' = r' # l''" by (cases l') auto
  with Cons show ?case by (auto simp: default_ruleset_def ruleset_key_def)
qed (simp add: default_ruleset_def)

lemma default_ruleset_Some:
  "default_ruleset l = Some r \<Longrightarrow> r \<in> set l \<and> rs_Name r = defaultRulesetName"
  by (auto simp: default_ruleset_def find_Some_iff)

lemma default_ruleset_update:
  assumes "default_ruleset l = Some r" and "distinct (map rs_ID l)" and "rs_Name r' = defaultRulesetName"
  shows "default_ruleset (map (\<lambda>y. if rs_ID y = rs_ID r then r' else y) l) = Some r'"
  using assms
proof (induction l)
  case (Cons y l)
  show ?case
  proof (cases "rs_Name y = defaultRulesetName")
    case True
    with Cons.prems show ?thesis by (simp add: default_ruleset_def)
  next
    case False
    then have l: "default_ruleset l = Some r" using Cons.prems(1) by (simp add: default_ruleset_def)
    then have "r \<in> set l" using default_ruleset_Some by blast
    then have "rs_ID y \<noteq> rs_ID r" using Cons.prems(2) by (auto simp: rev_image_eqI)
    with False Cons l show ?thesis by (simp add: default_ruleset_def)
  qed
qed (simp add: default_ruleset_def)

lemma default_ruleset_append:
  "default_ruleset l = None \<Longrightarrow> rs_Name r = defaultRulesetName \<Longrightarrow> default_ruleset (l @ [r]) = Some r"
  by (induction l) (auto simp: default_ruleset_def split: if_splits)

lemma distinct_key_eq:
  "distinct (map rs_ID l) \<Longrightarrow> x \<in> set l \<Longrightarrow> y \<in> set l \<Longrightarrow> rs_ID x = rs_ID y \<Longrightarrow> x = y"
  by (induction l) (auto simp: rev_image_eqI)

lemma find_default_ruleset_Inr:
  assumes reads: "lawful_reads gh R S"
    and l: "map ruleset_key l = map ruleset_key (S w (org, n))"
    and f: "find_default_ruleset gh i org n l w = (r, w')"
  shows "same_views R S w w' \<and> (\<forall>p. r = Inr p \<longrightarrow> p = default_ruleset (S w (org, n)))"
proof (cases "default_ruleset l")
  case None
  then have "default_ruleset (S w (org, n)) = None"
    using default_ruleset_key [OF l] by simp
  with None f show ?thesis
    by (auto simp: find_default_ruleset_def default_ruleset_def same_views_def)
next
  case (Some y)
  then obtain z where z: "default_ruleset (S w (org, n)) = Some z" and yz: "ruleset_key y = ruleset_key z"
    using default_ruleset_key [OF l] by (cases "default_ruleset (S w (org, n))") auto
  have dist: "distinct (map rs_ID (S w (org, n)))"
    by (rule lawful_IDs [OF reads])
  have uniq: "x = z" if "x \<in> set (S w (org, n))" "rs_ID x = rs_ID z" for x
    using distinct_key_eq [OF dist that(1) _ that(2)] default_ruleset_Some [OF z] by blast
  have find: "find (\<lambda>r. rs_Name r = defaultRulesetName) l = Some y"
    using Some by (simp add: default_ruleset_def)
  show ?thesis
  proof (cases "rs_ID y")
    case None
    with find f show ?thesis by (auto simp: find_default_ruleset_def bind_op_def same_views_def)
  next
    case (Some rid)
    obtain r1 w1 where g: "gh_GetRuleset gh i org n rid w = (r1, w1)" by fastforce
    note same = lawful_GetRuleset(1) [OF reads g] and full = lawful_GetRuleset(2) [OF reads g]
    have "rs_ID z = Some rid" using yz Some by (simp add: ruleset_key_def)
    then have "r1 = Inr x \<Longrightarrow> x = z" for x using full [of x] uniq by simp
    with f find Some g same z show ?thesis
      by (cases r1) (auto simp: find_default_ruleset_def bind_op_def call_wrapped_def)
  qed
qed

lemma sync_repo_settings_Inr:
  assumes "lawful_reads gh R S" and "lawful_writes gh R S"
    and run: "sync_repo_settings gh i org n w = (Inr u, w')"
  shows "S w' = S w \<and> ptr_compliant repo_compliant (R w' (org, n))
    \<and> (\<forall>k. k \<noteq> (org, n) \<longrightarrow> R w' k = R w k)"
proof -
  let ?rest = "\<lambda>repo. case sync_repo repo of (repo', hasDiff) \<Rightarrow>
       if hasDiff then
         call_wrapped (''failed to edit repo settings '' @ repo_label org n) (gh_EditRepo gh i org n repo')
       else return ()"
  from run obtain repo w1 where g: "gh_GetRepo gh i org n w = (Inr repo, w1)"
    and e: "?rest repo w1 = (Inr u, w')"
    unfolding sync_repo_settings_def bind_op_Inr call_wrapped_Inr by blast
  from lawful_GetRepo [OF assms(1) g] have w1: "R w1 = R w" "S w1 = S w" "R w (org, n) = Some repo"
    by (simp_all add: same_views_def)
  show ?thesis
  proof (cases "repo_compliant repo")
    case True
    with e have "w' = w1" by (simp add: repo_settings.sync_compliant)
    with w1 True show ?thesis by (simp add: ptr_compliant_def)
  next
    case False
    then have "snd (sync_repo repo)" by (simp add: repo_settings.reports)
    with e have "gh_EditRepo gh i org n (fst (sync_repo repo)) w1 = (Inr (), w')"
      by (simp add: case_prod_unfold)
    from lawful_EditRepo [OF assms(2) this] w1 show ?thesis by (simp add: ptr_compliant_def repo_settings.complies)
  qed
qed

lemma sync_rulesets_Inr:
  assumes reads: "lawful_reads gh R S" and writes: "lawful_writes gh R S"
    and page: "length (S w (org, n)) \<le> 30"
    and run: "sync_rulesets gh i org n w = (Inr u, w')"
  shows "R w' = R w \<and> ptr_compliant ruleset_compliant (default_ruleset (S w' (org, n)))
    \<and> (\<forall>k. k \<noteq> (org, n) \<longrightarrow> S w' k = S w k)"
proof -
  from run obtain l w1 p w2 where g: "gh_GetAllRulesets gh i org n w = (Inr l, w1)"
    and f: "find_default_ruleset gh i org n l w1 = (Inr p, w2)"
    and e: "sync_found_ruleset gh i org n p w2 = (Inr u, w')"
    unfolding sync_rulesets_def bind_op_Inr call_wrapped_Inr by blast
  from lawful_GetAllRulesets [OF reads g] have w1: "R w1 = R w" "S w1 = S w"
    and l: "map ruleset_key l = map ruleset_key (take 30 (S w (org, n)))"
    by (simp_all add: same_views_def)
  from l page w1 have "map ruleset_key l = map ruleset_key (S w1 (org, n))" by simp
  from find_default_ruleset_Inr [OF reads this f] w1
  have w2: "R w2 = R w" "S w2 = S w" and p: "p = default_ruleset (S w (org, n))"
    by (auto simp: same_views_def)
  have dist: "distinct (map rs_ID (S w (org, n)))"
    by (rule lawful_IDs [OF reads])
  show ?thesis
  proof (cases p)
    case None
    with e have "gh_CreateRuleset gh i org n jettisonRuleset w2 = (Inr (), w')"
      by (simp add: sync_found_ruleset_def)
    from lawful_CreateRuleset [OF writes this] obtain rid where "R w' = R w2"
      and "S w' = (S w2)((org, n) := S w2 (org, n) @ [jettisonRuleset\<lparr>rs_ID := Some rid\<rparr>])"
      by blast
    moreover have "default_ruleset (S w (org, n) @ [jettisonRuleset\<lparr>rs_ID := Some rid\<rparr>])
        = Some (jettisonRuleset\<lparr>rs_ID := Some rid\<rparr>)"
      using None p by (intro default_ruleset_append) (simp_all add: jettisonRuleset_def)
    moreover have "ruleset_compliant (jettisonRuleset\<lparr>rs_ID := Some rid\<rparr>)"
      using jettisonRuleset_compliant by (simp add: ruleset_compliant_def)
    ultimately show ?thesis using w2 by (simp add: ptr_compliant_def)
  next
    case (Some r)
    then have r: "default_ruleset (S w (org, n)) = Some r" using p by simp
    show ?thesis
    proof (cases "ruleset_compliant r")
      case True
      with e Some have "w' = w2" by (simp add: sync_found_ruleset_def rulesets.sync_compliant)
      with w2 True r show ?thesis by (simp add: ptr_compliant_def)
    next
      case False
      then have "snd (sync_ruleset r)" by (simp add: rulesets.reports)
      with e Some obtain rid where rid: "rs_ID r = Some rid"
        and "gh_UpdateRuleset gh i org n rid (fst (sync_ruleset r)) w2 = (Inr (), w')"
        by (auto simp: sync_found_ruleset_def case_prod_unfold)
      from lawful_UpdateRuleset [OF writes this(2)] this(1) have "R w' = R w2" and "S w' = (S w2)((org, n) :=
          map (\<lambda>y. if rs_ID y = Some rid then fst (sync_ruleset r) else y) (S w2 (org, n)))"
        by simp_all
      moreover have "default_ruleset
          (map (\<lambda>y. if rs_ID y = Some rid then fst (sync_ruleset r) else y) (S w (org, n)))
          = Some (fst (sync_ruleset r))"
        using default_ruleset_update [OF r dist, of "fst (sync_ruleset r)"] default_ruleset_Some [OF r] rid
        by simp
      ultimately show ?thesis using w2 by (simp add: ptr_compliant_def rulesets.complies)
    qed
  qed
qed

lemma find_installation_same:
  assumes "lawful_reads gh R S" and "find_installation gh org n w = (r, w')"
  shows "R w' = R w \<and> S w' = S w"
proof -
  obtain r1 where "gh_FindInstallation gh org n w = (r1, w')"
    using assms(2) by (auto simp: find_installation_def split: prod.splits sum.splits)
  from lawful_FindInstallation [OF assms(1) this] show ?thesis by (simp add: same_views_def)
qed

lemma SyncGitHubSettings_Inr:
  assumes "lawful_reads gh R S" and "lawful_writes gh R S"
    and "length (S w (repoOrg, repoName)) \<le> 30"
    and "SyncGitHubSettingsForRepo gh repoOrg repoName w = (Inr u, w')"
  shows "repo_in_sync R S w' (repoOrg, repoName)
    \<and> (\<forall>k. k \<noteq> (repoOrg, repoName) \<longrightarrow> R w' k = R w k \<and> S w' k = S w k)"
proof -
  from assms(4) obtain i w1 w2 where f: "find_installation gh repoOrg repoName w = (Inr i, w1)"
    and r: "sync_repo_settings gh i repoOrg repoName w1 = (Inr (), w2)"
    and s: "sync_rulesets gh i repoOrg repoName w2 = (Inr u, w')"
    by (auto simp: SyncGitHubSettingsForRepo_def)
  note f' = find_installation_same [OF assms(1) f]
  note r' = sync_repo_settings_Inr [OF assms(1,2) r]
  from f' r' assms(3) have "length (S w2 (repoOrg, repoName)) \<le> 30" by simp
  from sync_rulesets_Inr [OF assms(1,2) this s] f' r' show ?thesis
    by (simp add: repo_in_sync_def)
qed

text \<open>
  C22. A synchronisation that returns no error leaves the repository in sync: its settings comply, its
  \<open>default\<close> ruleset (created, updated or found) complies, and no other repository changed. This
  rests on the documented behaviour of the GitHub API, with at most one page of rulesets.
\<close>

theorem SyncGitHubSettings_in_sync:
  assumes "lawful_reads gh R S" and "lawful_writes gh R S"
    and "length (S w (repoOrg, repoName)) \<le> 30"
    and "SyncGitHubSettingsForRepo gh repoOrg repoName w = (Inr u, w')"
  shows "repo_in_sync R S w' (repoOrg, repoName)
    \<and> (\<forall>k. k \<noteq> (repoOrg, repoName) \<longrightarrow> R w' k = R w k \<and> S w' k = S w k)"
  using SyncGitHubSettings_Inr [OF assms] .

section \<open>A synchronisation completes\<close>

text \<open>
  A GitHub API that answers: the App is installed, reads succeed, the rulesets of the list have IDs
  and can be fetched by them, and writes that comply with the policy are accepted.
\<close>

definition answering :: "'w github_client \<Rightarrow> bool" where
  "answering gh \<longleftrightarrow>
     (\<forall>org n w. \<exists>i w'. gh_FindInstallation gh org n w = (Inr (Some i), w'))
     \<and> (\<forall>i org n w. \<exists>s w'. gh_GetRepo gh i org n w = (Inr s, w'))
     \<and> (\<forall>i org n s w. repo_compliant s \<longrightarrow> (\<exists>w'. gh_EditRepo gh i org n s w = (Inr (), w')))
     \<and> (\<forall>i org n w. \<exists>l w'. gh_GetAllRulesets gh i org n w = (Inr l, w')
          \<and> (\<forall>r \<in> set l. \<exists>rid x w''. rs_ID r = Some rid
               \<and> gh_GetRuleset gh i org n rid w' = (Inr x, w'') \<and> rs_ID x = Some rid))
     \<and> (\<forall>i org n x w. ruleset_compliant x \<longrightarrow> (\<exists>w'. gh_CreateRuleset gh i org n x w = (Inr (), w')))
     \<and> (\<forall>i org n rid x w. ruleset_compliant x \<and> rs_ID x = Some rid \<longrightarrow>
          (\<exists>w'. gh_UpdateRuleset gh i org n rid x w = (Inr (), w')))"

lemma answeringD:
  assumes "answering gh"
  shows "\<exists>i w'. gh_FindInstallation gh org n w = (Inr (Some i), w')"
    and "\<exists>s w'. gh_GetRepo gh i org n w = (Inr s, w')"
    and "repo_compliant s \<Longrightarrow> \<exists>w'. gh_EditRepo gh i org n s w = (Inr (), w')"
    and "\<exists>l w'. gh_GetAllRulesets gh i org n w = (Inr l, w')
          \<and> (\<forall>r \<in> set l. \<exists>rid x w''. rs_ID r = Some rid
               \<and> gh_GetRuleset gh i org n rid w' = (Inr x, w'') \<and> rs_ID x = Some rid)"
    and "ruleset_compliant x \<Longrightarrow> \<exists>w'. gh_CreateRuleset gh i org n x w = (Inr (), w')"
    and "ruleset_compliant x \<Longrightarrow> rs_ID x = Some rid \<Longrightarrow>
          \<exists>w'. gh_UpdateRuleset gh i org n rid x w = (Inr (), w')"
proof -
  note D = assms [unfolded answering_def]
  note D1 = D [THEN conjunct2] note D2 = D1 [THEN conjunct2] note D3 = D2 [THEN conjunct2]
  note D4 = D3 [THEN conjunct2] note D5 = D4 [THEN conjunct2]
  show "\<exists>i w'. gh_FindInstallation gh org n w = (Inr (Some i), w')"
    by (rule D [THEN conjunct1, THEN spec, THEN spec, THEN spec])
  show "\<exists>s w'. gh_GetRepo gh i org n w = (Inr s, w')"
    by (rule D1 [THEN conjunct1, THEN spec, THEN spec, THEN spec, THEN spec])
  show "repo_compliant s \<Longrightarrow> \<exists>w'. gh_EditRepo gh i org n s w = (Inr (), w')"
    by (rule D2 [THEN conjunct1, THEN spec, THEN spec, THEN spec, THEN spec, THEN spec, THEN mp])
  show "\<exists>l w'. gh_GetAllRulesets gh i org n w = (Inr l, w')
          \<and> (\<forall>r \<in> set l. \<exists>rid x w''. rs_ID r = Some rid
               \<and> gh_GetRuleset gh i org n rid w' = (Inr x, w'') \<and> rs_ID x = Some rid)"
    by (rule D3 [THEN conjunct1, THEN spec, THEN spec, THEN spec, THEN spec])
  show "ruleset_compliant x \<Longrightarrow> \<exists>w'. gh_CreateRuleset gh i org n x w = (Inr (), w')"
    by (rule D4 [THEN conjunct1, THEN spec, THEN spec, THEN spec, THEN spec, THEN spec, THEN mp])
  show "ruleset_compliant x \<Longrightarrow> rs_ID x = Some rid \<Longrightarrow>
          \<exists>w'. gh_UpdateRuleset gh i org n rid x w = (Inr (), w')"
    by (rule D5 [THEN spec, THEN spec, THEN spec, THEN spec, THEN spec, THEN spec, THEN mp]) simp
qed

lemma sync_repo_settings_total:
  assumes A: "answering gh"
  shows "\<exists>w'. sync_repo_settings gh i org n w = (Inr (), w')"
proof -
  from answeringD(2) [OF A] obtain s w1 where g: "gh_GetRepo gh i org n w = (Inr s, w1)" by blast
  from answeringD(3) [OF A repo_settings.complies] obtain w2 where
    "gh_EditRepo gh i org n (fst (sync_repo s)) w1 = (Inr (), w2)" by blast
  with g show ?thesis
    by (cases "sync_repo s") (simp add: sync_repo_settings_def bind_op_def call_wrapped_def)
qed

lemma sync_found_ruleset_total:
  assumes A: "answering gh" and "\<And>x. p = Some x \<Longrightarrow> rs_ID x \<noteq> None"
  shows "\<exists>w'. sync_found_ruleset gh i org n p w = (Inr (), w')"
proof (cases p)
  case None
  with answeringD(5) [OF A jettisonRuleset_compliant] show ?thesis by (simp add: sync_found_ruleset_def)
next
  case (Some x)
  with assms(2) obtain rid where "rs_ID x = Some rid" by auto
  then have rid: "rs_ID (fst (sync_ruleset x)) = Some rid" by simp
  from answeringD(6) [OF A rulesets.complies rid] obtain w2 where
    "gh_UpdateRuleset gh i org n rid (fst (sync_ruleset x)) w = (Inr (), w2)" by blast
  with Some rid show ?thesis by (cases "sync_ruleset x") (simp add: sync_found_ruleset_def)
qed

lemma sync_rulesets_total:
  assumes A: "answering gh"
  shows "\<exists>w'. sync_rulesets gh i org n w = (Inr (), w')"
proof -
  from answeringD(4) [OF A] obtain l w1 where l: "gh_GetAllRulesets gh i org n w = (Inr l, w1)"
    and ids: "\<forall>r \<in> set l. \<exists>rid x w''. rs_ID r = Some rid
        \<and> gh_GetRuleset gh i org n rid w1 = (Inr x, w'') \<and> rs_ID x = Some rid" by blast
  have "\<exists>p w2. find_default_ruleset gh i org n l w1 = (Inr p, w2) \<and> (\<forall>x. p = Some x \<longrightarrow> rs_ID x \<noteq> None)"
  proof (cases "find (\<lambda>r. rs_Name r = defaultRulesetName) l")
    case None
    then show ?thesis by (simp add: find_default_ruleset_def)
  next
    case (Some r)
    then have "r \<in> set l" by (auto simp: find_Some_iff)
    with ids obtain rid x w2 where "rs_ID r = Some rid" "gh_GetRuleset gh i org n rid w1 = (Inr x, w2)"
      "rs_ID x = Some rid" by blast
    with Some show ?thesis by (simp add: find_default_ruleset_def)
  qed
  then obtain p w2 where p: "find_default_ruleset gh i org n l w1 = (Inr p, w2)"
    "\<And>x. p = Some x \<Longrightarrow> rs_ID x \<noteq> None" by blast
  from sync_found_ruleset_total [OF A p(2)] l p(1) show ?thesis
    unfolding sync_rulesets_def bind_op_Inr call_wrapped_Inr by blast
qed

text \<open>So the synchronisation succeeds from every state, without a nil dereference.\<close>

lemma SyncGitHubSettings_total:
  assumes A: "answering gh"
  shows "\<exists>w'. SyncGitHubSettingsForRepo gh org n w = (Inr (), w')"
proof -
  from answeringD(1) [OF A] obtain i w1 where "gh_FindInstallation gh org n w = (Inr (Some i), w1)" by blast
  then have i: "find_installation gh org n w = (Inr i, w1)" by (simp add: find_installation_def)
  from sync_repo_settings_total [OF A] obtain w2 where s: "sync_repo_settings gh i org n w1 = (Inr (), w2)"
    by blast
  from sync_rulesets_total [OF A] obtain w3 where "sync_rulesets gh i org n w2 = (Inr (), w3)" by blast
  with i s show ?thesis unfolding SyncGitHubSettingsForRepo_def bind_op_Inr by blast
qed

section \<open>A repository in sync is not written to\<close>

text \<open>The same client with other write calls.\<close>

definition with_writes ::
  "(int \<Rightarrow> string \<Rightarrow> string \<Rightarrow> repo_settings \<Rightarrow> 'w \<Rightarrow> (go_error + unit) \<times> 'w)
     \<Rightarrow> (int \<Rightarrow> string \<Rightarrow> string \<Rightarrow> ruleset \<Rightarrow> 'w \<Rightarrow> (go_error + unit) \<times> 'w)
     \<Rightarrow> (int \<Rightarrow> string \<Rightarrow> string \<Rightarrow> int \<Rightarrow> ruleset \<Rightarrow> 'w \<Rightarrow> (go_error + unit) \<times> 'w)
     \<Rightarrow> 'w github_client \<Rightarrow> 'w github_client" where
  "with_writes ed cr up gh =
     gh\<lparr>gh_EditRepo := ed, gh_CreateRuleset := cr, gh_UpdateRuleset := up\<rparr>"

lemma sync_repo_settings_no_writes:
  assumes reads: "lawful_reads gh R S" and ok: "ptr_compliant repo_compliant (R w (org, n))"
  shows "sync_repo_settings (with_writes ed cr up gh) i org n w = sync_repo_settings gh i org n w
    \<and> (\<forall>r w'. sync_repo_settings gh i org n w = (r, w') \<longrightarrow> same_views R S w w')"
proof -
  obtain r w1 where g: "gh_GetRepo gh i org n w = (r, w1)" by fastforce
  note same = lawful_GetRepo(1) [OF reads g] and repo = lawful_GetRepo(2) [OF reads g]
  show ?thesis
  proof (cases r)
    case (Inl e)
    with g same show ?thesis
      by (simp add: sync_repo_settings_def with_writes_def bind_op_def call_wrapped_def)
  next
    case (Inr s)
    with repo ok have "repo_compliant s" by (simp add: ptr_compliant_def)
    with g same Inr show ?thesis
      by (simp add: sync_repo_settings_def with_writes_def bind_op_def call_wrapped_def
          repo_settings.sync_compliant)
  qed
qed

lemma sync_rulesets_no_writes:
  assumes reads: "lawful_reads gh R S" and page: "length (S w (org, n)) \<le> 30"
    and ok: "ptr_compliant ruleset_compliant (default_ruleset (S w (org, n)))"
  shows "sync_rulesets (with_writes ed cr up gh) i org n w = sync_rulesets gh i org n w"
proof -
  obtain r w1 where g: "gh_GetAllRulesets gh i org n w = (r, w1)" by fastforce
  note same = lawful_GetAllRulesets(1) [OF reads g] and list = lawful_GetAllRulesets(2) [OF reads g]
  have f': "find_default_ruleset (with_writes ed cr up gh) i org n l = find_default_ruleset gh i org n l" for l
    by (simp add: find_default_ruleset_def with_writes_def cong: option.case_cong)
  show ?thesis
  proof (cases r)
    case (Inl e)
    with g show ?thesis
      by (simp add: sync_rulesets_def with_writes_def bind_op_def call_wrapped_def)
  next
    case (Inr l)
    obtain p w2 where f: "find_default_ruleset gh i org n l w1 = (p, w2)" by fastforce
    have "map ruleset_key l = map ruleset_key (S w1 (org, n))"
      using list Inr page same by (simp add: same_views_def)
    from find_default_ruleset_Inr [OF reads this f] same
    have p: "p = Inr q \<Longrightarrow> q = default_ruleset (S w (org, n))" for q by (simp add: same_views_def)
    have found: "sync_found_ruleset (with_writes ed cr up gh) i org n q = sync_found_ruleset gh i org n q"
      if "p = Inr q" for q
    proof -
      from p [OF that] ok obtain x where "q = Some x" "ruleset_compliant x"
        by (auto simp: ptr_compliant_def split: option.splits)
      then show ?thesis by (auto simp: sync_found_ruleset_def rulesets.sync_compliant)
    qed
    have "gh_GetAllRulesets (with_writes ed cr up gh) i org n w = (r, w1)"
      using g by (simp add: with_writes_def)
    with g f Inr found show ?thesis
      by (cases p) (simp_all add: sync_rulesets_def f' bind_op_def call_wrapped_def)
  qed
qed

text \<open>
  C25. A repository that is in sync and has at most 30 rulesets, the first page of the list call, is
  never written to: its synchronisation returns the same result and leaves the same state whatever
  the edit, create and update calls would do, so none is made. (With more rulesets the default one
  may be on a later page, which the code does not read; it then creates another.)
\<close>

theorem SyncGitHubSettings_no_writes:
  assumes reads: "lawful_reads gh R S" and page: "length (S w (repoOrg, repoName)) \<le> 30"
    and ok: "repo_in_sync R S w (repoOrg, repoName)"
  shows "SyncGitHubSettingsForRepo (with_writes ed cr up gh) repoOrg repoName w
    = SyncGitHubSettingsForRepo gh repoOrg repoName w"
proof -
  let ?gh = "with_writes ed cr up gh"
  have inst: "find_installation ?gh repoOrg repoName w = find_installation gh repoOrg repoName w"
    by (simp add: find_installation_def with_writes_def)
  obtain r1 w1 where f: "find_installation gh repoOrg repoName w = (r1, w1)" by fastforce
  note f' = find_installation_same [OF reads f]
  show ?thesis
  proof (cases r1)
    case (Inl e)
    with inst f show ?thesis by (simp add: SyncGitHubSettingsForRepo_def bind_op_def)
  next
    case (Inr i)
    obtain r2 w2 where s: "sync_repo_settings gh i repoOrg repoName w1 = (r2, w2)" by fastforce
    have "ptr_compliant repo_compliant (R w1 (repoOrg, repoName))"
      using ok f' by (simp add: repo_in_sync_def)
    note s' = sync_repo_settings_no_writes [OF reads this, of ed cr up i]
    with s have "same_views R S w1 w2" by blast
    with f' ok page have "length (S w2 (repoOrg, repoName)) \<le> 30"
      "ptr_compliant ruleset_compliant (default_ruleset (S w2 (repoOrg, repoName)))"
      by (simp_all add: same_views_def repo_in_sync_def)
    from sync_rulesets_no_writes [OF reads this, of ed cr up i] inst f Inr s s' show ?thesis
      by (cases r2) (simp_all add: SyncGitHubSettingsForRepo_def bind_op_def)
  qed
qed

section \<open>A GitHub that behaves as documented\<close>

text \<open>Settings and rulesets of every repository; the ID of a ruleset is its position.\<close>

type_synonym github_store =
  "(string \<times> string \<Rightarrow> repo_settings option) \<times> (string \<times> string \<Rightarrow> ruleset list)"

definition numbered :: "ruleset list \<Rightarrow> ruleset list" where
  "numbered rs = map (\<lambda>(i, r). r\<lparr>rs_ID := Some (int i)\<rparr>) (enumerate 0 rs)"

definition store_repos :: "github_store repo_view" where
  "store_repos w = fst w"

definition store_rulesets :: "github_store ruleset_view" where
  "store_rulesets w = (\<lambda>k. numbered (snd w k))"

definition store_client :: "github_store github_client" where
  "store_client =
     \<lparr>gh_FindInstallation = (\<lambda>org n w. (Inr (Some 7), w)),
      gh_GetRepo = (\<lambda>i org n w.
        (case fst w (org, n) of None \<Rightarrow> Inl (LibError ''404'') | Some s \<Rightarrow> Inr s, w)),
      gh_EditRepo = (\<lambda>i org n s w. (Inr (), ((fst w)((org, n) \<mapsto> s), snd w))),
      gh_GetAllRulesets = (\<lambda>i org n w. (Inr (take 30 (numbered (snd w (org, n)))), w)),
      gh_GetRuleset = (\<lambda>i org n rid w.
        (case find (\<lambda>r. rs_ID r = Some rid) (numbered (snd w (org, n))) of
           None \<Rightarrow> Inl (LibError ''404'') | Some r \<Rightarrow> Inr r, w)),
      gh_CreateRuleset = (\<lambda>i org n r w.
        (Inr (), (fst w, (snd w)((org, n) := snd w (org, n) @ [r])))),
      gh_UpdateRuleset = (\<lambda>i org n rid r w.
        (Inr (), (fst w, (snd w)((org, n) :=
           map (\<lambda>y. if rs_ID y = Some rid then r else y) (numbered (snd w (org, n)))))))\<rparr>"

lemma numbered_nth: "i < length rs \<Longrightarrow> numbered rs ! i = (rs ! i)\<lparr>rs_ID := Some (int i)\<rparr>"
  by (simp add: numbered_def nth_enumerate_eq)

lemma numbered_length [simp]: "length (numbered rs) = length rs"
  by (simp add: numbered_def)

lemma numbered_distinct: "distinct (map rs_ID (numbered rs))"
  by (simp add: distinct_conv_nth numbered_nth)

lemma store_reads: "lawful_reads store_client store_repos store_rulesets"
  by (auto simp: lawful_reads_def same_views_def store_client_def store_repos_def store_rulesets_def
      numbered_distinct find_Some_iff split: option.splits)

lemma numbered_append: "numbered (rs @ [r]) = numbered rs @ [r\<lparr>rs_ID := Some (int (length rs))\<rparr>]"
  by (rule nth_equalityI) (auto simp: numbered_nth nth_append less_Suc_eq)

lemma numbered_update:
  assumes "rs_ID x = Some rid"
  shows "numbered (map (\<lambda>y. if rs_ID y = Some rid then x else y) (numbered rs))
    = map (\<lambda>y. if rs_ID y = Some rid then x else y) (numbered rs)"
proof (rule nth_equalityI)
  fix i assume "i < length (numbered (map (\<lambda>y. if rs_ID y = Some rid then x else y) (numbered rs)))"
  then have "i < length rs" by simp
  then show "numbered (map (\<lambda>y. if rs_ID y = Some rid then x else y) (numbered rs)) ! i
      = map (\<lambda>y. if rs_ID y = Some rid then x else y) (numbered rs) ! i"
    using assms by (cases x) (auto simp: numbered_nth)
qed simp

lemma store_writes: "lawful_writes store_client store_repos store_rulesets"
  by (auto simp: lawful_writes_def store_client_def store_repos_def store_rulesets_def fun_eq_iff
      numbered_append numbered_update)

definition sample_store :: github_store where
  "sample_store =
     ([(''org'', ''app'') \<mapsto>
        \<lparr>AllowMergeCommit = Some True, AllowSquashMerge = None, AllowRebaseMerge = Some False,
         AllowUpdateBranch = None, AllowAutoMerge = Some True, DeleteBranchOnMerge = None,
         repo_Rest = JNull\<rparr>],
      \<lambda>k. if k = (''org'', ''app'')
          then [jettisonRuleset\<lparr>rs_Enforcement := ''disabled'', rs_Rules := None\<rparr>] else [])"

definition synced_store :: github_store where
  "synced_store = snd (SyncGitHubSettingsForRepo store_client ''org'' ''app'' sample_store)"

lemmas sync_run_defs =
  synced_store_def SyncGitHubSettingsForRepo_def find_installation_def sync_repo_settings_def
  sync_rulesets_def find_default_ruleset_def sync_found_ruleset_def store_client_def
  sample_store_def bind_op_def call_wrapped_def sync_repo_def fix_if_def numbered_def
  jettisonRuleset_def case_prod_unfold

lemma sample_sync:
  "SyncGitHubSettingsForRepo store_client ''org'' ''app'' sample_store = (Inr (), synced_store)"
  by (simp add: sync_run_defs)

lemma synced_store_length: "length (store_rulesets synced_store (''org'', ''app'')) = 1"
  by (simp add: store_rulesets_def sync_run_defs)

theorem SyncGitHubSettings_in_sync_witness:
  "repo_in_sync store_repos store_rulesets synced_store (''org'', ''app'')"
  using SyncGitHubSettings_in_sync [OF store_reads store_writes _ sample_sync]
  by (simp add: store_rulesets_def sample_store_def)

text \<open>A client all of whose writes fail finds the synchronised repository in order.\<close>

theorem SyncGitHubSettings_no_writes_witness:
  "SyncGitHubSettingsForRepo (with_writes (\<lambda>i org n s w. (Inl (LibError ''403''), w))
       (\<lambda>i org n r w. (Inl (LibError ''403''), w)) (\<lambda>i org n rid r w. (Inl (LibError ''403''), w))
       store_client) ''org'' ''app'' synced_store
     = SyncGitHubSettingsForRepo store_client ''org'' ''app'' synced_store"
proof (rule SyncGitHubSettings_no_writes [OF store_reads])
  show "length (store_rulesets synced_store (''org'', ''app'')) \<le> 30"
    using synced_store_length by simp
  show "repo_in_sync store_repos store_rulesets synced_store (''org'', ''app'')"
    using SyncGitHubSettings_Inr [OF store_reads store_writes _ sample_sync]
    by (simp add: store_rulesets_def sample_store_def)
qed

end
