(* ===== verification/Reconciler.thy ===== *)
theory Reconciler
  imports Kube_Api Gh_Settings
begin

text \<open>
  \<open>FlowReconciler.Reconcile\<close> (\<open>internal/controller/flow_controller.go\<close>,
  \<open>flow_conditions.go\<close>), in the phases of the code: fetch and preprocess the flow, the objects
  of its namespace, the ArgoCD projects and applications, the sensor, the event source and GitHub
  settings, and the final condition. Logging is left out.
\<close>

section \<open>Conditions\<close>

definition conditionType :: string where
  "conditionType = ''Ready''"

definition setCondition ::
  "'w kube_client \<Rightarrow> string \<times> string \<Rightarrow> flow \<Rightarrow> condition \<Rightarrow> ('w rstate, unit) op" where
  "setCondition c req f cond =
     (case kc_SetCondition c cond (Conditions f) of (conditions, changed) \<Rightarrow>
       if \<not> changed then return ()
       else bind_op (on_world (call (kc_UpdateStatus c (f\<lparr>Conditions := conditions\<rparr>)))) (\<lambda>_.
            bind_op (on_world (call (kc_GetFlow c req))) (\<lambda>fetched.
              case fetched of
                None \<Rightarrow> throw (Failed (LibError ''not found''))
              | Some _ \<Rightarrow> return ())))"

definition failure_condition :: "string \<Rightarrow> string \<Rightarrow> condition" where
  "failure_condition reason message =
     \<lparr>cond_Type = conditionType, cond_Status = ''False'', cond_Reason = reason, cond_Message = message\<rparr>"

definition synced_condition :: condition where
  "synced_condition =
     \<lparr>cond_Type = conditionType, cond_Status = ''True'', cond_Reason = ''FlowSynced'',
      cond_Message = ''Successfully synced Flow resource''\<rparr>"

text \<open>
  \<open>x, err := build(...); if err != nil { set the condition; return }\<close> and then the rest.
\<close>

definition or_condition ::
  "'w kube_client \<Rightarrow> string \<times> string \<Rightarrow> flow \<Rightarrow> string \<Rightarrow> string \<Rightarrow> 'a res
     \<Rightarrow> ('a \<Rightarrow> ('w rstate, unit) op) \<Rightarrow> ('w rstate, unit) op" where
  "or_condition c req f reason what built rest =
     (case built of
        Inl (Failed e) \<Rightarrow> setCondition c req f (failure_condition reason (what @ '': '' @ error_text e))
      | Inl Panicked \<Rightarrow> throw Panicked
      | Inr x \<Rightarrow> rest x)"

section \<open>The objects of a namespace\<close>

definition event_bus_object :: "string \<Rightarrow> kobject" where
  "event_bus_object ns = map_spec EventBusSpec (BuildEventBus ns)"

definition pvc_object :: "string \<Rightarrow> kobject" where
  "pvc_object ns = map_spec PVCSpec (BuildBuildKitCachePVC ns)"

definition service_account_object :: "string \<Rightarrow> kobject" where
  "service_account_object ns = map_spec (\<lambda>_. ServiceAccountSpec) (BuildSensorServiceAccount ns)"

definition role_object :: "string \<Rightarrow> kobject" where
  "role_object ns = map_spec RoleSpec (BuildSensorRole ns)"

definition role_binding_object :: "string \<Rightarrow> kobject" where
  "role_binding_object ns = map_spec RoleBindingSpec (BuildSensorRoleBinding ns)"

definition sync_event_bus :: "'w kube_client \<Rightarrow> string \<Rightarrow> ('w rstate, bool) op" where
  "sync_event_bus c ns =
     ensure c (event_bus_object ns) (spec_drifted c (event_bus_object ns))
       (whole_spec (event_bus_object ns))"

definition sync_pvc :: "'w kube_client \<Rightarrow> string \<Rightarrow> ('w rstate, bool) op" where
  "sync_pvc c ns =
     (let requests = requests_of (obj_Spec (pvc_object ns)) in
      ensure c (pvc_object ns)
        (\<lambda>s. \<not> kc_Derivative c (CRequests requests) (CRequests (requests_of s)))
        (set_requests requests))"

definition sync_service_account :: "'w kube_client \<Rightarrow> string \<Rightarrow> ('w rstate, bool) op" where
  "sync_service_account c ns = ensure c (service_account_object ns) (\<lambda>_. False) (\<lambda>s. s)"

definition sync_role :: "'w kube_client \<Rightarrow> string \<Rightarrow> ('w rstate, bool) op" where
  "sync_role c ns =
     (let rules = rules_of (obj_Spec (role_object ns)) in
      ensure c (role_object ns)
        (\<lambda>s. \<not> kc_Derivative c (CRules rules) (CRules (rules_of s)))
        (\<lambda>_. RoleSpec rules))"

text \<open>The role of a binding cannot be changed: a binding to another role is deleted and created.\<close>

definition sync_role_binding :: "'w kube_client \<Rightarrow> string \<Rightarrow> ('w rstate, bool) op" where
  "sync_role_binding c ns =
     (let desired = role_binding_object ns; subjects = subjects_of (obj_Spec desired) in
      bind_op (kget c (key_of desired)) (\<lambda>existing.
        case existing of
          None \<Rightarrow> bind_op (kcreate c desired) (\<lambda>_. return True)
        | Some ob \<Rightarrow>
            if role_ref_of (obj_Spec ob) \<noteq> role_ref_of (obj_Spec desired) then
              bind_op (kdelete c ob) (\<lambda>_. bind_op (kcreate c desired) (\<lambda>_. return True))
            else if \<not> kc_Derivative c (CSubjects subjects) (CSubjects (subjects_of (obj_Spec ob))) then
              bind_op (kupdate c (ob\<lparr>obj_Spec := set_subjects subjects (obj_Spec ob)\<rparr>))
                (\<lambda>_. return True)
            else return False))"

definition sync_namespace_objects :: "'w kube_client \<Rightarrow> string \<Rightarrow> ('w rstate, bool) op" where
  "sync_namespace_objects c ns =
     bind_op (sync_event_bus c ns) (\<lambda>d1.
     bind_op (sync_pvc c ns) (\<lambda>d2.
     bind_op (sync_service_account c ns) (\<lambda>d3.
     bind_op (sync_role c ns) (\<lambda>d4.
     bind_op (sync_role_binding c ns) (\<lambda>d5.
     return (d1 \<or> d2 \<or> d3 \<or> d4 \<or> d5))))))"

definition sync_namespace :: "'w kube_client \<Rightarrow> string \<Rightarrow> ('w rstate, bool) op" where
  "sync_namespace c ns st =
     (if ns \<in> SyncedNamespaces st then (Inr False, st)
      else bind_op (sync_namespace_objects c ns) (\<lambda>d.
           bind_op (modify (SyncedNamespaces_update (insert ns))) (\<lambda>_. return d)) st)"

section \<open>Projects and applications\<close>

definition project_object :: "app_project_spec object \<Rightarrow> kobject" where
  "project_object p = map_spec AppProjectSpec p"

definition sync_project :: "'w kube_client \<Rightarrow> app_project_spec object \<Rightarrow> ('w rstate, bool) op" where
  "sync_project c p st =
     (if obj_Name p \<in> SyncedProjects st then (Inr False, st)
      else bind_op (ensure c (project_object p) (spec_drifted c (project_object p))
             (whole_spec (project_object p))) (\<lambda>d.
           bind_op (modify (SyncedProjects_update (insert (obj_Name p)))) (\<lambda>_. return d)) st)"

definition application_object :: "application_spec object \<Rightarrow> kobject" where
  "application_object a = map_spec ApplicationSpec a"

definition set_owner :: "'w kube_client \<Rightarrow> flow \<Rightarrow> kobject \<Rightarrow> ('w rstate, kobject) op" where
  "set_owner c f ob =
     (case kc_SetOwner c f ob of Inl e \<Rightarrow> throw (Failed e) | Inr ob' \<Rightarrow> return ob')"

text \<open>The owner is set between the fetch and the write, and its error returned in either case.\<close>

definition create_or_update ::
  "'w kube_client \<Rightarrow> kobject option \<Rightarrow> kobject \<Rightarrow> ('w rstate, bool) op" where
  "create_or_update c existing desired =
     (case existing of
        None \<Rightarrow> bind_op (kcreate c desired) (\<lambda>_. return True)
      | Some ob \<Rightarrow>
          if spec_drifted c desired (obj_Spec ob) then
            bind_op (kupdate c (ob\<lparr>obj_Spec := whole_spec desired (obj_Spec ob)\<rparr>)) (\<lambda>_. return True)
          else return False)"

definition sync_application ::
  "'w kube_client \<Rightarrow> flow \<Rightarrow> application_spec object \<Rightarrow> ('w rstate, bool) op" where
  "sync_application c f a =
     bind_op (kget c (key_of (application_object a))) (\<lambda>existing.
     bind_op (set_owner c f (application_object a)) (create_or_update c existing))"

text \<open>A loop over a slice that collects whether any iteration wrote something.\<close>

fun sync_each :: "('a \<Rightarrow> ('s, bool) op) \<Rightarrow> 'a list \<Rightarrow> ('s, bool) op" where
  "sync_each f [] = return False"
| "sync_each f (x # xs) = bind_op (f x) (\<lambda>d. bind_op (sync_each f xs) (\<lambda>d'. return (d \<or> d')))"

section \<open>Event source and GitHub settings\<close>

fun getTriggerRepoUrl :: "string \<Rightarrow> base_trigger list \<Rightarrow> string res" where
  "getTriggerRepoUrl flowName [] =
     Inl (Failed (Errorf (''did not find trigger for flow: '' @ flowName)))"
| "getTriggerRepoUrl flowName (OtherTrigger n # ts) =
     Inl (Failed (Errorf (''unknown trigger type for flow '' @ flowName @ '': '' @ n)))"
| "getTriggerRepoUrl flowName (GitHubPullRequestTrigger t # ts) = Inr (prt_RepoUrl t)"
| "getTriggerRepoUrl flowName (GitHubPushTrigger t # ts) = Inr (pst_RepoUrl t)"

definition getTriggerRepoName :: "string \<Rightarrow> base_trigger list \<Rightarrow> (string \<times> string) res" where
  "getTriggerRepoName flowName flowTriggers =
     and_then (getTriggerRepoUrl flowName flowTriggers) GetRepoOrgName"

definition event_source_object :: "string \<Rightarrow> string \<Rightarrow> kobject" where
  "event_source_object repoOrg repoName = map_spec EventSourceSpec (BuildEventSource repoOrg repoName)"

definition sync_event_source :: "'w kube_client \<Rightarrow> string \<Rightarrow> string \<Rightarrow> ('w rstate, bool) op" where
  "sync_event_source c repoOrg repoName =
     bind_op (kget c (key_of (event_source_object repoOrg repoName))) (\<lambda>existing.
       case existing of
         None \<Rightarrow> bind_op (kcreate c (event_source_object repoOrg repoName)) (\<lambda>_. return True)
       | Some ob \<Rightarrow>
           bind_op (pure_res (mergeOwnedRepos (event_source_of (obj_Spec ob)) repoOrg repoName))
             (\<lambda>(merged, needsUpdate).
               if needsUpdate then
                 bind_op (kupdate c (ob\<lparr>obj_Spec := EventSourceSpec merged\<rparr>)) (\<lambda>_. return True)
               else return False))"

definition repo_synced :: "(string \<rightharpoonup> string set) \<Rightarrow> string \<Rightarrow> string \<Rightarrow> bool" where
  "repo_synced m repoOrg repoName \<longleftrightarrow> (case m repoOrg of None \<Rightarrow> False | Some names \<Rightarrow> repoName \<in> names)"

definition mark_repo :: "string \<Rightarrow> string \<Rightarrow> (string \<rightharpoonup> string set) \<Rightarrow> (string \<rightharpoonup> string set)" where
  "mark_repo repoOrg repoName m =
     m(repoOrg \<mapsto> insert repoName (case m repoOrg of None \<Rightarrow> {} | Some names \<Rightarrow> names))"

definition sync_trigger_repo ::
  "'w kube_client \<Rightarrow> 'w github_client \<Rightarrow> string \<times> string \<Rightarrow> ('w rstate, bool) op" where
  "sync_trigger_repo c gh repo st =
     (case repo of (repoOrg, repoName) \<Rightarrow>
       if repo_synced (SyncedRepos st) repoOrg repoName then (Inr False, st)
       else bind_op (sync_event_source c repoOrg repoName) (\<lambda>d.
            bind_op (on_world (SyncGitHubSettingsForRepo gh repoOrg repoName)) (\<lambda>_.
            bind_op (modify (SyncedRepos_update (mark_repo repoOrg repoName))) (\<lambda>_. return d))) st)"

section \<open>Reconcile\<close>

definition sensor_object :: "sensor_spec object \<Rightarrow> kobject" where
  "sensor_object s = map_spec SensorSpec s"

definition finish ::
  "'w kube_client \<Rightarrow> string \<times> string \<Rightarrow> flow \<Rightarrow> bool \<Rightarrow> ('w rstate, unit) op" where
  "finish c req f detectedDrift =
     (if detectedDrift then setCondition c req f synced_condition else return ())"

definition reconcile_sensor ::
  "'w kube_client \<Rightarrow> (workflow \<Rightarrow> go_error + string) \<Rightarrow> string \<times> string \<Rightarrow> flow
     \<Rightarrow> base_trigger list \<Rightarrow> base_step list \<Rightarrow> (bool \<Rightarrow> ('w rstate, unit) op) \<Rightarrow> ('w rstate, unit) op" where
  "reconcile_sensor c marshal req f flowTriggers flowSteps rest =
     bind_op (kget c (SensorKind, req)) (\<lambda>existing.
     or_condition c req f ''SensorBuildFailed'' ''Failed to build Sensor''
       (BuildSensor marshal f flowTriggers flowSteps) (\<lambda>sensor.
     bind_op (set_owner c f (sensor_object sensor)) (\<lambda>owned.
     bind_op (create_or_update c existing owned) rest)))"

definition reconcile_repo ::
  "'w kube_client \<Rightarrow> 'w github_client \<Rightarrow> string \<times> string \<Rightarrow> flow \<Rightarrow> base_trigger list
     \<Rightarrow> (bool \<Rightarrow> ('w rstate, unit) op) \<Rightarrow> ('w rstate, unit) op" where
  "reconcile_repo c gh req f flowTriggers rest =
     or_condition c req f ''EventSourceFailed'' ''Failed to get repo name for EventSource''
       (getTriggerRepoName (flow_Name f) flowTriggers) (\<lambda>repo.
     bind_op (sync_trigger_repo c gh repo) rest)"

definition reconcile_flow ::
  "'w kube_client \<Rightarrow> 'w github_client \<Rightarrow> (workflow \<Rightarrow> go_error + string) \<Rightarrow> string \<times> string \<Rightarrow> flow
     \<Rightarrow> base_trigger list \<times> base_step list \<Rightarrow> ('w rstate, unit) op" where
  "reconcile_flow c gh marshal req f ts_ss =
     (case ts_ss of (flowTriggers, flowSteps) \<Rightarrow>
     bind_op (sync_namespace c (flow_Namespace f)) (\<lambda>d1.
     or_condition c req f ''AppBuildFailed'' ''Failed to build Flow applications''
       (BuildArgoApps flowSteps) (\<lambda>(ps, as).
     bind_op (sync_each (sync_project c) ps) (\<lambda>d2.
     bind_op (sync_each (sync_application c f) as) (\<lambda>d3.
     reconcile_sensor c marshal req f flowTriggers flowSteps (\<lambda>d4.
     reconcile_repo c gh req f flowTriggers (\<lambda>d5.
     finish c req f (d1 \<or> d2 \<or> d3 \<or> d4 \<or> d5))))))))"

definition Reconcile ::
  "'w kube_client \<Rightarrow> 'w github_client \<Rightarrow> (workflow \<Rightarrow> go_error + string)
     \<Rightarrow> volume decoder \<Rightarrow> volume_mount decoder \<Rightarrow> string \<times> string \<Rightarrow> ('w rstate, unit) op" where
  "Reconcile c gh marshal dv dm req =
     bind_op (on_world (call (kc_GetFlow c req))) (\<lambda>fetched.
       case fetched of
         None \<Rightarrow> return ()
       | Some f0 \<Rightarrow>
           (case PreProcessFlow dv dm f0 of (f, processed) \<Rightarrow>
              or_condition c req f ''PreProcessFailed'' ''Failed to preprocess Flow'' processed
                (reconcile_flow c gh marshal req f)))"

end
