(* ===== verification/Reconciler_Objects.thy ===== *)
theory Reconciler_Objects
  imports Reconciler
begin

text \<open>
  Objects in sync and the steps for single objects: the documented behaviour of the Kubernetes API,
  when an object has what the reconciler asks for, and that each create-or-update step of
  \<open>flow_controller.go\<close> brings its object into sync, writes nothing when it already is, and leaves
  the other objects alone.
\<close>

section \<open>The documented behaviour of the Kubernetes API\<close>

text \<open>An existing spec has what a desired spec asks for, as the reconciler compares them.\<close>

fun in_sync :: "'w kube_client \<Rightarrow> kube_spec \<Rightarrow> kube_spec \<Rightarrow> bool" where
  "in_sync c (PVCSpec p) e =
     kc_Derivative c (CRequests (pvc_Requests p)) (CRequests (requests_of e))"
| "in_sync c ServiceAccountSpec e = True"
| "in_sync c (RoleSpec r) e = kc_Derivative c (CRules r) (CRules (rules_of e))"
| "in_sync c (RoleBindingSpec b) e =
     (role_ref_of e = Some (rb_RoleRef b)
      \<and> kc_Derivative c (CSubjects (rb_Subjects b)) (CSubjects (subjects_of e)))"
| "in_sync c (EventSourceSpec s) e =
     (owned_set (section_repos s) \<subseteq> owned_set (section_repos (event_source_of e)))"
| "in_sync c s e = kc_Derivative c (CSpec s) (CSpec e)"

type_synonym 'w objects = "'w \<Rightarrow> key \<Rightarrow> kobject option"
type_synonym 'w flows = "'w \<Rightarrow> string \<times> string \<Rightarrow> flow option"

text \<open>
  The server stores an object that has what was sent, defaulted fields included. This takes it that
  the comparison of the code sees the stored object as in sync with the sent one; for the workflow in a
  sensor, which is raw JSON, that holds if the server gives back the bytes that were sent. And reads,
  which go through a cache, are taken to see the writes of the run.
\<close>

definition stored :: "'w kube_client \<Rightarrow> 'w objects \<Rightarrow> kobject \<Rightarrow> 'w \<Rightarrow> 'w \<Rightarrow> bool" where
  "stored c K ob w w' \<longleftrightarrow>
     (\<exists>ob'. key_of ob' = key_of ob \<and> in_sync c (obj_Spec ob) (obj_Spec ob')
        \<and> K w' = (K w)(key_of ob \<mapsto> ob'))"

definition flow_key :: "flow \<Rightarrow> string \<times> string" where
  "flow_key f = (flow_Namespace f, flow_Name f)"

definition lawful_objects :: "'w kube_client \<Rightarrow> 'w objects \<Rightarrow> 'w flows \<Rightarrow> bool" where
  "lawful_objects c K F \<longleftrightarrow>
     (\<forall>w k ob. K w k = Some ob \<longrightarrow> key_of ob = k)
     \<and> (\<forall>w k r w'. kc_Get c k w = (r, w') \<longrightarrow>
          K w' = K w \<and> F w' = F w \<and> (\<forall>x. r = Inr x \<longrightarrow> x = K w k))
     \<and> (\<forall>w ob r w'. kc_Create c ob w = (r, w') \<longrightarrow>
          F w' = F w \<and> (stored c K ob w w' \<or> r \<noteq> Inr () \<and> K w' = K w))
     \<and> (\<forall>w ob r w'. kc_Update c ob w = (r, w') \<longrightarrow>
          F w' = F w \<and> (stored c K ob w w' \<or> r \<noteq> Inr () \<and> K w' = K w))
     \<and> (\<forall>w ob r w'. kc_Delete c ob w = (r, w') \<longrightarrow>
          F w' = F w \<and> (K w' = (K w)(key_of ob := None) \<or> r \<noteq> Inr () \<and> K w' = K w))
     \<and> (\<forall>f ob ob'. kc_SetOwner c f ob = Inr ob' \<longrightarrow>
          key_of ob' = key_of ob \<and> obj_Spec ob' = obj_Spec ob)"

definition lawful_flows :: "'w kube_client \<Rightarrow> 'w objects \<Rightarrow> 'w flows \<Rightarrow> bool" where
  "lawful_flows c K F \<longleftrightarrow>
     (\<forall>w req f. F w req = Some f \<longrightarrow> flow_key f = req)
     \<and> (\<forall>w req r w'. kc_GetFlow c req w = (r, w') \<longrightarrow>
          K w' = K w \<and> F w' = F w \<and> (\<forall>x. r = Inr x \<longrightarrow> x = F w req))
     \<and> (\<forall>w f r w'. kc_UpdateStatus c f w = (r, w') \<longrightarrow>
          K w' = K w
          \<and> (F w' = (F w)(flow_key f :=
                map_option (\<lambda>g. g\<lparr>Conditions := Conditions f\<rparr>) (F w (flow_key f)))
             \<or> r \<noteq> Inr () \<and> F w' = F w))"

text \<open>The GitHub API has no access to the cluster.\<close>

definition same_cluster :: "'w objects \<Rightarrow> 'w flows \<Rightarrow> 'w \<Rightarrow> 'w \<Rightarrow> bool" where
  "same_cluster K F w w' \<longleftrightarrow> K w' = K w \<and> F w' = F w"

definition github_apart :: "'w github_client \<Rightarrow> 'w objects \<Rightarrow> 'w flows \<Rightarrow> bool" where
  "github_apart gh K F \<longleftrightarrow>
     (\<forall>org n w r w'. gh_FindInstallation gh org n w = (r, w') \<longrightarrow> same_cluster K F w w')
     \<and> (\<forall>i org n w r w'. gh_GetRepo gh i org n w = (r, w') \<longrightarrow> same_cluster K F w w')
     \<and> (\<forall>i org n s w r w'. gh_EditRepo gh i org n s w = (r, w') \<longrightarrow> same_cluster K F w w')
     \<and> (\<forall>i org n w r w'. gh_GetAllRulesets gh i org n w = (r, w') \<longrightarrow> same_cluster K F w w')
     \<and> (\<forall>i org n rid w r w'. gh_GetRuleset gh i org n rid w = (r, w') \<longrightarrow> same_cluster K F w w')
     \<and> (\<forall>i org n x w r w'. gh_CreateRuleset gh i org n x w = (r, w') \<longrightarrow> same_cluster K F w w')
     \<and> (\<forall>i org n rid x w r w'. gh_UpdateRuleset gh i org n rid x w = (r, w') \<longrightarrow> same_cluster K F w w')"

section \<open>Objects in sync\<close>

definition present :: "'w kube_client \<Rightarrow> 'w objects \<Rightarrow> 'w \<Rightarrow> kobject \<Rightarrow> bool" where
  "present c K w d \<longleftrightarrow> (\<exists>e. K w (key_of d) = Some e \<and> in_sync c (obj_Spec d) (obj_Spec e))"

text \<open>
  In sync, and listed where the code looks: it consults the first entry of an owner only, so that a
  repository in a second entry of its owner is added once more.
\<close>

definition settled :: "'w kube_client \<Rightarrow> 'w objects \<Rightarrow> 'w \<Rightarrow> kobject \<Rightarrow> bool" where
  "settled c K w d \<longleftrightarrow> present c K w d
     \<and> (\<forall>e. K w (key_of d) = Some e \<longrightarrow> owners_distinct (section_repos (event_source_of (obj_Spec e))))"

definition namespace_objects :: "string \<Rightarrow> kobject set" where
  "namespace_objects ns =
     {event_bus_object ns, pvc_object ns, service_account_object ns, role_object ns,
      role_binding_object ns}"

text \<open>The objects that flows share, and those that the reconciler's sets claim to be in sync.\<close>

definition shared_objects :: "kobject set" where
  "shared_objects =
     (\<Union>ns. namespace_objects ns) \<union> range (\<lambda>p. project_object (build_project p))
     \<union> {event_source_object org n | org n. True}"

definition claimed :: "'w rstate \<Rightarrow> kobject set" where
  "claimed st =
     (\<Union>ns \<in> SyncedNamespaces st. namespace_objects ns)
     \<union> (\<lambda>p. project_object (build_project p)) ` SyncedProjects st
     \<union> {event_source_object org n | org n. repo_synced (SyncedRepos st) org n}"

definition truthful :: "'w kube_client \<Rightarrow> 'w objects \<Rightarrow> 'w rstate \<Rightarrow> bool" where
  "truthful c K st \<longleftrightarrow> (\<forall>d \<in> claimed st. present c K (r_World st) d)"

lemma claimed_shared: "claimed st \<subseteq> shared_objects"
  by (auto simp: claimed_def shared_objects_def)

lemma claimed_world [simp]: "claimed (st\<lparr>r_World := w\<rparr>) = claimed st"
  by (simp add: claimed_def)

lemma object_defs_sel [simp]:
  "obj_Spec (event_bus_object ns) = EventBusSpec (obj_Spec (BuildEventBus ns))"
  "obj_Spec (pvc_object ns) = PVCSpec (obj_Spec (BuildBuildKitCachePVC ns))"
  "obj_Spec (service_account_object ns) = ServiceAccountSpec"
  "obj_Spec (role_object ns) = RoleSpec (obj_Spec (BuildSensorRole ns))"
  "obj_Spec (role_binding_object ns) = RoleBindingSpec (obj_Spec (BuildSensorRoleBinding ns))"
  "obj_Spec (project_object p) = AppProjectSpec (obj_Spec p)"
  "obj_Spec (application_object a) = ApplicationSpec (obj_Spec a)"
  "obj_Spec (sensor_object s) = SensorSpec (obj_Spec s)"
  "obj_Spec (event_source_object org n) = EventSourceSpec (obj_Spec (BuildEventSource org n))"
  by (simp_all add: event_bus_object_def pvc_object_def service_account_object_def role_object_def
      role_binding_object_def project_object_def application_object_def sensor_object_def
      event_source_object_def)

lemma object_keys [simp]:
  "key_of (event_bus_object ns) = (EventBusKind, ns, eventBusName)"
  "key_of (pvc_object ns) = (PVCKind, ns, BuildKitCachePVCName)"
  "key_of (service_account_object ns) = (ServiceAccountKind, ns, SensorServiceAccountName)"
  "key_of (role_object ns) = (RoleKind, ns, sensorRoleName)"
  "key_of (role_binding_object ns) = (RoleBindingKind, ns, sensorRoleBindingName)"
  "key_of (project_object p) = (AppProjectKind, obj_Namespace p, obj_Name p)"
  "key_of (application_object a) = (ApplicationKind, obj_Namespace a, obj_Name a)"
  "key_of (sensor_object s) = (SensorKind, obj_Namespace s, obj_Name s)"
  "key_of (event_source_object org n) = (EventSourceKind, eventSourceNamespace, eventSourceName)"
  by (simp_all add: key_of_def)
     (simp_all add: event_bus_object_def pvc_object_def service_account_object_def role_object_def
      role_binding_object_def project_object_def application_object_def sensor_object_def
      event_source_object_def BuildEventBus_def BuildBuildKitCachePVC_def
      BuildSensorServiceAccount_def BuildSensorRole_def BuildSensorRoleBinding_def BuildEventSource_def)

text \<open>A shared object is determined by its key, except the event source.\<close>

lemma shared_key_eq:
  "d \<in> shared_objects \<Longrightarrow> d' \<in> shared_objects \<Longrightarrow> key_of d = key_of d'
     \<Longrightarrow> fst (key_of d) \<noteq> EventSourceKind \<Longrightarrow> d = d'"
  by (auto simp: shared_objects_def namespace_objects_def)

lemma shared_kind: "d \<in> shared_objects \<Longrightarrow> kind_of (obj_Spec d) \<notin> {ApplicationKind, SensorKind}"
  by (auto simp: shared_objects_def namespace_objects_def)

section \<open>Steps that bring objects into sync\<close>

text \<open>
  A step for the objects \<open>ds\<close>, run after steps that wrote something iff \<open>b\<close>: whatever its
  outcome, the sets stay truthful, the flows and all other keys are untouched, and objects in sync
  stay so; after a success \<open>ds\<close> are in sync; and when they were settled before, nothing is written and the
  result reports no new write.
\<close>

definition outcome ::
  "'w kube_client \<Rightarrow> 'w objects \<Rightarrow> 'w flows \<Rightarrow> kobject set \<Rightarrow> bool \<Rightarrow> 'w rstate \<Rightarrow> bool res \<Rightarrow> 'w rstate \<Rightarrow> bool" where
  "outcome c K F ds b st r st' \<longleftrightarrow>
     truthful c K st'
     \<and> F (r_World st') = F (r_World st)
     \<and> (\<forall>k. k \<notin> key_of ` ds \<longrightarrow> K (r_World st') k = K (r_World st) k)
     \<and> (\<forall>d \<in> shared_objects \<union> ds. present c K (r_World st) d \<longrightarrow> present c K (r_World st') d)
     \<and> (\<forall>x. r = Inr x \<longrightarrow> (\<forall>d \<in> ds. present c K (r_World st') d))
     \<and> ((\<forall>d \<in> ds. settled c K (r_World st) d) \<longrightarrow>
          K (r_World st') = K (r_World st) \<and> (r = Inr True \<longrightarrow> b))"

definition syncs ::
  "'w kube_client \<Rightarrow> 'w objects \<Rightarrow> 'w flows \<Rightarrow> kobject set \<Rightarrow> bool \<Rightarrow> ('w rstate, bool) op \<Rightarrow> bool" where
  "syncs c K F ds b m \<longleftrightarrow> (\<forall>st r st'. m st = (r, st') \<longrightarrow> truthful c K st \<longrightarrow> outcome c K F ds b st r st')"

lemma syncsI:
  "(\<And>st r st'. m st = (r, st') \<Longrightarrow> truthful c K st \<Longrightarrow> outcome c K F ds b st r st') \<Longrightarrow> syncs c K F ds b m"
  by (simp add: syncs_def)

lemma syncsD:
  assumes "syncs c K F ds b m" and "m st = (r, st')" and "truthful c K st"
  shows "truthful c K st'" and "F (r_World st') = F (r_World st)"
    and "k \<notin> key_of ` ds \<Longrightarrow> K (r_World st') k = K (r_World st) k"
    and "d \<in> shared_objects \<union> ds \<Longrightarrow> present c K (r_World st) d \<Longrightarrow> present c K (r_World st') d"
    and "r = Inr x \<Longrightarrow> d \<in> ds \<Longrightarrow> present c K (r_World st') d"
    and "\<forall>d \<in> ds. settled c K (r_World st) d \<Longrightarrow> K (r_World st') = K (r_World st) \<and> (r = Inr True \<longrightarrow> b)"
proof -
  note H = assms(1) [unfolded syncs_def, THEN spec, THEN spec, THEN spec, THEN mp, OF assms(2),
      THEN mp, OF assms(3), unfolded outcome_def]
  note H2 = H [THEN conjunct2] note H3 = H2 [THEN conjunct2] note H4 = H3 [THEN conjunct2]
  note H5 = H4 [THEN conjunct2]
  show "truthful c K st'" by (rule H [THEN conjunct1])
  show "F (r_World st') = F (r_World st)" by (rule H2 [THEN conjunct1])
  show "k \<notin> key_of ` ds \<Longrightarrow> K (r_World st') k = K (r_World st) k"
    by (rule H3 [THEN conjunct1, THEN spec, THEN mp])
  show "d \<in> shared_objects \<union> ds \<Longrightarrow> present c K (r_World st) d \<Longrightarrow> present c K (r_World st') d"
    by (rule H4 [THEN conjunct1, THEN bspec, THEN mp])
  show "r = Inr x \<Longrightarrow> d \<in> ds \<Longrightarrow> present c K (r_World st') d"
    by (rule H5 [THEN conjunct1, THEN spec, THEN mp, THEN bspec])
  show "\<forall>d \<in> ds. settled c K (r_World st) d \<Longrightarrow> K (r_World st') = K (r_World st) \<and> (r = Inr True \<longrightarrow> b)"
    by (rule H5 [THEN conjunct2, THEN mp])
qed

lemma present_key: "K w' (key_of d) = K w (key_of d) \<Longrightarrow> present c K w' d = present c K w d"
  by (simp add: present_def)

text \<open>Two steps whose objects do not share keys, unless they are the same or shared objects.\<close>

definition apart :: "kobject set \<Rightarrow> kobject set \<Rightarrow> bool" where
  "apart ds es \<longleftrightarrow> (\<forall>d \<in> ds. d \<in> shared_objects \<union> es \<or> key_of d \<notin> key_of ` es)
     \<and> (\<forall>e \<in> es. e \<in> shared_objects \<union> ds \<or> key_of e \<notin> key_of ` ds)"

lemma apart_shared: "ds \<subseteq> shared_objects \<Longrightarrow> es \<subseteq> shared_objects \<Longrightarrow> apart ds es"
  by (auto simp: apart_def)

lemma syncs_keep:
  assumes "syncs c K F ds b m" and "m st = (r, st')" and "truthful c K st"
    and "d \<in> shared_objects \<union> ds \<or> key_of d \<notin> key_of ` ds" and "present c K (r_World st) d"
  shows "present c K (r_World st') d"
  using assms(4)
proof
  assume "d \<in> shared_objects \<union> ds"
  then show ?thesis using syncsD(4) [OF assms(1-3)] assms(5) by blast
next
  assume "key_of d \<notin> key_of ` ds"
  from syncsD(3) [OF assms(1-3) this] assms(5) show ?thesis by (simp add: present_def)
qed

lemma syncs_return: "(x \<longrightarrow> b) \<Longrightarrow> syncs c K F {} b (return x)"
  by (auto simp: syncs_def outcome_def)

lemma syncs_bind:
  assumes m: "syncs c K F ds False m" and f: "\<And>x. syncs c K F es (b \<or> x) (f x)" and ap: "apart ds es"
  shows "syncs c K F (ds \<union> es) b (bind_op m f)"
proof (rule syncsI)
  fix st r st'
  assume run: "bind_op m f st = (r, st')" and t: "truthful c K st"
  obtain r1 st1 where m1: "m st = (r1, st1)" by fastforce
  note M = syncsD [OF m m1 t] and Mk = syncs_keep [OF m m1 t]
  have keep1: "present c K (r_World st1) d"
    if "d \<in> shared_objects \<union> (ds \<union> es)" "present c K (r_World st) d" for d
    using Mk [of d] that ap unfolding apart_def by blast
  show "outcome c K F (ds \<union> es) b st r st'"
  proof (cases r1)
    case (Inl e)
    with run m1 have "r = Inl e" "st' = st1" by (auto simp: bind_op_def)
    with M keep1 show ?thesis by (auto simp: outcome_def image_Un)
  next
    case (Inr x)
    with run m1 have fx: "f x st1 = (r, st')" by (simp add: bind_op_def)
    note N = syncsD [OF f fx M(1)] and Nk = syncs_keep [OF f fx M(1)]
    have keep2: "present c K (r_World st') d"
      if "d \<in> shared_objects \<union> (ds \<union> es)" "present c K (r_World st1) d" for d
      using Nk [of d] that ap unfolding apart_def by blast
    have frame: "K (r_World st') k = K (r_World st) k" if "k \<notin> key_of ` (ds \<union> es)" for k
      using M(3) [of k] N(3) [of k] that by (auto simp: image_Un)
    have all: "present c K (r_World st') d" if "r = Inr y" "d \<in> ds \<union> es" for y d
      using that M(5) [OF Inr, of d] N(5) [of y d] keep2 [of d] by blast
    have none: "K (r_World st') = K (r_World st) \<and> (r = Inr True \<longrightarrow> b)"
      if p: "\<forall>d \<in> ds \<union> es. settled c K (r_World st) d"
    proof -
      from p M(6) Inr have w1: "K (r_World st1) = K (r_World st)" and x: "\<not> x" by auto
      from w1 p have "\<forall>d \<in> es. settled c K (r_World st1) d"
        unfolding settled_def present_def by auto
      from N(6) [OF this] w1 x show ?thesis by simp
    qed
    have keep: "\<forall>d \<in> shared_objects \<union> (ds \<union> es). present c K (r_World st) d \<longrightarrow> present c K (r_World st') d"
      using keep1 keep2 by blast
    show ?thesis unfolding outcome_def using N(1,2) M(2) frame keep all none by auto
  qed
qed

section \<open>The calls\<close>

lemma lawful_key:
  assumes "lawful_objects c K F" and "K w k = Some ob"
  shows "key_of ob = k"
  by (rule assms(1) [unfolded lawful_objects_def, THEN conjunct1, THEN spec, THEN spec, THEN spec,
        THEN mp, OF assms(2)])

lemma lawful_Get:
  assumes "lawful_objects c K F" and "kc_Get c k w = (r, w')"
  shows "K w' = K w" and "F w' = F w" and "r = Inr x \<Longrightarrow> x = K w k"
  using assms unfolding lawful_objects_def by (elim conjE, blast)+

lemma lawful_Create:
  assumes "lawful_objects c K F" and "kc_Create c ob w = (r, w')"
  shows "F w' = F w" and "stored c K ob w w' \<or> r \<noteq> Inr () \<and> K w' = K w"
  using assms unfolding lawful_objects_def by (elim conjE, blast)+

lemma lawful_Update:
  assumes "lawful_objects c K F" and "kc_Update c ob w = (r, w')"
  shows "F w' = F w" and "stored c K ob w w' \<or> r \<noteq> Inr () \<and> K w' = K w"
  using assms unfolding lawful_objects_def by (elim conjE, blast)+

lemma lawful_Delete:
  assumes "lawful_objects c K F" and "kc_Delete c ob w = (r, w')"
  shows "F w' = F w" and "K w' = (K w)(key_of ob := None) \<or> r \<noteq> Inr () \<and> K w' = K w"
  using assms unfolding lawful_objects_def by (elim conjE, blast)+

lemma lawful_SetOwner:
  assumes "lawful_objects c K F" and "kc_SetOwner c f ob = Inr ob'"
  shows "key_of ob' = key_of ob" and "obj_Spec ob' = obj_Spec ob"
  using assms unfolding lawful_objects_def by (elim conjE, blast)+

text \<open>The outcome of a step for one object, in terms of the world only.\<close>

definition one_outcome ::
  "'w kube_client \<Rightarrow> 'w objects \<Rightarrow> 'w flows \<Rightarrow> kobject \<Rightarrow> 'w \<Rightarrow> bool res \<Rightarrow> 'w \<Rightarrow> bool" where
  "one_outcome c K F d w r w' \<longleftrightarrow>
     F w' = F w \<and> (\<forall>k. k \<noteq> key_of d \<longrightarrow> K w' k = K w k)
     \<and> (settled c K w d \<longrightarrow> K w' = K w \<and> r \<noteq> Inr True)
     \<and> (\<forall>x. r = Inr x \<longrightarrow> present c K w' d)"

lemma syncs_single_keep:
  assumes step: "\<And>st r st'. m st = (r, st') \<Longrightarrow>
      \<exists>w'. st' = st\<lparr>r_World := w'\<rparr> \<and> one_outcome c K F d (r_World st) r w'
        \<and> (\<forall>d' \<in> shared_objects \<union> {d}. key_of d' = key_of d \<longrightarrow> present c K (r_World st) d' \<longrightarrow> present c K w' d')"
  shows "syncs c K F {d} False m"
proof (rule syncsI)
  fix st r st'
  assume run: "m st = (r, st')" and t: "truthful c K st"
  from step [OF run] obtain w' where st': "st' = st\<lparr>r_World := w'\<rparr>"
    and o: "one_outcome c K F d (r_World st) r w'"
    and same: "\<And>d'. d' \<in> shared_objects \<union> {d} \<Longrightarrow> key_of d' = key_of d \<Longrightarrow> present c K (r_World st) d'
      \<Longrightarrow> present c K w' d'" by blast
  have keep: "present c K w' d'" if "d' \<in> shared_objects \<union> {d}" "present c K (r_World st) d'" for d'
  proof (cases "key_of d' = key_of d")
    case True
    with same that show ?thesis by blast
  next
    case False
    from o have "\<forall>k. k \<noteq> key_of d \<longrightarrow> K w' k = K (r_World st) k"
      unfolding one_outcome_def by (elim conjE)
    then have "K w' (key_of d') = K (r_World st) (key_of d')" using False by blast
    with that(2) show ?thesis by (simp add: present_def)
  qed
  have "truthful c K st'"
    using t keep claimed_shared [of st] unfolding truthful_def st' by auto
  with o keep show "outcome c K F {d} False st r st'"
    by (simp add: outcome_def one_outcome_def st')
qed

text \<open>Where the key belongs to one object, what is in sync is settled and stays as it is.\<close>

lemma settled_other_kind:
  assumes "lawful_objects c K F" and "fst (key_of d) \<noteq> EventSourceKind"
  shows "settled c K w d = present c K w d"
proof -
  have "section_repos (event_source_of (obj_Spec e)) = []" if "K w (key_of d) = Some e" for e
    using lawful_key [OF assms(1) that] assms(2)
    by (cases "obj_Spec e") (auto simp: key_of_def section_repos_def)
  then show ?thesis by (auto simp: settled_def owners_distinct_def)
qed

lemma syncs_single:
  assumes L: "lawful_objects c K F" and ne: "fst (key_of d) \<noteq> EventSourceKind"
    and step: "\<And>st r st'. m st = (r, st') \<Longrightarrow>
      \<exists>w'. st' = st\<lparr>r_World := w'\<rparr> \<and> one_outcome c K F d (r_World st) r w'"
    and uniq: "\<And>d'. d' \<in> shared_objects \<Longrightarrow> key_of d' = key_of d \<Longrightarrow> d' = d"
  shows "syncs c K F {d} False m"
proof (rule syncs_single_keep)
  fix st r st' assume "m st = (r, st')"
  from step [OF this] obtain w' where st': "st' = st\<lparr>r_World := w'\<rparr>"
    and o: "one_outcome c K F d (r_World st) r w'" by blast
  have "present c K (r_World st) d \<Longrightarrow> present c K w' d"
    using o settled_other_kind [OF L ne] by (simp add: one_outcome_def present_def)
  with st' o uniq show "\<exists>w'. st' = st\<lparr>r_World := w'\<rparr> \<and> one_outcome c K F d (r_World st) r w'
      \<and> (\<forall>d' \<in> shared_objects \<union> {d}. key_of d' = key_of d \<longrightarrow> present c K (r_World st) d' \<longrightarrow> present c K w' d')"
    by blast
qed

lemma stored_outcome:
  assumes "stored c K ob w w'" and "key_of ob = key_of d" and "F w' = F w"
    and "\<not> present c K w d"
    and "\<And>s. kind_of s = kind_of (obj_Spec d) \<Longrightarrow> in_sync c (obj_Spec ob) s \<Longrightarrow> in_sync c (obj_Spec d) s"
  shows "one_outcome c K F d w r w'"
proof -
  from assms(1) obtain ob' where ob': "key_of ob' = key_of ob" "in_sync c (obj_Spec ob) (obj_Spec ob')"
      "K w' = (K w)(key_of ob \<mapsto> ob')" by (auto simp: stored_def)
  then have "kind_of (obj_Spec ob') = kind_of (obj_Spec d)" using assms(2) by (simp add: key_of_def)
  with assms(5) ob' have "present c K w' d" using assms(2) by (simp add: present_def)
  moreover have "\<not> settled c K w d" using assms(4) by (simp add: settled_def)
  ultimately show ?thesis using assms ob' by (simp add: one_outcome_def)
qed

lemma failed_outcome: "K w' = K w \<Longrightarrow> F w' = F w \<Longrightarrow> one_outcome c K F d w (Inl e) w'"
  by (simp add: one_outcome_def)

lemma write_cases:
  assumes L: "lawful_objects c K F"
    and run: "bind_op (kcreate c ob) (\<lambda>_. return True) st = (r, st')
      \<or> bind_op (kupdate c ob) (\<lambda>_. return True) st = (r, st')"
  obtains r1 w' where "st' = st\<lparr>r_World := w'\<rparr>" "r = (case r1 of Inl e \<Rightarrow> Inl (Failed e) | Inr _ \<Rightarrow> Inr True)"
    "F w' = F (r_World st)" "stored c K ob (r_World st) w' \<or> r1 \<noteq> Inr () \<and> K w' = K (r_World st)"
  using run
proof
  assume run: "bind_op (kcreate c ob) (\<lambda>_. return True) st = (r, st')"
  obtain r1 w' where cr: "kc_Create c ob (r_World st) = (r1, w')" by fastforce
  with run have "st' = st\<lparr>r_World := w'\<rparr>" "r = (case r1 of Inl e \<Rightarrow> Inl (Failed e) | Inr _ \<Rightarrow> Inr True)"
    by (auto simp: kcreate_def on_world_def call_def bind_op_def split: sum.splits)
  with lawful_Create [OF L cr] that show thesis by blast
next
  assume run: "bind_op (kupdate c ob) (\<lambda>_. return True) st = (r, st')"
  obtain r1 w' where cr: "kc_Update c ob (r_World st) = (r1, w')" by fastforce
  with run have "st' = st\<lparr>r_World := w'\<rparr>" "r = (case r1 of Inl e \<Rightarrow> Inl (Failed e) | Inr _ \<Rightarrow> Inr True)"
    by (auto simp: kupdate_def on_world_def call_def bind_op_def split: sum.splits)
  with lawful_Update [OF L cr] that show thesis by blast
qed

lemma write_outcome:
  assumes L: "lawful_objects c K F"
    and run: "bind_op (kcreate c ob) (\<lambda>_. return True) st = (r, st')
      \<or> bind_op (kupdate c ob) (\<lambda>_. return True) st = (r, st')"
    and key: "key_of ob = key_of d" and absent: "\<not> present c K (r_World st) d"
    and spec: "\<And>s. kind_of s = kind_of (obj_Spec d) \<Longrightarrow> in_sync c (obj_Spec ob) s \<Longrightarrow> in_sync c (obj_Spec d) s"
  shows "\<exists>w'. st' = st\<lparr>r_World := w'\<rparr> \<and> one_outcome c K F d (r_World st) r w'"
  using L run
proof (cases rule: write_cases)
  case (1 r1 w')
  have "one_outcome c K F d (r_World st) r w'"
    using 1(4)
  proof
    assume "stored c K ob (r_World st) w'"
    from stored_outcome [OF this key 1(3) absent] show ?thesis using spec by simp
  next
    assume "r1 \<noteq> Inr () \<and> K w' = K (r_World st)"
    with 1(2,3) show ?thesis by (cases r1) (simp_all add: failed_outcome)
  qed
  with 1(1) show ?thesis by blast
qed

lemmas create_outcome = write_outcome [OF _ disjI1]
lemmas update_outcome = write_outcome [OF _ disjI2]

text \<open>The fetch: what follows runs in a world with the same objects.\<close>

lemma outcome_world: "K w1 = K w \<Longrightarrow> F w1 = F w \<Longrightarrow> one_outcome c K F d w1 = one_outcome c K F d w"
  by (intro ext) (simp add: one_outcome_def settled_def present_def)

lemma kget_cases:
  assumes L: "lawful_objects c K F" and run: "bind_op (kget c k) f st = (r, st')"
  obtains (failed) e w1 where "r = Inl (Failed e)" "st' = st\<lparr>r_World := w1\<rparr>"
      "K w1 = K (r_World st)" "F w1 = F (r_World st)"
  | (fetched) w1 where "K w1 = K (r_World st)" "F w1 = F (r_World st)"
      "f (K (r_World st) k) (st\<lparr>r_World := w1\<rparr>) = (r, st')"
proof -
  obtain r1 w1 where g: "kc_Get c k (r_World st) = (r1, w1)" by fastforce
  note G = lawful_Get [OF L g]
  show thesis
  proof (cases r1)
    case (Inl e)
    with run g have "r = Inl (Failed e)" "st' = st\<lparr>r_World := w1\<rparr>"
      by (auto simp: kget_def on_world_def call_def bind_op_def)
    then show thesis using G(1,2) by (rule failed)
  next
    case (Inr x)
    with run g have "f x (st\<lparr>r_World := w1\<rparr>) = (r, st')"
      by (auto simp: kget_def on_world_def call_def bind_op_def)
    moreover have "x = K (r_World st) k" using G(3) Inr by blast
    ultimately show thesis using fetched [OF G(1,2)] by simp
  qed
qed

lemma kget_outcome:
  assumes L: "lawful_objects c K F" and run: "bind_op (kget c (key_of d)) f st = (r, st')"
    and rest: "\<And>w1. K w1 = K (r_World st) \<Longrightarrow> F w1 = F (r_World st) \<Longrightarrow>
      f (K (r_World st) (key_of d)) (st\<lparr>r_World := w1\<rparr>) = (r, st') \<Longrightarrow>
      \<exists>w'. st' = st\<lparr>r_World := w'\<rparr> \<and> one_outcome c K F d w1 r w'"
  shows "\<exists>w'. st' = st\<lparr>r_World := w'\<rparr> \<and> one_outcome c K F d (r_World st) r w'"
  using L run
proof (cases rule: kget_cases)
  case (failed e w1)
  then show ?thesis by (auto intro: failed_outcome)
next
  case (fetched w1)
  from rest [OF this] outcome_world [OF fetched(1,2)] show ?thesis by simp
qed

section \<open>Objects that one step ensures\<close>

lemma ensure_outcome:
  assumes L: "lawful_objects c K F" and run: "ensure c d drifted revised st = (r, st')"
    and drift: "\<And>s. kind_of s = kind_of (obj_Spec d) \<Longrightarrow> drifted s \<longleftrightarrow> \<not> in_sync c (obj_Spec d) s"
    and kind: "\<And>s. kind_of s = kind_of (obj_Spec d) \<Longrightarrow> kind_of (revised s) = kind_of (obj_Spec d)"
    and rev: "\<And>s s'. kind_of s = kind_of (obj_Spec d) \<Longrightarrow> kind_of s' = kind_of (obj_Spec d)
      \<Longrightarrow> in_sync c (revised s) s' \<Longrightarrow> in_sync c (obj_Spec d) s'"
  shows "\<exists>w'. st' = st\<lparr>r_World := w'\<rparr> \<and> one_outcome c K F d (r_World st) r w'"
proof (rule kget_outcome [OF L run [unfolded ensure_def]])
  fix w1 assume w1: "K w1 = K (r_World st)" "F w1 = F (r_World st)"
    and rest: "(case K (r_World st) (key_of d) of
        None \<Rightarrow> bind_op (kcreate c d) (\<lambda>_. return True)
      | Some ob \<Rightarrow> if drifted (obj_Spec ob)
          then bind_op (kupdate c (ob\<lparr>obj_Spec := revised (obj_Spec ob)\<rparr>)) (\<lambda>_. return True)
          else return False) (st\<lparr>r_World := w1\<rparr>) = (r, st')"
  show "\<exists>w'. st' = st\<lparr>r_World := w'\<rparr> \<and> one_outcome c K F d w1 r w'"
  proof (cases "K w1 (key_of d)")
    case None
    with rest w1 have "bind_op (kcreate c d) (\<lambda>_. return True) (st\<lparr>r_World := w1\<rparr>) = (r, st')" by simp
    from create_outcome [OF L this] None show ?thesis by (simp add: present_def)
  next
    case (Some ob)
    have k: "kind_of (obj_Spec ob) = kind_of (obj_Spec d)" and ko: "key_of ob = key_of d"
      using lawful_key [OF L Some] by (simp_all add: key_of_def)
    show ?thesis
    proof (cases "drifted (obj_Spec ob)")
      case True
      with rest w1 Some have
        u: "bind_op (kupdate c (ob\<lparr>obj_Spec := revised (obj_Spec ob)\<rparr>)) (\<lambda>_. return True) (st\<lparr>r_World := w1\<rparr>) = (r, st')"
        by simp
      have "key_of (ob\<lparr>obj_Spec := revised (obj_Spec ob)\<rparr>) = key_of d"
        using ko kind [OF k] by (simp add: key_of_def)
      moreover have "\<not> present c K w1 d" using True drift [OF k] Some by (simp add: present_def)
      ultimately show ?thesis
        using update_outcome [OF L u, of d] rev [OF k] by simp
    next
      case False
      with rest w1 Some have "r = Inr False" "st' = st\<lparr>r_World := w1\<rparr>" by auto
      moreover have "present c K w1 d" using False drift [OF k] Some by (simp add: present_def)
      ultimately show ?thesis by (auto simp: one_outcome_def)
    qed
  qed
qed

text \<open>How a step recognises and repairs drift, for an object of the namespace or a project.\<close>

definition repairs ::
  "'w kube_client \<Rightarrow> kobject \<Rightarrow> (kube_spec \<Rightarrow> bool) \<Rightarrow> (kube_spec \<Rightarrow> kube_spec) \<Rightarrow> bool" where
  "repairs c d drifted revised \<longleftrightarrow>
     (\<forall>s. kind_of s = kind_of (obj_Spec d) \<longrightarrow>
        (drifted s \<longleftrightarrow> \<not> in_sync c (obj_Spec d) s)
        \<and> kind_of (revised s) = kind_of (obj_Spec d)
        \<and> (\<forall>s'. kind_of s' = kind_of (obj_Spec d) \<longrightarrow> in_sync c (revised s) s' \<longrightarrow> in_sync c (obj_Spec d) s'))"

lemma syncs_ensure:
  assumes L: "lawful_objects c K F" and d: "d \<in> shared_objects" "fst (key_of d) \<noteq> EventSourceKind"
    and rep: "repairs c d drifted revised"
  shows "syncs c K F {d} False (ensure c d drifted revised)"
proof (rule syncs_single [OF L d(2)])
  fix st r st' assume run: "ensure c d drifted revised st = (r, st')"
  show "\<exists>w'. st' = st\<lparr>r_World := w'\<rparr> \<and> one_outcome c K F d (r_World st) r w'"
    using rep unfolding repairs_def by (intro ensure_outcome [OF L run]) blast+
next
  fix d' assume "d' \<in> shared_objects" "key_of d' = key_of d"
  then show "d' = d" using shared_key_eq [of d' d] d by simp
qed

lemma whole_spec_repairs:
  assumes "fst (key_of d) \<in> {EventBusKind, AppProjectKind, ApplicationKind, SensorKind}"
  shows "repairs c d (spec_drifted c d) (whole_spec d)"
  using assms by (cases "obj_Spec d") (auto simp: repairs_def spec_drifted_def whole_spec_def key_of_def)

lemma namespace_objects_shared: "namespace_objects ns \<subseteq> shared_objects"
  by (auto simp: shared_objects_def)

lemma project_shared: "project_object (build_project p) \<in> shared_objects"
  by (auto simp: shared_objects_def)

lemma syncs_event_bus: "lawful_objects c K F \<Longrightarrow> syncs c K F {event_bus_object ns} False (sync_event_bus c ns)"
  unfolding sync_event_bus_def
  by (rule syncs_ensure [OF _ _ _ whole_spec_repairs])
     (simp_all add: subsetD [OF namespace_objects_shared [of ns]] namespace_objects_def)

lemma pvc_repairs:
  "repairs c (pvc_object ns)
     (\<lambda>s. \<not> kc_Derivative c (CRequests (requests_of (obj_Spec (pvc_object ns)))) (CRequests (requests_of s)))
     (set_requests (requests_of (obj_Spec (pvc_object ns))))"
  by (auto simp: repairs_def elim!: kind_of.elims)

lemma service_account_repairs: "repairs c (service_account_object ns) (\<lambda>_. False) (\<lambda>s. s)"
  by (simp add: repairs_def)

lemma role_repairs:
  "repairs c (role_object ns)
     (\<lambda>s. \<not> kc_Derivative c (CRules (rules_of (obj_Spec (role_object ns)))) (CRules (rules_of s)))
     (\<lambda>_. RoleSpec (rules_of (obj_Spec (role_object ns))))"
  by (simp add: repairs_def)

lemma syncs_pvc: "lawful_objects c K F \<Longrightarrow> syncs c K F {pvc_object ns} False (sync_pvc c ns)"
  unfolding sync_pvc_def Let_def
  by (rule syncs_ensure [OF _ _ _ pvc_repairs])
     (simp_all add: subsetD [OF namespace_objects_shared [of ns]] namespace_objects_def)

lemma syncs_service_account:
  "lawful_objects c K F \<Longrightarrow> syncs c K F {service_account_object ns} False (sync_service_account c ns)"
  unfolding sync_service_account_def
  by (rule syncs_ensure [OF _ _ _ service_account_repairs])
     (simp_all add: subsetD [OF namespace_objects_shared [of ns]] namespace_objects_def)

lemma syncs_role: "lawful_objects c K F \<Longrightarrow> syncs c K F {role_object ns} False (sync_role c ns)"
  unfolding sync_role_def Let_def
  by (rule syncs_ensure [OF _ _ _ role_repairs])
     (simp_all add: subsetD [OF namespace_objects_shared [of ns]] namespace_objects_def)

lemma syncs_project:
  "lawful_objects c K F \<Longrightarrow> d = project_object (build_project p) \<Longrightarrow>
     syncs c K F {d} False (ensure c d (spec_drifted c d) (whole_spec d))"
  by (rule syncs_ensure [OF _ _ _ whole_spec_repairs]) (simp_all add: project_shared)

text \<open>The binding of a role: deleted and created again when it names another role.\<close>

lemma outcome_after:
  assumes o: "one_outcome c K F d w2 r w'" and a: "\<not> settled c K w d" and f: "F w2 = F w"
    and k: "\<And>k. k \<noteq> key_of d \<Longrightarrow> K w2 k = K w k"
  shows "one_outcome c K F d w r w'"
proof -
  from o have "K w' k = K w k" if "k \<noteq> key_of d" for k
    using that k [OF that] unfolding one_outcome_def by (elim conjE) (drule spec, drule (1) mp, simp only:)
  then show ?thesis using o a f unfolding one_outcome_def by simp
qed

lemma recreate_outcome:
  assumes L: "lawful_objects c K F" and ob: "key_of ob = key_of d" and absent: "\<not> present c K (r_World st) d"
    and run: "bind_op (kdelete c ob) (\<lambda>_. bind_op (kcreate c d) (\<lambda>_. return True)) st = (r, st')"
  shows "\<exists>w'. st' = st\<lparr>r_World := w'\<rparr> \<and> one_outcome c K F d (r_World st) r w'"
proof -
  have ns: "\<not> settled c K (r_World st) d" using absent by (simp add: settled_def)
  obtain r1 w1 where del: "kc_Delete c ob (r_World st) = (r1, w1)" by fastforce
  note D = lawful_Delete [OF L del]
  from D(2) ob have other: "K w1 k = K (r_World st) k" if "k \<noteq> key_of d" for k using that by auto
  show ?thesis
  proof (cases r1)
    case (Inl e)
    with run del have "r = Inl (Failed e)" "st' = st\<lparr>r_World := w1\<rparr>"
      by (auto simp: kdelete_def on_world_def call_def bind_op_def)
    moreover have "one_outcome c K F d (r_World st) (Inl (Failed e)) w1"
      using ns D(1) other unfolding one_outcome_def by blast
    ultimately show ?thesis by blast
  next
    case (Inr x)
    with D(2) ob have K1: "K w1 (key_of d) = None" by auto
    from run del Inr have "bind_op (kcreate c d) (\<lambda>_. return True) (st\<lparr>r_World := w1\<rparr>) = (r, st')"
      by (auto simp: kdelete_def on_world_def call_def bind_op_def)
    from create_outcome [OF L this, of d] K1 obtain w' where
      "st' = st\<lparr>r_World := w'\<rparr>" "one_outcome c K F d w1 r w'" by (auto simp: present_def)
    with outcome_after [OF _ ns D(1) other] show ?thesis by blast
  qed
qed

lemma role_binding_outcome:
  assumes L: "lawful_objects c K F" and run: "sync_role_binding c ns st = (r, st')"
  shows "\<exists>w'. st' = st\<lparr>r_World := w'\<rparr> \<and> one_outcome c K F (role_binding_object ns) (r_World st) r w'"
proof (rule kget_outcome [OF L run [unfolded sync_role_binding_def Let_def]])
  let ?d = "role_binding_object ns" let ?subs = "subjects_of (obj_Spec ?d)"
  fix w1 assume w1: "K w1 = K (r_World st)" "F w1 = F (r_World st)"
    and rest: "(case K (r_World st) (key_of ?d) of
        None \<Rightarrow> bind_op (kcreate c ?d) (\<lambda>_. return True)
      | Some ob \<Rightarrow>
          if role_ref_of (obj_Spec ob) \<noteq> role_ref_of (obj_Spec ?d)
          then bind_op (kdelete c ob) (\<lambda>_. bind_op (kcreate c ?d) (\<lambda>_. return True))
          else if \<not> kc_Derivative c (CSubjects ?subs) (CSubjects (subjects_of (obj_Spec ob)))
          then bind_op (kupdate c (ob\<lparr>obj_Spec := set_subjects ?subs (obj_Spec ob)\<rparr>)) (\<lambda>_. return True)
          else return False) (st\<lparr>r_World := w1\<rparr>) = (r, st')"
  show "\<exists>w'. st' = st\<lparr>r_World := w'\<rparr> \<and> one_outcome c K F ?d w1 r w'"
  proof (cases "K w1 (key_of ?d)")
    case None
    with rest w1 have "bind_op (kcreate c ?d) (\<lambda>_. return True) (st\<lparr>r_World := w1\<rparr>) = (r, st')" by simp
    from create_outcome [OF L this, of ?d] None show ?thesis by (simp add: present_def)
  next
    case (Some ob)
    from lawful_key [OF L Some] have ko: "key_of ob = key_of ?d" .
    then obtain b where b: "obj_Spec ob = RoleBindingSpec b"
      by (cases "obj_Spec ob") (simp_all add: key_of_def)
    have pres: "present c K w1 ?d \<longleftrightarrow> role_ref_of (obj_Spec ob) = role_ref_of (obj_Spec ?d)
        \<and> kc_Derivative c (CSubjects ?subs) (CSubjects (subjects_of (obj_Spec ob)))"
      using Some by (auto simp: present_def)
    consider (ref) "role_ref_of (obj_Spec ob) \<noteq> role_ref_of (obj_Spec ?d)"
      | (subs) "role_ref_of (obj_Spec ob) = role_ref_of (obj_Spec ?d)" "\<not> present c K w1 ?d"
      | (ok) "present c K w1 ?d" using pres by blast
    then show ?thesis
    proof cases
      case ref
      with rest w1 Some have
        "bind_op (kdelete c ob) (\<lambda>_. bind_op (kcreate c ?d) (\<lambda>_. return True)) (st\<lparr>r_World := w1\<rparr>) = (r, st')"
        by simp
      from recreate_outcome [OF L ko _ this] ref pres show ?thesis by simp
    next
      case subs
      with rest w1 Some pres have u: "bind_op (kupdate c (ob\<lparr>obj_Spec := set_subjects ?subs (obj_Spec ob)\<rparr>))
          (\<lambda>_. return True) (st\<lparr>r_World := w1\<rparr>) = (r, st')" by simp
      from update_outcome [OF L u, of ?d] ko subs b show ?thesis by (simp add: key_of_def)
    next
      case ok
      with rest w1 Some pres have "r = Inr False" "st' = st\<lparr>r_World := w1\<rparr>" by auto
      with ok show ?thesis by (auto simp: one_outcome_def)
    qed
  qed
qed

lemma syncs_role_binding:
  assumes "lawful_objects c K F"
  shows "syncs c K F {role_binding_object ns} False (sync_role_binding c ns)"
proof (rule syncs_single [OF assms])
  fix d' assume "d' \<in> shared_objects" "key_of d' = key_of (role_binding_object ns)"
  then show "d' = role_binding_object ns"
    using shared_key_eq [of d' "role_binding_object ns"] namespace_objects_shared [of ns]
    by (simp add: namespace_objects_def)
qed (simp_all add: role_binding_outcome [OF assms])

section \<open>The event source\<close>

lemma event_source_present:
  "present c K w (event_source_object org n) \<longleftrightarrow>
     (\<exists>e. K w (EventSourceKind, eventSourceNamespace, eventSourceName) = Some e
        \<and> (org, n) \<in> owned_set (section_repos (event_source_of (obj_Spec e))))"
proof -
  have "obj_Spec (event_source_object org n) = EventSourceSpec (getEventSourceSpecWithRepos org n)"
    by (simp add: event_source_object_def BuildEventSource_def)
  moreover have "owned_set (section_repos (getEventSourceSpecWithRepos org n)) = {(org, n)}"
    by (simp add: getEventSourceSpecWithRepos_def section_repos_def Let_def)
  ultimately show ?thesis by (simp add: present_def)
qed

text \<open>What a merge does to the repositories, whatever the spec was.\<close>

lemma mergeOwnedRepos_merge:
  assumes "mergeOwnedRepos spec org n = Inr (spec', changed)"
  shows "owned_set (section_repos spec') = insert (org, n) (owned_set (section_repos spec))"
    and "owners_distinct (section_repos spec) \<Longrightarrow> changed \<longleftrightarrow> (org, n) \<notin> owned_set (section_repos spec)"
    and "\<not> changed \<Longrightarrow> spec' = spec"
proof -
  obtain repos ch where mo: "merge_owned org n (section_repos spec) = (repos, ch)" by fastforce
  have set: "owned_set repos = insert (org, n) (owned_set (section_repos spec))"
    using merge_owned_set [of org n "section_repos spec"] by (simp add: mo)
  have same: "\<not> ch \<Longrightarrow> repos = section_repos spec"
    using merge_owned_unchanged [of org n "section_repos spec"] by (simp add: mo)
  have run: "changed = ch \<and> (ch \<longrightarrow> section_repos spec' = repos) \<and> (\<not> ch \<longrightarrow> spec' = spec)"
    using assms mo by (auto simp: mergeOwnedRepos_def section_repos_def zero_github_event_source_def
        Let_def split: option.splits prod.splits bool.splits)
  show "owned_set (section_repos spec') = insert (org, n) (owned_set (section_repos spec))"
    using run set same by (cases ch) auto
  show "changed \<longleftrightarrow> (org, n) \<notin> owned_set (section_repos spec)" if "owners_distinct (section_repos spec)"
    using merge_owned_changed [OF that, of org n] run by (simp add: mo)
  show "\<not> changed \<Longrightarrow> spec' = spec" using run by simp
qed

definition keeps_listed :: "'w kube_client \<Rightarrow> 'w objects \<Rightarrow> 'w \<Rightarrow> 'w \<Rightarrow> bool" where
  "keeps_listed c K w w' \<longleftrightarrow> (\<forall>org n. present c K w (event_source_object org n)
     \<longrightarrow> present c K w' (event_source_object org n))"

lemma same_keeps_listed: "K w' = K w \<Longrightarrow> keeps_listed c K w w'"
  by (simp add: keeps_listed_def present_def)

lemma stored_listed:
  assumes "stored c K ob w w'" and "key_of ob = (EventSourceKind, eventSourceNamespace, eventSourceName)"
    and "obj_Spec ob = EventSourceSpec s" and "(org, n) \<in> owned_set (section_repos s)"
  shows "present c K w' (event_source_object org n)"
proof -
  from assms(1) obtain ob' where "in_sync c (obj_Spec ob) (obj_Spec ob')" "K w' = (K w)(key_of ob \<mapsto> ob')"
    by (auto simp: stored_def)
  with assms show ?thesis by (auto simp: event_source_present)
qed

lemma event_source_write:
  assumes f: "F w' = F w" and st: "stored c K ob w w' \<or> r1 \<noteq> Inr () \<and> K w' = K w"
    and ob: "key_of ob = (EventSourceKind, eventSourceNamespace, eventSourceName)" "obj_Spec ob = EventSourceSpec s"
    and new: "(org, n) \<in> owned_set (section_repos s)" and absent: "\<not> settled c K w (event_source_object org n)"
    and old: "\<And>o1 m. present c K w (event_source_object o1 m) \<Longrightarrow> (o1, m) \<in> owned_set (section_repos s)"
    and r: "r = (case r1 of Inl e \<Rightarrow> Inl (Failed e) | Inr _ \<Rightarrow> Inr True)"
  shows "one_outcome c K F (event_source_object org n) w r w' \<and> keeps_listed c K w w'"
  using st
proof
  assume s: "stored c K ob w w'"
  then obtain ob' where K': "K w' = (K w)(key_of ob \<mapsto> ob')" by (auto simp: stored_def)
  have "one_outcome c K F (event_source_object org n) w r w'"
    using stored_listed [OF s ob new] f absent K' ob(1) by (simp add: one_outcome_def)
  with stored_listed [OF s ob old] show ?thesis by (simp add: keeps_listed_def)
next
  assume e: "r1 \<noteq> Inr () \<and> K w' = K w"
  then obtain e' where "r1 = Inl e'" by (cases r1) auto
  with e f r show ?thesis by (simp add: failed_outcome same_keeps_listed)
qed

lemma sync_event_source_outcome:
  assumes L: "lawful_objects c K F" and run: "sync_event_source c org n st = (r, st')"
  shows "\<exists>w'. st' = st\<lparr>r_World := w'\<rparr> \<and> one_outcome c K F (event_source_object org n) (r_World st) r w'
    \<and> keeps_listed c K (r_World st) w'"
  using L run [unfolded sync_event_source_def]
proof (cases rule: kget_cases)
  case (failed e w1)
  then show ?thesis by (auto intro: failed_outcome same_keeps_listed)
next
  case (fetched w1)
  let ?d = "event_source_object org n" let ?k = "key_of ?d" let ?w = "r_World st"
  have spec_d: "obj_Spec ?d = EventSourceSpec (obj_Spec (BuildEventSource org n))"
    by (simp add: event_source_object_def)
  have new_d: "(org, n) \<in> owned_set (section_repos (obj_Spec (BuildEventSource org n)))"
    by (simp add: BuildEventSource_def getEventSourceSpecWithRepos_def section_repos_def Let_def)
  have lift: "one_outcome c K F ?d w1 r w' \<and> keeps_listed c K w1 w' \<Longrightarrow>
      one_outcome c K F ?d ?w r w' \<and> keeps_listed c K ?w w'" for w'
    using outcome_world [OF fetched(1,2)] fetched(1) by (simp add: keeps_listed_def present_def)
  show ?thesis
  proof (cases "K ?w ?k")
    case None
    with fetched have "bind_op (kcreate c ?d) (\<lambda>_. return True) (st\<lparr>r_World := w1\<rparr>) = (r, st')" by simp
    then obtain r1 w' where
      W: "st' = st\<lparr>r_World := w'\<rparr>" "r = (case r1 of Inl e \<Rightarrow> Inl (Failed e) | Inr _ \<Rightarrow> Inr True)"
        "F w' = F w1" "stored c K ?d w1 w' \<or> r1 \<noteq> Inr () \<and> K w' = K w1" by (rule write_cases [OF L disjI1]) simp
    have none: "\<not> present c K w1 (event_source_object o1 m)" for o1 m
      using None fetched(1) by (simp add: present_def)
    have "one_outcome c K F ?d w1 r w' \<and> keeps_listed c K w1 w'"
      by (rule event_source_write [OF W(3,4) _ spec_d new_d _ _ W(2)]) (simp_all add: none settled_def)
    from lift [OF this] W(1) show ?thesis by auto
  next
    case (Some ob)
    have ko: "key_of ob = ?k" by (rule lawful_key [OF L Some])
    then obtain s0 where s0: "obj_Spec ob = EventSourceSpec s0"
      by (cases "obj_Spec ob") (simp_all add: key_of_def)
    have listed: "present c K w1 (event_source_object o1 m) \<longleftrightarrow> (o1, m) \<in> owned_set (section_repos s0)" for o1 m
      using Some s0 fetched(1) by (simp add: event_source_present)
    have settled: "settled c K w1 ?d \<longleftrightarrow> (org, n) \<in> owned_set (section_repos s0) \<and> owners_distinct (section_repos s0)"
      using Some s0 fetched(1) listed by (simp add: settled_def)
    show ?thesis
    proof (cases "mergeOwnedRepos s0 org n")
      case (Inl e)
      with fetched(3) Some s0 have "r = Inl e" "st' = st\<lparr>r_World := w1\<rparr>" by (simp_all add: bind_op_def)
      with fetched(1,2) show ?thesis by (auto intro: failed_outcome same_keeps_listed)
    next
      case (Inr res)
      obtain s1 changed where "res = (s1, changed)" by fastforce
      with Inr have m: "mergeOwnedRepos s0 org n = Inr (s1, changed)" by simp
      note M = mergeOwnedRepos_merge [OF m]
      show ?thesis
      proof (cases changed)
        case True
        let ?ob = "ob\<lparr>obj_Spec := EventSourceSpec s1\<rparr>"
        from fetched(3) Some s0 m True
        have "bind_op (kupdate c ?ob) (\<lambda>_. return True) (st\<lparr>r_World := w1\<rparr>) = (r, st')"
          by (simp add: bind_op_def)
        then obtain r1 w' where
          W: "st' = st\<lparr>r_World := w'\<rparr>" "r = (case r1 of Inl e \<Rightarrow> Inl (Failed e) | Inr _ \<Rightarrow> Inr True)"
            "F w' = F w1" "stored c K ?ob w1 w' \<or> r1 \<noteq> Inr () \<and> K w' = K w1" by (rule write_cases [OF L disjI2]) simp
        have "one_outcome c K F ?d w1 r w' \<and> keeps_listed c K w1 w'"
        proof (rule event_source_write [where s = s1, OF W(3,4) _ _ _ _ _ W(2)])
          show "key_of ?ob = (EventSourceKind, eventSourceNamespace, eventSourceName)"
            using ko [unfolded object_keys] s0 by (simp add: key_of_def)
          show "\<not> settled c K w1 ?d" using settled M(2) True by blast
        qed (simp_all add: M(1) listed)
        from lift [OF this] W(1) show ?thesis by auto
      next
        case False
        with fetched(3) Some s0 m have r: "r = Inr False" "st' = st\<lparr>r_World := w1\<rparr>"
          by (simp_all add: bind_op_def)
        have "present c K w1 ?d" using M(1) M(3) [OF False] listed by blast
        then have "one_outcome c K F ?d w1 r w1 \<and> keeps_listed c K w1 w1"
          by (simp add: one_outcome_def r(1) same_keeps_listed)
        from lift [OF this] r(2) show ?thesis by auto
      qed
    qed
  qed
qed

lemma syncs_event_source:
  assumes L: "lawful_objects c K F"
  shows "syncs c K F {event_source_object org n} False (sync_event_source c org n)"
proof (rule syncs_single_keep)
  fix st r st' assume "sync_event_source c org n st = (r, st')"
  from sync_event_source_outcome [OF L this] obtain w' where
    w': "st' = st\<lparr>r_World := w'\<rparr>" "one_outcome c K F (event_source_object org n) (r_World st) r w'"
      "keeps_listed c K (r_World st) w'" by blast
  have "\<exists>o1 m. d' = event_source_object o1 m"
    if "d' \<in> shared_objects \<union> {event_source_object org n}" "key_of d' = key_of (event_source_object org n)" for d'
    using that by (auto simp: shared_objects_def namespace_objects_def)
  with w' show "\<exists>w'. st' = st\<lparr>r_World := w'\<rparr> \<and> one_outcome c K F (event_source_object org n) (r_World st) r w'
      \<and> (\<forall>d' \<in> shared_objects \<union> {event_source_object org n}. key_of d' = key_of (event_source_object org n)
        \<longrightarrow> present c K (r_World st) d' \<longrightarrow> present c K w' d')"
    unfolding keeps_listed_def by blast
qed

end
