(* ===== verification/Reconciler_Runs.thy ===== *)
theory Reconciler_Runs
  imports Reconciler_Objects
begin

text \<open>
  The phases of a reconciliation and whole runs: the steps of \<open>flow_controller.go\<close> composed, in
  terms of the objects that they bring into sync, and what a run keeps whatever its outcome.
\<close>

section \<open>Marking what was synchronised\<close>

text \<open>A call that leaves the cluster and the reconciler's sets as they are.\<close>

definition silent :: "'w objects \<Rightarrow> 'w flows \<Rightarrow> ('w rstate, 'a) op \<Rightarrow> bool" where
  "silent K F g \<longleftrightarrow> (\<forall>st r st'. g st = (r, st') \<longrightarrow>
     (\<exists>w'. st' = st\<lparr>r_World := w'\<rparr> \<and> same_cluster K F (r_World st) w'))"

lemma silent_return: "silent K F (return x)"
  unfolding silent_def same_cluster_def
proof (intro allI impI, goal_cases)
  case (1 st r st')
  then show ?case by (intro exI [of _ "r_World st"]) simp
qed

lemma syncs_mark:
  assumes m: "syncs c K F ds False m" and g: "silent K F g"
    and world: "\<And>st. r_World (mark st) = r_World st" and marks: "\<And>st. claimed (mark st) \<subseteq> claimed st \<union> ds"
  shows "syncs c K F ds False (bind_op m (\<lambda>d. bind_op g (\<lambda>_. bind_op (modify mark) (\<lambda>_. return d))))"
proof (rule syncsI)
  fix st r st'
  assume run: "bind_op m (\<lambda>d. bind_op g (\<lambda>_. bind_op (modify mark) (\<lambda>_. return d))) st = (r, st')"
    and t: "truthful c K st"
  obtain r1 st1 where m1: "m st = (r1, st1)" by fastforce
  note M = syncsD [OF m m1 t]
  show "outcome c K F ds False st r st'"
  proof (cases r1)
    case (Inl e)
    with run m1 have "r = Inl e" "st' = st1" by (auto simp: bind_op_def)
    with M show ?thesis by (auto simp: outcome_def)
  next
    case (Inr x)
    obtain r2 st2 where g2: "g st1 = (r2, st2)" by fastforce
    with g obtain w2 where st2: "st2 = st1\<lparr>r_World := w2\<rparr>" and w2: "K w2 = K (r_World st1)" "F w2 = F (r_World st1)"
      unfolding silent_def same_cluster_def by blast
    have st': "st' = st2 \<or> st' = mark st2" and r: "\<And>y. r = Inr y \<Longrightarrow> y = x"
      using run m1 Inr g2 by (cases r2; auto simp: bind_op_def)+
    have pres: "present c K (r_World st') d = present c K (r_World st1) d" for d
      using st' st2 w2(1) world by (auto simp: present_def)
    have all: "\<forall>d \<in> ds. present c K (r_World st1) d" using M(5) Inr by blast
    have "claimed st' \<subseteq> claimed st1 \<union> ds"
      using st' st2 marks [of st2] by auto
    with M(1) all have "truthful c K st'" unfolding truthful_def pres by blast
    moreover have "K (r_World st') = K (r_World st1)" "F (r_World st') = F (r_World st1)"
      using st' st2 w2 world by auto
    ultimately show ?thesis using M all Inr r pres by (auto simp: outcome_def)
  qed
qed

lemma bind_return: "bind_op (return x) f = f x"
  by (simp add: bind_op_def fun_eq_iff)

lemmas syncs_mark_only = syncs_mark [OF _ silent_return [of K F "()" for K F], unfolded bind_return]

text \<open>A step that is skipped when its objects are claimed to be in sync.\<close>

lemma syncs_guard:
  assumes m: "syncs c K F ds False m" and known: "\<And>st. P st \<Longrightarrow> ds \<subseteq> claimed st"
  shows "syncs c K F ds False (\<lambda>st. if P st then (Inr False, st) else m st)"
proof (rule syncsI)
  fix st r st'
  assume run: "(if P st then (Inr False, st) else m st) = (r, st')" and t: "truthful c K st"
  show "outcome c K F ds False st r st'"
  proof (cases "P st")
    case True
    with run have "st' = st" "r = Inr False" by auto
    moreover have "\<forall>d \<in> ds. present c K (r_World st) d" using known [OF True] t by (auto simp: truthful_def)
    ultimately show ?thesis using t by (simp add: outcome_def)
  next
    case False
    with run have "m st = (r, st')" by simp
    from syncsD [OF m this t] show ?thesis by (auto simp: outcome_def)
  qed
qed

section \<open>The phases\<close>

lemma repo_synced_mark:
  "repo_synced (mark_repo org n m) o1 k \<longleftrightarrow> o1 = org \<and> k = n \<or> repo_synced m o1 k"
  by (auto simp: repo_synced_def mark_repo_def split: option.splits)

lemma syncs_namespace_objects:
  assumes L: "lawful_objects c K F"
  shows "syncs c K F (namespace_objects ns) False (sync_namespace_objects c ns)"
proof -
  have split: "namespace_objects ns = {event_bus_object ns} \<union> ({pvc_object ns} \<union> ({service_account_object ns}
      \<union> ({role_object ns} \<union> ({role_binding_object ns} \<union> {}))))"
    by (simp only: namespace_objects_def Un_insert_left Un_empty_left)
  note steps = syncs_event_bus [OF L] syncs_pvc [OF L] syncs_service_account [OF L] syncs_role [OF L]
    syncs_role_binding [OF L]
  note sub = namespace_objects_shared [of ns, unfolded namespace_objects_def]
  show ?thesis
    unfolding sync_namespace_objects_def split
    by (intro syncs_bind steps syncs_return apart_shared) (use sub in auto)
qed

lemma syncs_namespace:
  assumes L: "lawful_objects c K F"
  shows "syncs c K F (namespace_objects ns) False (sync_namespace c ns)"
proof -
  have "syncs c K F (namespace_objects ns) False (\<lambda>st. if ns \<in> SyncedNamespaces st then (Inr False, st)
      else bind_op (sync_namespace_objects c ns) (\<lambda>d.
           bind_op (modify (SyncedNamespaces_update (insert ns))) (\<lambda>_. return d)) st)"
    by (intro syncs_guard syncs_mark_only syncs_namespace_objects L)
       (auto simp: claimed_def)
  then show ?thesis by (simp add: sync_namespace_def [abs_def])
qed

lemma syncs_project_marked:
  assumes L: "lawful_objects c K F" and p: "p = build_project org"
  shows "syncs c K F {project_object p} False (sync_project c p)"
proof -
  have "syncs c K F {project_object p} False (\<lambda>st. if obj_Name p \<in> SyncedProjects st then (Inr False, st)
      else bind_op (ensure c (project_object p) (spec_drifted c (project_object p))
             (whole_spec (project_object p))) (\<lambda>d.
           bind_op (modify (SyncedProjects_update (insert (obj_Name p)))) (\<lambda>_. return d)) st)"
    by (intro syncs_guard syncs_mark_only syncs_project L)
       (auto simp: claimed_def p)
  then show ?thesis by (simp add: sync_project_def [abs_def])
qed

lemma syncs_trigger_repo:
  assumes L: "lawful_objects c K F" and gh: "silent K F (on_world (SyncGitHubSettingsForRepo gh org n))"
  shows "syncs c K F {event_source_object org n} False (sync_trigger_repo c gh (org, n))"
proof -
  have "syncs c K F {event_source_object org n} False (\<lambda>st.
      if repo_synced (SyncedRepos st) org n then (Inr False, st)
      else bind_op (sync_event_source c org n) (\<lambda>d.
            bind_op (on_world (SyncGitHubSettingsForRepo gh org n)) (\<lambda>_.
            bind_op (modify (SyncedRepos_update (mark_repo org n))) (\<lambda>_. return d))) st)"
    by (intro syncs_guard syncs_mark syncs_event_source L gh)
       (auto simp: claimed_def repo_synced_mark)
  then show ?thesis by (simp add: sync_trigger_repo_def [abs_def])
qed

text \<open>Objects that the flow owns: the owner is set before the object is created or updated.\<close>

lemma create_or_update_outcome:
  assumes L: "lawful_objects c K F" and run: "create_or_update c (K w0 (key_of d)) ob st = (r, st')"
    and w0: "K (r_World st) = K w0" and ob: "key_of ob = key_of d" "obj_Spec ob = obj_Spec d"
    and kind: "fst (key_of d) \<in> {ApplicationKind, SensorKind}"
  shows "\<exists>w'. st' = st\<lparr>r_World := w'\<rparr> \<and> one_outcome c K F d (r_World st) r w'"
proof -
  have sync: "spec_drifted c ob s \<longleftrightarrow> \<not> in_sync c (obj_Spec d) s" for s
    using kind ob by (cases "obj_Spec d") (auto simp: spec_drifted_def key_of_def)
  show ?thesis
  proof (cases "K (r_World st) (key_of d)")
    case None
    with run w0 have "bind_op (kcreate c ob) (\<lambda>_. return True) st = (r, st')"
      by (simp add: create_or_update_def)
    from create_outcome [OF L this, of d] ob None show ?thesis by (simp add: present_def)
  next
    case (Some e)
    note ke = lawful_key [OF L Some]
    show ?thesis
    proof (cases "spec_drifted c ob (obj_Spec e)")
      case True
      with run w0 Some have "bind_op (kupdate c (e\<lparr>obj_Spec := obj_Spec d\<rparr>)) (\<lambda>_. return True) st = (r, st')"
        by (simp add: create_or_update_def whole_spec_def ob(2))
      from update_outcome [OF L this, of d] ke True sync Some show ?thesis
        by (simp add: present_def key_of_def)
    next
      case False
      with run w0 Some have "r = Inr False" "st' = st" by (auto simp: create_or_update_def)
      moreover have "present c K (r_World st) d" using False sync Some by (simp add: present_def)
      ultimately show ?thesis by (intro exI [of _ "r_World st"]) (simp add: one_outcome_def)
    qed
  qed
qed

lemma owned_outcome:
  assumes L: "lawful_objects c K F" and kind: "fst (key_of d) \<in> {ApplicationKind, SensorKind}"
    and run: "bind_op (set_owner c f d) (create_or_update c (K w0 (key_of d))) st = (r, st')"
    and w0: "K (r_World st) = K w0"
  shows "\<exists>w'. st' = st\<lparr>r_World := w'\<rparr> \<and> one_outcome c K F d (r_World st) r w'"
proof (cases "kc_SetOwner c f d")
  case (Inl e)
  with run have "r = Inl (Failed e)" "st' = st" by (auto simp: set_owner_def bind_op_def)
  then show ?thesis by (intro exI [of _ "r_World st"]) (simp add: failed_outcome)
next
  case (Inr ob)
  with run have "create_or_update c (K w0 (key_of d)) ob st = (r, st')"
    by (simp add: set_owner_def bind_op_def)
  from create_or_update_outcome [OF L this w0 lawful_SetOwner [OF L Inr] kind] show ?thesis .
qed

lemma syncs_owned:
  assumes L: "lawful_objects c K F" and kind: "fst (key_of d) \<in> {ApplicationKind, SensorKind}"
    and key: "k = key_of d"
  shows "syncs c K F {d} False
    (bind_op (kget c k) (\<lambda>existing. bind_op (set_owner c f d) (create_or_update c existing)))"
proof (rule syncs_single [OF L])
  fix d' assume "d' \<in> shared_objects" "key_of d' = key_of d"
  then show "d' = d" using shared_kind [of d'] kind by (auto simp: key_of_def)
next
  fix st r st'
  assume "bind_op (kget c k) (\<lambda>existing. bind_op (set_owner c f d) (create_or_update c existing)) st = (r, st')"
  from this [unfolded key] show "\<exists>w'. st' = st\<lparr>r_World := w'\<rparr> \<and> one_outcome c K F d (r_World st) r w'"
  proof (rule kget_outcome [OF L])
    fix w1 assume "K w1 = K (r_World st)"
      "bind_op (set_owner c f d) (create_or_update c (K (r_World st) (key_of d))) (st\<lparr>r_World := w1\<rparr>) = (r, st')"
    with owned_outcome [OF L kind, of f "r_World st" "st\<lparr>r_World := w1\<rparr>" r st']
    show "\<exists>w'. st' = st\<lparr>r_World := w'\<rparr> \<and> one_outcome c K F d w1 r w'" by simp
  qed
qed (use kind in auto)

lemma syncs_application:
  "lawful_objects c K F \<Longrightarrow> syncs c K F {application_object a} False (sync_application c f a)"
  unfolding sync_application_def by (rule syncs_owned) simp_all

lemma syncs_each:
  assumes "\<And>x. x \<in> set xs \<Longrightarrow> syncs c K F {h x} False (f x)"
    and "\<And>x y. x \<in> set xs \<Longrightarrow> y \<in> set xs \<Longrightarrow> h x \<notin> shared_objects \<Longrightarrow> key_of (h x) = key_of (h y) \<Longrightarrow> h x = h y"
  shows "syncs c K F (h ` set xs) False (sync_each f xs)"
  using assms
proof (induction xs)
  case Nil
  show ?case unfolding sync_each.simps list.set image_empty by (rule syncs_return) simp
next
  case (Cons x xs)
  have ap: "apart {h x} (h ` set xs)"
    using Cons.prems(2) unfolding apart_def by (simp add: image_iff) metis
  have "syncs c K F (h ` set xs) False (sync_each f xs)" using Cons by simp
  then have rest: "syncs c K F (h ` set xs \<union> {}) (False \<or> d) (bind_op (sync_each f xs) (\<lambda>d'. return (d \<or> d')))" for d
    by (rule syncs_bind) (auto intro: syncs_return simp: apart_def)
  have "syncs c K F ({h x} \<union> h ` set xs) False (sync_each f (x # xs))"
    unfolding sync_each.simps
    by (rule syncs_bind [OF _ _ ap]) (use Cons.prems(1) rest in auto)
  then show ?case by simp
qed

section \<open>A flow\<close>

text \<open>The steps of a flow whose objects could be built, and the objects that they are for.\<close>

definition sync_flow ::
  "'w kube_client \<Rightarrow> 'w github_client \<Rightarrow> string \<times> string \<Rightarrow> flow \<Rightarrow> app_project_spec object list
     \<Rightarrow> application_spec object list \<Rightarrow> sensor_spec object \<Rightarrow> string \<times> string \<Rightarrow> ('w rstate, bool) op" where
  "sync_flow c gh req f ps as sensor repo =
     bind_op (sync_namespace c (flow_Namespace f)) (\<lambda>d1.
     bind_op (sync_each (sync_project c) ps) (\<lambda>d2.
     bind_op (sync_each (sync_application c f) as) (\<lambda>d3.
     bind_op (bind_op (kget c (SensorKind, req)) (\<lambda>existing.
       bind_op (set_owner c f (sensor_object sensor)) (create_or_update c existing))) (\<lambda>d4.
     bind_op (sync_trigger_repo c gh repo) (\<lambda>d5.
     return (d1 \<or> d2 \<or> d3 \<or> d4 \<or> d5))))))"

definition flow_objects ::
  "flow \<Rightarrow> app_project_spec object list \<Rightarrow> application_spec object list \<Rightarrow> sensor_spec object
     \<Rightarrow> string \<times> string \<Rightarrow> kobject set" where
  "flow_objects f ps as sensor repo =
     namespace_objects (flow_Namespace f) \<union> project_object ` set ps \<union> application_object ` set as
     \<union> {sensor_object sensor, event_source_object (fst repo) (snd repo)}"

lemma bind_assoc: "bind_op (bind_op m f) g = bind_op m (\<lambda>x. bind_op (f x) g)"
  by (simp add: bind_op_def fun_eq_iff split: prod.split sum.split)

lemma reconcile_flow_eq:
  assumes "BuildArgoApps flowSteps = Inr (ps, as)"
    and "BuildSensor marshal f flowTriggers flowSteps = Inr sensor"
    and "getTriggerRepoName (flow_Name f) flowTriggers = Inr repo"
  shows "reconcile_flow c gh marshal req f (flowTriggers, flowSteps)
    = bind_op (sync_flow c gh req f ps as sensor repo) (finish c req f)"
  by (simp add: reconcile_flow_def sync_flow_def or_condition_def reconcile_sensor_def reconcile_repo_def
      assms bind_assoc bind_return)

text \<open>Objects that are shared, or owned by the flow and of a key of their own.\<close>

definition flow_owned :: "kobject set" where
  "flow_owned = {d. fst (key_of d) \<in> {ApplicationKind, SensorKind}}"

lemma apart_owned:
  assumes "ds \<union> es \<subseteq> shared_objects \<union> flow_owned"
    and "\<And>d e. d \<in> ds \<Longrightarrow> e \<in> es \<Longrightarrow> d \<in> flow_owned \<Longrightarrow> key_of d \<noteq> key_of e"
  shows "apart ds es"
proof -
  have own: "key_of d = key_of e \<Longrightarrow> d \<in> flow_owned \<longleftrightarrow> e \<in> flow_owned" for d e
    by (simp add: flow_owned_def)
  have "d \<in> shared_objects \<or> key_of d \<notin> key_of ` es" if "d \<in> ds" for d
    using assms that by blast
  moreover have "e \<in> shared_objects \<or> key_of e \<notin> key_of ` ds" if "e \<in> es" for e
  proof (rule disjCI)
    assume "\<not> key_of e \<notin> key_of ` ds"
    then obtain d where "d \<in> ds" "key_of e = key_of d" by auto
    with assms(1) assms(2) [of d e] that own [of d e] show "e \<in> shared_objects" by auto
  qed
  ultimately show ?thesis unfolding apart_def by blast
qed

lemma apart_shared_owned:
  assumes "ds \<subseteq> shared_objects" and "es \<subseteq> shared_objects \<union> flow_owned"
  shows "apart ds es"
proof (rule apart_owned)
  fix d assume "d \<in> ds" "d \<in> flow_owned"
  with assms(1) shared_kind [of d] show "key_of d \<noteq> key_of e" for e
    by (auto simp: flow_owned_def key_of_def)
qed (use assms in auto)

lemma event_source_shared: "event_source_object org n \<in> shared_objects"
  by (auto simp: shared_objects_def)

lemma projects_shared: "BuildArgoApps ss = Inr (ps, as) \<Longrightarrow> project_object ` set ps \<subseteq> shared_objects"
  using BuildArgoApps_built project_shared by blast

lemma applications_owned: "application_object ` set as \<subseteq> flow_owned"
  by (auto simp: flow_owned_def)

lemma syncs_projects:
  assumes L: "lawful_objects c K F" and apps: "BuildArgoApps ss = Inr (ps, as)"
  shows "syncs c K F (project_object ` set ps) False (sync_each (sync_project c) ps)"
  using projects_shared [OF apps] BuildArgoApps_built [OF apps]
  by (intro syncs_each) (auto intro: syncs_project_marked [OF L])

lemma syncs_applications:
  assumes L: "lawful_objects c K F" and apps: "BuildArgoApps ss = Inr (ps, as)"
  shows "syncs c K F (application_object ` set as) False (sync_each (sync_application c f) as)"
  using BuildArgoApps_distinct [OF apps]
  by (intro syncs_each syncs_application L) (auto simp: distinct_map dest: inj_onD)

lemma syncs_flow:
  assumes L: "lawful_objects c K F" and gh: "\<And>org n. silent K F (on_world (SyncGitHubSettingsForRepo gh org n))"
    and apps: "BuildArgoApps flowSteps = Inr (ps, as)"
    and sensor: "key_of (sensor_object sensor) = (SensorKind, req)"
  shows "syncs c K F (flow_objects f ps as sensor repo) False (sync_flow c gh req f ps as sensor repo)"
proof -
  obtain org n where repo: "repo = (org, n)" by fastforce
  note P = syncs_projects [OF L apps] and A = syncs_applications [OF L apps, of f]
  have S: "syncs c K F {sensor_object sensor} False (bind_op (kget c (SensorKind, req)) (\<lambda>existing.
       bind_op (set_owner c f (sensor_object sensor)) (create_or_update c existing)))"
    unfolding sensor [symmetric] by (rule syncs_owned [OF L]) simp_all
  have R: "syncs c K F {event_source_object org n} False (sync_trigger_repo c gh (org, n))"
    by (rule syncs_trigger_repo [OF L gh])
  have split: "flow_objects f ps as sensor repo = namespace_objects (flow_Namespace f)
      \<union> (project_object ` set ps \<union> (application_object ` set as \<union> ({sensor_object sensor}
      \<union> ({event_source_object org n} \<union> {}))))"
    by (auto simp: flow_objects_def repo)
  have ns: "namespace_objects (flow_Namespace f) \<subseteq> shared_objects" by (rule namespace_objects_shared)
  have own: "application_object ` set as \<subseteq> flow_owned" "{sensor_object sensor} \<subseteq> flow_owned"
    by (simp_all add: applications_owned) (simp add: flow_owned_def)
  have rs: "{event_source_object org n} \<union> {} \<subseteq> shared_objects" by (simp add: event_source_shared)
  note ps = projects_shared [OF apps]
  have tail: "{sensor_object sensor} \<union> ({event_source_object org n} \<union> {}) \<subseteq> shared_objects \<union> flow_owned"
    using own(2) rs by blast
  note all = this own(1)
  have 1: "apart {sensor_object sensor} ({event_source_object org n} \<union> {})"
    by (rule apart_owned) (use tail in \<open>auto simp: key_of_def\<close>)
  have 2: "apart (application_object ` set as) ({sensor_object sensor} \<union> ({event_source_object org n} \<union> {}))"
    by (rule apart_owned) (use all in \<open>auto simp: key_of_def\<close>)
  have 3: "apart (project_object ` set ps) (application_object ` set as \<union> ({sensor_object sensor} \<union> ({event_source_object org n} \<union> {})))"
    by (rule apart_shared_owned [OF ps]) (use all in blast)
  have 4: "apart (namespace_objects (flow_Namespace f)) (project_object ` set ps \<union> (application_object ` set as
      \<union> ({sensor_object sensor} \<union> ({event_source_object org n} \<union> {}))))"
    by (rule apart_shared_owned [OF ns]) (use all ps in blast)
  have 5: "apart {event_source_object org n} {}" by (simp add: apart_def event_source_shared)
  show ?thesis
    unfolding split unfolding sync_flow_def repo
    by (intro syncs_bind syncs_namespace L P A S R syncs_return 1 2 3 4 5) blast
qed

section \<open>GitHub calls and status updates\<close>

lemma keeps_case_prod: "(\<And>a b. p = (a, b) \<Longrightarrow> keeps P (f a b)) \<Longrightarrow> keeps P (case p of (a, b) \<Rightarrow> f a b)"
  by (cases p) simp

lemma github_keeps:
  assumes "github_apart gh K F"
  shows "keeps (\<lambda>w. K w = k0 \<and> F w = f0) (SyncGitHubSettingsForRepo gh org n)"
proof -
  let ?P = "\<lambda>w. K w = k0 \<and> F w = f0"
  note A = assms [unfolded github_apart_def same_cluster_def]
  have inst: "keeps ?P (find_installation gh org n)"
    using A by (auto simp: keeps_def find_installation_def split: prod.splits sum.splits)
  have get: "keeps ?P (call_wrapped m (gh_GetRepo gh i org n))"
    and edit: "keeps ?P (call_wrapped m (gh_EditRepo gh i org n s))"
    and all: "keeps ?P (call_wrapped m (gh_GetAllRulesets gh i org n))"
    and rule: "keeps ?P (call_wrapped m (gh_GetRuleset gh i org n rid))"
    and create: "keeps ?P (call_wrapped m (gh_CreateRuleset gh i org n x))"
    and update: "keeps ?P (call_wrapped m (gh_UpdateRuleset gh i org n rid x))" for m i s rid x
    using A by (intro keeps_call_wrapped; metis)+
  show ?thesis
    unfolding SyncGitHubSettingsForRepo_def sync_repo_settings_def sync_rulesets_def
      find_default_ruleset_def sync_found_ruleset_def
    by (intro keeps_rules keeps_case_prod inst get edit all rule create update)
qed

lemma github_silent:
  assumes "github_apart gh K F"
  shows "silent K F (on_world (SyncGitHubSettingsForRepo gh org n))"
  unfolding silent_def same_cluster_def
proof (intro allI impI, goal_cases)
  case (1 st r st')
  then obtain w' where "SyncGitHubSettingsForRepo gh org n (r_World st) = (r, w')" "st' = st\<lparr>r_World := w'\<rparr>"
    by (auto simp: on_world_result)
  with keepsD [OF github_keeps [OF assms] this(1)] show ?case by auto
qed

text \<open>At most the status of the flow changes.\<close>

definition status_only :: "'w objects \<Rightarrow> 'w flows \<Rightarrow> string \<times> string \<Rightarrow> 'w rstate \<Rightarrow> 'w rstate \<Rightarrow> bool" where
  "status_only K F req st0 st \<longleftrightarrow> (\<exists>w'. st = st0\<lparr>r_World := w'\<rparr> \<and> K w' = K (r_World st0)
     \<and> (\<forall>k. k \<noteq> req \<longrightarrow> F w' k = F (r_World st0) k))"

lemma lawful_GetFlow:
  assumes "lawful_flows c K F" and "kc_GetFlow c req w = (r, w')"
  shows "K w' = K w" and "F w' = F w" and "r = Inr x \<Longrightarrow> x = F w req"
  using assms unfolding lawful_flows_def by (elim conjE, blast)+

lemma lawful_UpdateStatus:
  assumes "lawful_flows c K F" and "kc_UpdateStatus c f w = (r, w')"
  shows "K w' = K w" and "k \<noteq> flow_key f \<Longrightarrow> F w' k = F w k"
  and "r = Inr () \<Longrightarrow> F w' = (F w)(flow_key f := map_option (\<lambda>g. g\<lparr>Conditions := Conditions f\<rparr>) (F w (flow_key f)))"
proof -
  from assms have a: "K w' = K w \<and> (F w' = (F w)(flow_key f :=
                map_option (\<lambda>g. g\<lparr>Conditions := Conditions f\<rparr>) (F w (flow_key f)))
             \<or> r \<noteq> Inr () \<and> F w' = F w)"
    unfolding lawful_flows_def by (elim conjE, blast)
  show "r = Inr () \<Longrightarrow> F w' = (F w)(flow_key f := map_option (\<lambda>g. g\<lparr>Conditions := Conditions f\<rparr>) (F w (flow_key f)))"
    using a by blast
  show "K w' = K w" using a by blast
  show "k \<noteq> flow_key f \<Longrightarrow> F w' k = F w k" using a by auto
qed

lemma setCondition_status:
  assumes L: "lawful_flows c K F"
  shows "keeps (status_only K F (flow_key f) st0) (setCondition c req f cond)"
proof -
  have upd: "keeps (status_only K F (flow_key f) st0) (on_world (call (kc_UpdateStatus c (f\<lparr>Conditions := cs\<rparr>))))" for cs
    unfolding keeps_def status_only_def
  proof (intro allI impI, goal_cases)
    case (1 st r st')
    then obtain r1 w w' where w: "st = st0\<lparr>r_World := w\<rparr>" "K w = K (r_World st0)"
        "\<forall>k. k \<noteq> flow_key f \<longrightarrow> F w k = F (r_World st0) k"
      and u: "kc_UpdateStatus c (f\<lparr>Conditions := cs\<rparr>) w = (r1, w')" "st' = st\<lparr>r_World := w'\<rparr>"
      by (auto simp: on_world_def call_def split: prod.splits sum.splits)
    from lawful_UpdateStatus [OF L u(1)] have "K w' = K w" "\<And>k. k \<noteq> flow_key f \<Longrightarrow> F w' k = F w k"
      by (simp_all add: flow_key_def)
    with w u(2) show ?case by (intro exI [of _ w']) simp
  qed
  have get: "keeps (status_only K F (flow_key f) st0) (on_world (call (kc_GetFlow c req)))"
    unfolding keeps_def status_only_def
  proof (intro allI impI, goal_cases)
    case (1 st r st')
    then obtain r1 w w' where w: "st = st0\<lparr>r_World := w\<rparr>" "K w = K (r_World st0)"
        "\<forall>k. k \<noteq> flow_key f \<longrightarrow> F w k = F (r_World st0) k"
      and u: "kc_GetFlow c req w = (r1, w')" "st' = st\<lparr>r_World := w'\<rparr>"
      by (auto simp: on_world_def call_def split: prod.splits sum.splits)
    from lawful_GetFlow [OF L u(1)] w u(2) show ?case by (intro exI [of _ w']) simp
  qed
  show ?thesis
    unfolding setCondition_def
    by (intro keeps_rules keeps_case_prod upd get)
qed

lemma status_only_refl: "status_only K F req st st"
  unfolding status_only_def by (intro exI [of _ "r_World st"]) simp

lemma setCondition_run:
  "lawful_flows c K F \<Longrightarrow> setCondition c req f cond st = (r, st') \<Longrightarrow> status_only K F (flow_key f) st st'"
  by (rule keepsD [OF setCondition_status _ status_only_refl])

section \<open>Whole runs\<close>

lemma preprocess_key: "PreProcessFlow dv dm f0 = (f, res) \<Longrightarrow> flow_key f = flow_key f0"
  by (auto simp: PreProcessFlow_def applyDefaults_def flow_key_def split: sum.splits prod.splits)

text \<open>The fetch at the start of a run.\<close>

lemma Reconcile_cases:
  assumes L: "lawful_flows c K F" and run: "Reconcile c gh marshal dv dm req st = (r, st')"
  obtains (failed) e w1 where "r = Inl (Failed e)" "st' = st\<lparr>r_World := w1\<rparr>"
      "K w1 = K (r_World st)" "F w1 = F (r_World st)"
  | (absent) w1 where "F (r_World st) req = None" "r = Inr ()" "st' = st\<lparr>r_World := w1\<rparr>"
      "K w1 = K (r_World st)" "F w1 = F (r_World st)"
  | (fetched) w1 f0 f processed where "F (r_World st) req = Some f0" "PreProcessFlow dv dm f0 = (f, processed)"
      "flow_key f = req" "K w1 = K (r_World st)" "F w1 = F (r_World st)"
      "or_condition c req f ''PreProcessFailed'' ''Failed to preprocess Flow'' processed
                (reconcile_flow c gh marshal req f) (st\<lparr>r_World := w1\<rparr>) = (r, st')"
proof -
  obtain r1 w1 where g: "kc_GetFlow c req (r_World st) = (r1, w1)" by fastforce
  note G = lawful_GetFlow [OF L g]
  show thesis
  proof (cases r1)
    case (Inl e)
    with run g have "r = Inl (Failed e)" "st' = st\<lparr>r_World := w1\<rparr>"
      by (auto simp: Reconcile_def on_world_def call_def bind_op_def)
    then show thesis using G(1,2) by (rule failed)
  next
    case (Inr x)
    then have x: "x = F (r_World st) req" using G(3) by blast
    show thesis
    proof (cases x)
      case None
      with run g Inr have "r = Inr ()" "st' = st\<lparr>r_World := w1\<rparr>"
        by (auto simp: Reconcile_def on_world_def call_def bind_op_def)
      with x None show thesis using G(1,2) by (intro absent [of w1]) simp_all
    next
      case (Some f0)
      obtain f processed where p: "PreProcessFlow dv dm f0 = (f, processed)" by fastforce
      have "flow_key f0 = req" using L x Some unfolding lawful_flows_def by (elim conjE) (metis)
      with preprocess_key [OF p] have "flow_key f = req" by simp
      moreover from run g Inr Some p have "or_condition c req f ''PreProcessFailed'' ''Failed to preprocess Flow'' processed
                (reconcile_flow c gh marshal req f) (st\<lparr>r_World := w1\<rparr>) = (r, st')"
        by (auto simp: Reconcile_def on_world_def call_def bind_op_def)
      ultimately show thesis using x Some p G(1,2) by (intro fetched [of f0 f processed w1]) simp_all
    qed
  qed
qed

text \<open>What every run keeps: truthful sets, and shared objects that are in sync.\<close>

definition sound :: "'w kube_client \<Rightarrow> 'w objects \<Rightarrow> kobject set \<Rightarrow> 'w rstate \<Rightarrow> bool" where
  "sound c K D st \<longleftrightarrow> truthful c K st \<and> (\<forall>d \<in> D \<inter> shared_objects. present c K (r_World st) d)"

lemma syncs_keeps: "syncs c K F ds b m \<Longrightarrow> keeps (sound c K D) m"
  unfolding keeps_def sound_def by (metis syncsD(1,4) IntD2 UnI1)

lemma sound_same_objects:
  "sound c K D st \<Longrightarrow> K w' = K (r_World st) \<Longrightarrow> sound c K D (st\<lparr>r_World := w'\<rparr>)"
  by (simp add: sound_def truthful_def present_def)

lemma sound_setCondition:
  assumes "lawful_flows c K F"
  shows "keeps (sound c K D) (setCondition c req f cond)"
  unfolding keeps_def
proof (intro allI impI)
  fix st r st' assume "setCondition c req f cond st = (r, st')" and s: "sound c K D st"
  from setCondition_run [OF assms this(1)] sound_same_objects [OF s] show "sound c K D st'"
    unfolding status_only_def by blast
qed

lemma sound_get:
  assumes "lawful_objects c K F"
  shows "keeps (sound c K D) (kget c k)"
  unfolding keeps_def
proof (intro allI impI)
  fix st r st' assume "kget c k st = (r, st')" and s: "sound c K D st"
  then obtain r1 w' where g: "kc_Get c k (r_World st) = (r1, w')" "st' = st\<lparr>r_World := w'\<rparr>"
    by (auto simp: kget_def on_world_def call_def split: prod.splits sum.splits)
  with lawful_Get [OF assms g(1)] sound_same_objects [OF s] show "sound c K D st'" by simp
qed

lemma sound_write:
  assumes L: "lawful_objects c K F" and kind: "fst (key_of ob) \<in> {ApplicationKind, SensorKind}"
    and w: "stored c K ob w w' \<or> K w' = K w" and st: "sound c K D st" "r_World st = w"
  shows "sound c K D (st\<lparr>r_World := w'\<rparr>)"
proof -
  have key: "key_of d \<noteq> key_of ob" if "d \<in> shared_objects" for d
    using shared_kind [OF that] kind by (auto simp: key_of_def)
  have "present c K w' d = present c K w d" if "d \<in> shared_objects" for d
    using w key [OF that] by (auto simp: stored_def present_def)
  with st claimed_shared [of st] show ?thesis
    unfolding sound_def truthful_def by auto
qed

lemma sound_create_update:
  assumes L: "lawful_objects c K F" and kind: "kind_of (obj_Spec ob) \<in> {ApplicationKind, SensorKind}"
  shows "keeps (sound c K D) (kcreate c ob)" and "keeps (sound c K D) (kupdate c ob)"
proof -
  have key: "fst (key_of ob) \<in> {ApplicationKind, SensorKind}" using kind by (simp add: key_of_def)
  show "keeps (sound c K D) (kcreate c ob)"
    unfolding keeps_def
  proof (intro allI impI)
    fix st r st' assume "kcreate c ob st = (r, st')" and s: "sound c K D st"
    then obtain r1 w' where g: "kc_Create c ob (r_World st) = (r1, w')" "st' = st\<lparr>r_World := w'\<rparr>"
      by (auto simp: kcreate_def on_world_def call_def split: prod.splits sum.splits)
    with lawful_Create [OF L g(1)] sound_write [OF L key _ s] show "sound c K D st'" by auto
  qed
  show "keeps (sound c K D) (kupdate c ob)"
    unfolding keeps_def
  proof (intro allI impI)
    fix st r st' assume "kupdate c ob st = (r, st')" and s: "sound c K D st"
    then obtain r1 w' where g: "kc_Update c ob (r_World st) = (r1, w')" "st' = st\<lparr>r_World := w'\<rparr>"
      by (auto simp: kupdate_def on_world_def call_def split: prod.splits sum.splits)
    with lawful_Update [OF L g(1)] sound_write [OF L key _ s] show "sound c K D st'" by auto
  qed
qed

lemma sound_owned:
  assumes L: "lawful_objects c K F" and kind: "kind_of (obj_Spec d) \<in> {ApplicationKind, SensorKind}"
  shows "keeps (sound c K D) (bind_op (set_owner c f d) (create_or_update c existing))"
proof (cases "kc_SetOwner c f d")
  case (Inl e)
  then have "bind_op (set_owner c f d) (create_or_update c existing) = throw (Failed e)"
    by (simp add: set_owner_def bind_op_def fun_eq_iff)
  then show ?thesis by (simp only: keeps_throw)
next
  case (Inr ob)
  then have eq: "bind_op (set_owner c f d) (create_or_update c existing) = create_or_update c existing ob"
    by (simp add: set_owner_def bind_op_def fun_eq_iff)
  have "kind_of (obj_Spec ob) \<in> {ApplicationKind, SensorKind}"
    using lawful_SetOwner(2) [OF L Inr] kind by simp
  then show ?thesis
    unfolding eq create_or_update_def
    by (intro keeps_rules sound_create_update [OF L]) (simp_all add: whole_spec_def)
qed

lemma keeps_each [keeps_rules]:
  "(\<And>x. x \<in> set xs \<Longrightarrow> keeps P (f x)) \<Longrightarrow> keeps P (sync_each f xs)"
  by (induction xs) (auto intro!: keeps_rules)

lemma keeps_or_condition:
  assumes "\<And>cond. keeps P (setCondition c req f cond)" and "\<And>x. built = Inr x \<Longrightarrow> keeps P (rest x)"
  shows "keeps P (or_condition c req f reason what built rest)"
  using assms by (auto simp: or_condition_def split: sum.split fault.split intro: keeps_throw)

lemma sound_finish:
  "lawful_flows c K F \<Longrightarrow> keeps (sound c K D) (finish c req f b)"
  unfolding finish_def by (intro keeps_rules sound_setCondition)

lemma sound_reconcile_repo:
  assumes L: "lawful_objects c K F" "lawful_flows c K F" "github_apart gh K F"
    and rest: "\<And>d. keeps (sound c K D) (rest d)"
  shows "keeps (sound c K D) (reconcile_repo c gh req f flowTriggers rest)"
  unfolding reconcile_repo_def
proof (intro keeps_or_condition sound_setCondition [OF L(2)] keeps_bind rest)
  fix repo :: "string \<times> string"
  obtain org n where "repo = (org, n)" by fastforce
  with syncs_trigger_repo [OF L(1) github_silent [OF L(3)]] show "keeps (sound c K D) (sync_trigger_repo c gh repo)"
    by (auto intro: syncs_keeps)
qed

lemma sound_reconcile_sensor:
  assumes L: "lawful_objects c K F" "lawful_flows c K F"
    and rest: "\<And>d. keeps (sound c K D) (rest d)"
  shows "keeps (sound c K D) (reconcile_sensor c marshal req f flowTriggers flowSteps rest)"
proof -
  have "keeps (sound c K D) (bind_op (bind_op (set_owner c f (sensor_object s)) (create_or_update c existing)) rest)"
    for s existing
    by (intro keeps_bind sound_owned [OF L(1)] rest) simp
  then have step: "keeps (sound c K D) (bind_op (set_owner c f (sensor_object s))
      (\<lambda>owned. bind_op (create_or_update c existing owned) rest))" for s existing
    by (simp only: bind_assoc)
  show ?thesis
    unfolding reconcile_sensor_def
    by (intro keeps_bind [OF sound_get [OF L(1)]] keeps_or_condition sound_setCondition [OF L(2)] step)
qed

lemma sound_reconcile_flow:
  assumes L: "lawful_objects c K F" "lawful_flows c K F" "github_apart gh K F"
  shows "keeps (sound c K D) (reconcile_flow c gh marshal req f (flowTriggers, flowSteps))"
proof -
  have apps: "keeps (sound c K D) (case pa of (ps, as) \<Rightarrow>
     bind_op (sync_each (sync_project c) ps) (\<lambda>d2.
     bind_op (sync_each (sync_application c f) as) (\<lambda>d3.
     reconcile_sensor c marshal req f flowTriggers flowSteps (\<lambda>d4.
     reconcile_repo c gh req f flowTriggers (\<lambda>d5.
     finish c req f (d1 \<or> d2 \<or> d3 \<or> d4 \<or> d5))))))"
    if b: "BuildArgoApps flowSteps = Inr pa" for pa d1
  proof (rule keeps_case_prod)
    fix ps as assume "pa = (ps, as)"
    with b have "\<And>p. p \<in> set ps \<Longrightarrow> \<exists>org. p = build_project org" using BuildArgoApps_built by blast
    then have "keeps (sound c K D) (sync_project c p)" if "p \<in> set ps" for p
      using that syncs_keeps [OF syncs_project_marked [OF L(1)]] by blast
    then show "keeps (sound c K D) (bind_op (sync_each (sync_project c) ps) (\<lambda>d2.
       bind_op (sync_each (sync_application c f) as) (\<lambda>d3.
       reconcile_sensor c marshal req f flowTriggers flowSteps (\<lambda>d4.
       reconcile_repo c gh req f flowTriggers (\<lambda>d5.
       finish c req f (d1 \<or> d2 \<or> d3 \<or> d4 \<or> d5))))))"
      by (intro keeps_bind keeps_each sound_reconcile_sensor [OF L(1,2)] sound_reconcile_repo [OF L]
          sound_finish [OF L(2)] syncs_keeps [OF syncs_application [OF L(1)]])
  qed
  show ?thesis
    unfolding reconcile_flow_def prod.case
    by (intro keeps_bind [OF syncs_keeps [OF syncs_namespace [OF L(1)]]] keeps_or_condition
        sound_setCondition [OF L(2)] apps)
qed

lemma Reconcile_sound:
  assumes L: "lawful_objects c K F" "lawful_flows c K F" "github_apart gh K F"
    and run: "Reconcile c gh marshal dv dm req st = (r, st')" and s: "sound c K D st"
  shows "sound c K D st'"
  using L(2) run
proof (cases rule: Reconcile_cases)
  case (failed e w1)
  with sound_same_objects [OF s] show ?thesis by simp
next
  case (absent w1)
  with sound_same_objects [OF s] show ?thesis by simp
next
  case (fetched w1 f0 f processed)
  have "keeps (sound c K D) (or_condition c req f ''PreProcessFailed'' ''Failed to preprocess Flow'' processed
                (reconcile_flow c gh marshal req f))"
    using sound_reconcile_flow [OF L] by (intro keeps_or_condition sound_setCondition [OF L(2)]) (metis surj_pair)
  from keepsD [OF this fetched(6)] sound_same_objects [OF s fetched(4)] show ?thesis by blast
qed

section \<open>The objects of a flow\<close>

text \<open>All that a flow asks for, when it can be preprocessed and its objects can be built.\<close>

definition desired_objects ::
  "(workflow \<Rightarrow> go_error + string) \<Rightarrow> volume decoder \<Rightarrow> volume_mount decoder \<Rightarrow> flow \<Rightarrow> kobject set option" where
  "desired_objects marshal dv dm f0 =
     (case PreProcessFlow dv dm f0 of
        (f, Inl e) \<Rightarrow> None
      | (f, Inr (flowTriggers, flowSteps)) \<Rightarrow>
          (case (BuildArgoApps flowSteps, BuildSensor marshal f flowTriggers flowSteps,
                 getTriggerRepoName (flow_Name f) flowTriggers) of
             (Inr (ps, as), Inr sensor, Inr repo) \<Rightarrow> Some (flow_objects f ps as sensor repo)
           | _ \<Rightarrow> None))"

lemma desired_objects_Some:
  "desired_objects marshal dv dm f0 = Some ds \<longleftrightarrow>
     (\<exists>f ts ss ps as sensor repo. PreProcessFlow dv dm f0 = (f, Inr (ts, ss)) \<and> BuildArgoApps ss = Inr (ps, as)
        \<and> BuildSensor marshal f ts ss = Inr sensor \<and> getTriggerRepoName (flow_Name f) ts = Inr repo
        \<and> ds = flow_objects f ps as sensor repo)"
  by (auto simp: desired_objects_def split: prod.splits sum.splits)

lemma sensor_key:
  "BuildSensor marshal f ts ss = Inr sensor \<Longrightarrow> key_of (sensor_object sensor) = (SensorKind, flow_key f)"
  by (auto simp: BuildSensor_def flow_key_def)

text \<open>A run for such a flow: the steps for its objects, and the final condition.\<close>

lemma Reconcile_desired:
  assumes L: "lawful_objects c K F" "lawful_flows c K F" "github_apart gh K F"
    and f0: "F (r_World st) req = Some f0" and ds: "desired_objects marshal dv dm f0 = Some ds"
    and run: "Reconcile c gh marshal dv dm req st = (r, st')"
  obtains (failed) e w1 where "r = Inl (Failed e)" "st' = st\<lparr>r_World := w1\<rparr>"
      "K w1 = K (r_World st)" "F w1 = F (r_World st)"
  | (steps) w1 f m where "K w1 = K (r_World st)" "F w1 = F (r_World st)" "flow_key f = req"
      "syncs c K F ds False m" "bind_op m (finish c req f) (st\<lparr>r_World := w1\<rparr>) = (r, st')"
  using L(2) run
proof (cases rule: Reconcile_cases)
  case (failed e w1)
  then show thesis by (rule that(1))
next
  case (absent w1)
  with f0 show thesis by simp
next
  case (fetched w1 f1 f processed)
  with f0 ds obtain ts ss ps as sensor repo where b: "processed = Inr (ts, ss)" "BuildArgoApps ss = Inr (ps, as)"
      "BuildSensor marshal f ts ss = Inr sensor" "getTriggerRepoName (flow_Name f) ts = Inr repo"
      "ds = flow_objects f ps as sensor repo"
    by (auto simp: desired_objects_Some)
  have "syncs c K F ds False (sync_flow c gh req f ps as sensor repo)"
    unfolding b(5) using sensor_key [OF b(3)] fetched(3)
    by (intro syncs_flow [OF L(1) github_silent [OF L(3)] b(2)]) simp
  moreover have "bind_op (sync_flow c gh req f ps as sensor repo) (finish c req f) (st\<lparr>r_World := w1\<rparr>) = (r, st')"
    using fetched(6) b(1) by (simp add: or_condition_def reconcile_flow_eq [OF b(2-4)])
  ultimately show thesis by (rule that(2) [OF fetched(4,5,3)])
qed

lemma finish_status:
  assumes "lawful_flows c K F" and "finish c req f b st = (r, st')"
  shows "status_only K F (flow_key f) st st'" and "\<not> b \<Longrightarrow> st' = st"
proof -
  show "status_only K F (flow_key f) st st'"
    using assms by (cases b) (auto simp: finish_def status_only_refl intro: setCondition_run)
  show "\<not> b \<Longrightarrow> st' = st" using assms(2) by (simp add: finish_def)
qed

lemma Reconcile_success:
  assumes L: "lawful_objects c K F" "lawful_flows c K F" "github_apart gh K F" and t: "truthful c K st"
    and f0: "F (r_World st) req = Some f0" and ds: "desired_objects marshal dv dm f0 = Some ds"
    and run: "Reconcile c gh marshal dv dm req st = (Inr u, st')"
  shows "(\<forall>d \<in> ds. present c K (r_World st') d)
    \<and> (\<forall>k. k \<notin> key_of ` ds \<longrightarrow> K (r_World st') k = K (r_World st) k)
    \<and> (\<forall>k. k \<noteq> req \<longrightarrow> F (r_World st') k = F (r_World st) k)"
  using L f0 ds run
proof (cases rule: Reconcile_desired)
  case (steps w1 f m)
  have t1: "truthful c K (st\<lparr>r_World := w1\<rparr>)" using t steps(1) by (simp add: truthful_def present_def)
  from steps(5) obtain d st1 where m: "m (st\<lparr>r_World := w1\<rparr>) = (Inr d, st1)" and fin: "finish c req f d st1 = (Inr u, st')"
    by (auto simp: bind_op_def split: prod.splits sum.splits)
  note M = syncsD [OF steps(4) m t1]
  from finish_status(1) [OF L(2) fin] obtain w' where "st' = st1\<lparr>r_World := w'\<rparr>" "K w' = K (r_World st1)"
      "\<forall>k. k \<noteq> req \<longrightarrow> F w' k = F (r_World st1) k" by (auto simp: status_only_def steps(3))
  moreover have "\<forall>d \<in> ds. present c K (r_World st1) d" using M(5) by blast
  ultimately show ?thesis using M(2,3) steps(1,2) by (simp add: present_def)
qed simp

lemma Reconcile_idle_run:
  assumes "lawful_objects c K F" and "lawful_flows c K F" and "github_apart gh K F" and "truthful c K st"
    and "F (r_World st) req = Some f0" and "desired_objects marshal dv dm f0 = Some ds"
    and "\<forall>d \<in> ds. settled c K (r_World st) d"
    and "Reconcile c gh marshal dv dm req st = (r, st')"
  shows "K (r_World st') = K (r_World st) \<and> F (r_World st') = F (r_World st)"
  using assms(1-3,5,6,8)
proof (cases rule: Reconcile_desired)
  case (steps w1 f m)
  have t1: "truthful c K (st\<lparr>r_World := w1\<rparr>)" using assms(4) steps(1) by (simp add: truthful_def present_def)
  obtain r1 st1 where m: "m (st\<lparr>r_World := w1\<rparr>) = (r1, st1)" by fastforce
  note M = syncsD [OF steps(4) m t1]
  have "\<forall>d \<in> ds. settled c K (r_World (st\<lparr>r_World := w1\<rparr>)) d"
    using assms(7) steps(1) unfolding settled_def present_def by simp
  from M(6) [OF this] have same: "K (r_World st1) = K w1" and no: "r1 \<noteq> Inr True" by auto
  have "st' = st1"
  proof (cases r1)
    case (Inr d)
    with no steps(5) m have "finish c req f False st1 = (r, st')" by (simp add: bind_op_def)
    then show ?thesis by (simp add: finish_def)
  qed (use steps(5) m in \<open>simp add: bind_op_def\<close>)
  with same M(2) steps(1,2) show ?thesis by simp
qed simp

text \<open>\<open>meta.SetStatusCondition\<close>: the list has the condition, and is as before unless it says changed.\<close>

definition lawful_conditions :: "'w kube_client \<Rightarrow> bool" where
  "lawful_conditions c \<longleftrightarrow> (\<forall>cond cs cs' changed. kc_SetCondition c cond cs = (cs', changed) \<longrightarrow>
     cond \<in> set cs' \<and> (\<not> changed \<longrightarrow> cs' = cs))"

end
