(* ===== verification/Kube_Store.thy ===== *)
theory Kube_Store
  imports Reconciler_Runs
begin

text \<open>
  A cluster that behaves as documented: lists of objects and flows with the Kubernetes API on them,
  and a GitHub whose calls succeed. It satisfies the laws that the theorems on the
  reconciler rest on, and is the cluster of their witnesses.
\<close>

record cluster =
  cl_Objects :: "kobject list"
  cl_Flows :: "flow list"

definition store_objects :: "cluster objects" where
  "store_objects w k = find (\<lambda>ob. key_of ob = k) (cl_Objects w)"

definition store_flows :: "cluster flows" where
  "store_flows w k = find (\<lambda>f. flow_key f = k) (cl_Flows w)"

definition store_create :: "kobject \<Rightarrow> cluster \<Rightarrow> (go_error + unit) \<times> cluster" where
  "store_create ob w =
     (if store_objects w (key_of ob) = None then (Inr (), w\<lparr>cl_Objects := ob # cl_Objects w\<rparr>)
      else (Inl (LibError ''already exists''), w))"

definition store_update :: "kobject \<Rightarrow> cluster \<Rightarrow> (go_error + unit) \<times> cluster" where
  "store_update ob w =
     (if store_objects w (key_of ob) = None then (Inl (LibError ''not found''), w)
      else (Inr (), w\<lparr>cl_Objects := ob # cl_Objects w\<rparr>))"

definition store_delete :: "kobject \<Rightarrow> cluster \<Rightarrow> (go_error + unit) \<times> cluster" where
  "store_delete ob w = (Inr (), w\<lparr>cl_Objects := filter (\<lambda>o1. key_of o1 \<noteq> key_of ob) (cl_Objects w)\<rparr>)"

definition store_status :: "flow \<Rightarrow> cluster \<Rightarrow> (go_error + unit) \<times> cluster" where
  "store_status f w =
     (case store_flows w (flow_key f) of
        None \<Rightarrow> (Inl (LibError ''not found''), w)
      | Some g \<Rightarrow> (Inr (), w\<lparr>cl_Flows := g\<lparr>Conditions := Conditions f\<rparr> # cl_Flows w\<rparr>))"

definition store_owner :: "flow \<Rightarrow> kobject \<Rightarrow> go_error + kobject" where
  "store_owner f ob =
     (if obj_Namespace ob = flow_Namespace f then Inr (ob\<lparr>obj_Owner := Some (flow_Name f)\<rparr>)
      else Inl (LibError ''cross-namespace owner references are disallowed''))"

definition store_condition :: "condition \<Rightarrow> condition list \<Rightarrow> condition list \<times> bool" where
  "store_condition cond cs =
     (if cond \<in> set cs then (cs, False)
      else (cond # filter (\<lambda>x. cond_Type x \<noteq> cond_Type cond) cs, True))"

definition store_kube :: "cluster kube_client" where
  "store_kube =
     \<lparr>kc_GetFlow = (\<lambda>k w. (Inr (store_flows w k), w)), kc_UpdateStatus = store_status,
      kc_Get = (\<lambda>k w. (Inr (store_objects w k), w)), kc_Create = store_create,
      kc_Update = store_update, kc_Delete = store_delete, kc_SetOwner = store_owner,
      kc_SetCondition = store_condition, kc_Derivative = (=)\<rparr>"

definition bare_repo :: repo_settings where
  "bare_repo =
     \<lparr>AllowMergeCommit = None, AllowSquashMerge = None, AllowRebaseMerge = None,
      AllowUpdateBranch = None, AllowAutoMerge = None, DeleteBranchOnMerge = None, repo_Rest = JNull\<rparr>"

definition calm_github :: "cluster github_client" where
  "calm_github =
     \<lparr>gh_FindInstallation = (\<lambda>org n w. (Inr (Some 1), w)),
      gh_GetRepo = (\<lambda>i org n w. (Inr bare_repo, w)),
      gh_EditRepo = (\<lambda>i org n s w. (Inr (), w)),
      gh_GetAllRulesets = (\<lambda>i org n w. (Inr [], w)),
      gh_GetRuleset = (\<lambda>i org n rid w. (Inr jettisonRuleset, w)),
      gh_CreateRuleset = (\<lambda>i org n x w. (Inr (), w)),
      gh_UpdateRuleset = (\<lambda>i org n rid x w. (Inr (), w))\<rparr>"

lemma store_lookup:
  "store_objects (w\<lparr>cl_Objects := ob # cl_Objects w\<rparr>) = (store_objects w)(key_of ob \<mapsto> ob)"
  "store_objects (w\<lparr>cl_Flows := fs\<rparr>) = store_objects w"
  "store_flows (w\<lparr>cl_Flows := f # cl_Flows w\<rparr>) = (store_flows w)(flow_key f \<mapsto> f)"
  "store_flows (w\<lparr>cl_Objects := obs\<rparr>) = store_flows w"
  by (auto simp: store_objects_def store_flows_def fun_eq_iff)

lemma store_removed:
  "store_objects (w\<lparr>cl_Objects := filter (\<lambda>o1. key_of o1 \<noteq> k) (cl_Objects w)\<rparr>) = (store_objects w)(k := None)"
proof -
  have "find (\<lambda>ob. key_of ob = k') (filter (\<lambda>o1. key_of o1 \<noteq> k) obs)
      = (if k' = k then None else find (\<lambda>ob. key_of ob = k') obs)" for k' obs
    by (induction obs) auto
  then show ?thesis by (auto simp: store_objects_def fun_eq_iff)
qed

lemma in_sync_refl: "in_sync store_kube s s"
  by (cases s) (auto simp: store_kube_def)

lemma store_lawful_objects: "lawful_objects store_kube store_objects store_flows"
proof -
  have found: "store_objects w k = Some ob \<Longrightarrow> key_of ob = k" for w k ob
    by (auto simp: store_objects_def find_Some_iff)
  have owned: "key_of (ob\<lparr>obj_Owner := ow\<rparr>) = key_of ob" for ob ow
    by (simp add: key_of_def)
  have refl: "in_sync store_kube (obj_Spec ob) (obj_Spec ob)" for ob by (rule in_sync_refl)
  have stored: "stored store_kube store_objects ob w (w\<lparr>cl_Objects := ob # cl_Objects w\<rparr>)" for ob w
    unfolding stored_def using refl [of ob] by (intro exI [of _ ob]) (simp add: store_lookup)
  have "kc_Create store_kube = store_create" "kc_Update store_kube = store_update"
    "kc_Delete store_kube = store_delete" "kc_SetOwner store_kube = store_owner"
    "kc_Get store_kube = (\<lambda>k w. (Inr (store_objects w k), w))"
    by (simp_all add: store_kube_def)
  note calls = this
  show ?thesis
    unfolding lawful_objects_def calls
    by (intro conjI allI impI)
       (use stored found in \<open>auto simp: owned store_create_def store_update_def store_delete_def store_owner_def
         store_lookup store_removed split: if_splits\<close>)
qed

lemma store_lawful_flows: "lawful_flows store_kube store_objects store_flows"
proof -
  have key: "flow_key (f\<lparr>Conditions := cs\<rparr>) = flow_key f" for f cs by (simp add: flow_key_def)
  have found: "store_flows w k = Some f \<Longrightarrow> flow_key f = k" for w k f
    by (auto simp: store_flows_def find_Some_iff)
  show ?thesis
    unfolding lawful_flows_def
    by (auto simp: store_kube_def store_status_def store_lookup key found split: option.splits)
qed

lemma calm_github_apart: "github_apart calm_github store_objects store_flows"
  by (simp add: github_apart_def same_cluster_def calm_github_def)

lemma store_lawful_conditions: "lawful_conditions store_kube"
  by (auto simp: lawful_conditions_def store_kube_def store_condition_def)

lemma calm_github_answers: "answering calm_github"
  by (simp add: answering_def calm_github_def)

definition fresh_state :: "kobject list \<Rightarrow> flow list \<Rightarrow> cluster rstate" where
  "fresh_state obs fs =
     \<lparr>r_World = \<lparr>cl_Objects = obs, cl_Flows = fs\<rparr>, SyncedNamespaces = {}, SyncedProjects = {},
      SyncedRepos = (\<lambda>_. None)\<rparr>"

lemma fresh_truthful: "truthful c K (fresh_state obs fs)"
  by (simp add: truthful_def claimed_def fresh_state_def repo_synced_def)

end
