(* ===== verification/Reconciler_Progress.thy ===== *)
theory Reconciler_Progress
  imports Reconciler_Runs
begin

text \<open>
  Progress of the reconciler: when the API answers, and accepts what it is documented to accept, every
  step of a reconciliation succeeds, so that a run reaches its end.
\<close>

section \<open>An API that answers\<close>

text \<open>
  What an update may change: the role of a binding is immutable, and so is most of a volume claim,
  of which the API may refuse even the new size. So no update of a claim is expected to be accepted.
\<close>

definition updatable :: "kobject \<Rightarrow> kobject \<Rightarrow> bool" where
  "updatable e ob \<longleftrightarrow>
     kind_of (obj_Spec ob) \<noteq> PVCKind \<and> role_ref_of (obj_Spec ob) = role_ref_of (obj_Spec e)"

text \<open>
  The calls of the client answer, and accept what they are documented to accept: the creation of an
  object that does not exist, an update that keeps the immutable parts, the deletion of an object that
  exists, the status of a flow that exists, and an owner for an object of the owner's namespace that
  has none.
\<close>

definition responsive :: "'w kube_client \<Rightarrow> 'w objects \<Rightarrow> 'w flows \<Rightarrow> bool" where
  "responsive c K F \<longleftrightarrow>
     (\<forall>k w. \<exists>w'. kc_Get c k w = (Inr (K w k), w'))
     \<and> (\<forall>k w. \<exists>w'. kc_GetFlow c k w = (Inr (F w k), w'))
     \<and> (\<forall>ob w. K w (key_of ob) = None \<longrightarrow> (\<exists>w'. kc_Create c ob w = (Inr (), w')))
     \<and> (\<forall>ob w e. K w (key_of ob) = Some e \<longrightarrow> updatable e ob \<longrightarrow> (\<exists>w'. kc_Update c ob w = (Inr (), w')))
     \<and> (\<forall>ob w. K w (key_of ob) \<noteq> None \<longrightarrow> (\<exists>w'. kc_Delete c ob w = (Inr (), w')))
     \<and> (\<forall>f w. F w (flow_key f) \<noteq> None \<longrightarrow> (\<exists>w'. kc_UpdateStatus c f w = (Inr (), w')))
     \<and> (\<forall>f ob. obj_Namespace ob = flow_Namespace f \<longrightarrow> obj_Owner ob = None \<longrightarrow>
          (\<exists>ob'. kc_SetOwner c f ob = Inr ob'))"

lemma responsiveD:
  assumes "responsive c K F"
  shows "\<exists>w'. kc_Get c k w = (Inr (K w k), w')"
    and "\<exists>w'. kc_GetFlow c req w = (Inr (F w req), w')"
    and "K w (key_of ob) = None \<Longrightarrow> \<exists>w'. kc_Create c ob w = (Inr (), w')"
    and "K w (key_of ob) = Some e \<Longrightarrow> updatable e ob \<Longrightarrow> \<exists>w'. kc_Update c ob w = (Inr (), w')"
    and "K w (key_of ob) \<noteq> None \<Longrightarrow> \<exists>w'. kc_Delete c ob w = (Inr (), w')"
    and "F w (flow_key f) \<noteq> None \<Longrightarrow> \<exists>w'. kc_UpdateStatus c f w = (Inr (), w')"
    and "obj_Namespace ob = flow_Namespace f \<Longrightarrow> obj_Owner ob = None \<Longrightarrow> \<exists>ob'. kc_SetOwner c f ob = Inr ob'"
  using assms unfolding responsive_def by (elim conjE, blast)+

text \<open>The volume claim of a namespace does not have to be resized.\<close>

definition claim_sized :: "'w kube_client \<Rightarrow> 'w objects \<Rightarrow> string \<Rightarrow> 'w \<Rightarrow> bool" where
  "claim_sized c K ns w \<longleftrightarrow> K w (key_of (pvc_object ns)) = None \<or> present c K w (pvc_object ns)"

text \<open>A step that succeeds from every state.\<close>

definition succeeds_at :: "('s, 'a) op \<Rightarrow> 's \<Rightarrow> bool" where
  "succeeds_at m st \<longleftrightarrow> (\<exists>x st'. m st = (Inr x, st'))"

lemma succeeds_bind:
  "succeeds_at m st \<Longrightarrow> (\<And>x st'. m st = (Inr x, st') \<Longrightarrow> succeeds_at (f x) st') \<Longrightarrow> succeeds_at (bind_op m f) st"
  unfolding succeeds_at_def bind_op_def by fastforce

lemma succeeds_return: "succeeds_at (return x) st"
  by (simp add: succeeds_at_def)

lemma kget_result:
  assumes "lawful_objects c K F" and "kget c k st = (Inr x, st')"
  shows "x = K (r_World st) k" and "K (r_World st') = K (r_World st)"
proof -
  from assms(2) obtain w' where g: "kc_Get c k (r_World st) = (Inr x, w')" "st' = st\<lparr>r_World := w'\<rparr>"
    by (auto simp: kget_def)
  from lawful_Get [OF assms(1) g(1)] g(2) show "x = K (r_World st) k" "K (r_World st') = K (r_World st)"
    by simp_all
qed

lemma succeeds_calls:
  assumes R: "responsive c K F"
  shows "succeeds_at (kget c k) st"
    and "K (r_World st) (key_of ob) = None \<Longrightarrow> succeeds_at (bind_op (kcreate c ob) (\<lambda>_. return True)) st"
    and "K (r_World st) (key_of ob) = Some e \<Longrightarrow> updatable e ob \<Longrightarrow>
      succeeds_at (bind_op (kupdate c ob) (\<lambda>_. return True)) st"
    and "K (r_World st) (key_of ob) \<noteq> None \<Longrightarrow> succeeds_at (kdelete c ob) st"
proof -
  have world: "\<exists>x w'. m (r_World st) = (Inr x, w') \<Longrightarrow> succeeds_at (on_world (call m)) st" for m
    by (auto simp: succeeds_at_def)
  show "succeeds_at (kget c k) st"
    unfolding kget_def using responsiveD(1) [OF R] by (intro world) blast
  show "K (r_World st) (key_of ob) = None \<Longrightarrow> succeeds_at (bind_op (kcreate c ob) (\<lambda>_. return True)) st"
    unfolding kcreate_def using responsiveD(3) [OF R] by (intro succeeds_bind succeeds_return world) blast
  show "K (r_World st) (key_of ob) = Some e \<Longrightarrow> updatable e ob \<Longrightarrow>
      succeeds_at (bind_op (kupdate c ob) (\<lambda>_. return True)) st"
    unfolding kupdate_def using responsiveD(4) [OF R] by (intro succeeds_bind succeeds_return world) blast
  show "K (r_World st) (key_of ob) \<noteq> None \<Longrightarrow> succeeds_at (kdelete c ob) st"
    unfolding kdelete_def using responsiveD(5) [OF R] by (intro world) blast
qed

lemma role_ref_of_kind: "kind_of s \<noteq> RoleBindingKind \<Longrightarrow> role_ref_of s = None"
  by (cases s) simp_all

text \<open>An object of another kind than these two is updated in place.\<close>

lemma updatable_spec:
  "kind_of (obj_Spec e) \<notin> {PVCKind, RoleBindingKind} \<Longrightarrow> kind_of s = kind_of (obj_Spec e)
     \<Longrightarrow> updatable e (e\<lparr>obj_Spec := s\<rparr>)"
  by (simp add: updatable_def role_ref_of_kind)

lemma succeeds_ensure:
  assumes L: "lawful_objects c K F" and R: "responsive c K F" and rep: "repairs c d drifted revised"
    and kind: "fst (key_of d) \<notin> {PVCKind, RoleBindingKind}"
  shows "succeeds_at (ensure c d drifted revised) st"
  unfolding ensure_def
proof (rule succeeds_bind [OF succeeds_calls(1) [OF R]])
  fix x st' assume g: "kget c (key_of d) st = (Inr x, st')"
  note G = kget_result [OF L g]
  show "succeeds_at (case x of None \<Rightarrow> bind_op (kcreate c d) (\<lambda>_. return True)
       | Some ob \<Rightarrow> if drifted (obj_Spec ob) then
             bind_op (kupdate c (ob\<lparr>obj_Spec := revised (obj_Spec ob)\<rparr>)) (\<lambda>_. return True)
           else return False) st'"
  proof (cases x)
    case None
    with G succeeds_calls(2) [OF R, of st' d] show ?thesis by simp
  next
    case (Some ob)
    with G have ob: "K (r_World st) (key_of d) = Some ob" by simp
    from lawful_key [OF L this] have key: "key_of ob = key_of d" .
    then have same: "kind_of (obj_Spec ob) = kind_of (obj_Spec d)" by (simp add: key_of_def)
    with rep have rev: "kind_of (revised (obj_Spec ob)) = kind_of (obj_Spec ob)"
      unfolding repairs_def by simp
    with key have "key_of (ob\<lparr>obj_Spec := revised (obj_Spec ob)\<rparr>) = key_of d" by (simp add: key_of_def)
    moreover have "updatable ob (ob\<lparr>obj_Spec := revised (obj_Spec ob)\<rparr>)"
      using kind same rev by (intro updatable_spec) (simp_all add: key_of_def)
    ultimately show ?thesis
      using succeeds_calls(3) [OF R, of st' "ob\<lparr>obj_Spec := revised (obj_Spec ob)\<rparr>" ob] G ob Some
      by (simp add: succeeds_return)
  qed
qed

lemma succeeds_role_binding:
  assumes L: "lawful_objects c K F" and R: "responsive c K F"
  shows "succeeds_at (sync_role_binding c ns) st"
  unfolding sync_role_binding_def Let_def
proof (rule succeeds_bind [OF succeeds_calls(1) [OF R]])
  let ?d = "role_binding_object ns" let ?subs = "subjects_of (obj_Spec ?d)"
  fix x st' assume g: "kget c (key_of ?d) st = (Inr x, st')"
  note G = kget_result [OF L g]
  show "succeeds_at (case x of None \<Rightarrow> bind_op (kcreate c ?d) (\<lambda>_. return True)
      | Some ob \<Rightarrow>
          if role_ref_of (obj_Spec ob) \<noteq> role_ref_of (obj_Spec ?d)
          then bind_op (kdelete c ob) (\<lambda>_. bind_op (kcreate c ?d) (\<lambda>_. return True))
          else if \<not> kc_Derivative c (CSubjects ?subs) (CSubjects (subjects_of (obj_Spec ob)))
          then bind_op (kupdate c (ob\<lparr>obj_Spec := set_subjects ?subs (obj_Spec ob)\<rparr>)) (\<lambda>_. return True)
          else return False) st'"
  proof (cases x)
    case None
    with G succeeds_calls(2) [OF R, of st' ?d] show ?thesis by simp
  next
    case (Some ob)
    with G have ob: "K (r_World st') (key_of ?d) = Some ob" by simp
    from lawful_key [OF L this] have key: "key_of ob = key_of ?d" .
    then obtain b where "obj_Spec ob = RoleBindingSpec b" by (cases "obj_Spec ob") (simp_all add: key_of_def)
    with key have "key_of (ob\<lparr>obj_Spec := set_subjects ?subs (obj_Spec ob)\<rparr>) = key_of ?d"
      by (simp add: key_of_def)
    moreover have "updatable ob (ob\<lparr>obj_Spec := set_subjects ?subs (obj_Spec ob)\<rparr>)"
      using \<open>obj_Spec ob = RoleBindingSpec b\<close> by (simp add: updatable_def)
    ultimately have upd: "succeeds_at (bind_op (kupdate c (ob\<lparr>obj_Spec := set_subjects ?subs (obj_Spec ob)\<rparr>)) (\<lambda>_. return True)) st'"
      using succeeds_calls(3) [OF R, of st' "ob\<lparr>obj_Spec := set_subjects ?subs (obj_Spec ob)\<rparr>" ob] ob
      by simp
    have "succeeds_at (bind_op (kdelete c ob) (\<lambda>_. bind_op (kcreate c ?d) (\<lambda>_. return True))) st'"
    proof (rule succeeds_bind)
      show "succeeds_at (kdelete c ob) st'" using succeeds_calls(4) [OF R] ob key by simp
      fix y st2 assume "kdelete c ob st' = (Inr y, st2)"
      then obtain w2 where "kc_Delete c ob (r_World st') = (Inr y, w2)" "st2 = st'\<lparr>r_World := w2\<rparr>"
        by (auto simp: kdelete_def)
      with lawful_Delete(2) [OF L this(1)] key have "K (r_World st2) (key_of ?d) = None" by auto
      with succeeds_calls(2) [OF R] show "succeeds_at (bind_op (kcreate c ?d) (\<lambda>_. return True)) st2" by blast
    qed
    with upd Some show ?thesis by (simp add: succeeds_return)
  qed
qed

text \<open>The claim is created, or left as it is.\<close>

lemma succeeds_pvc:
  assumes L: "lawful_objects c K F" and R: "responsive c K F" and size: "claim_sized c K ns (r_World st)"
  shows "succeeds_at (sync_pvc c ns) st"
  unfolding sync_pvc_def Let_def ensure_def
proof (rule succeeds_bind [OF succeeds_calls(1) [OF R]])
  let ?d = "pvc_object ns" let ?q = "requests_of (obj_Spec (pvc_object ns))"
  fix x st' assume g: "kget c (key_of ?d) st = (Inr x, st')"
  note G = kget_result [OF L g]
  show "succeeds_at (case x of None \<Rightarrow> bind_op (kcreate c ?d) (\<lambda>_. return True)
       | Some ob \<Rightarrow> if \<not> kc_Derivative c (CRequests ?q) (CRequests (requests_of (obj_Spec ob))) then
             bind_op (kupdate c (ob\<lparr>obj_Spec := set_requests ?q (obj_Spec ob)\<rparr>)) (\<lambda>_. return True)
           else return False) st'"
  proof (cases x)
    case None
    with G succeeds_calls(2) [OF R, of st' ?d] show ?thesis by simp
  next
    case (Some ob)
    with G size have "kc_Derivative c (CRequests ?q) (CRequests (requests_of (obj_Spec ob)))"
      by (auto simp: claim_sized_def present_def)
    with Some show ?thesis by (simp add: succeeds_return)
  qed
qed

lemma succeeds_namespace:
  assumes L: "lawful_objects c K F" and R: "responsive c K F" and t: "truthful c K st"
    and size: "claim_sized c K ns (r_World st)"
  shows "succeeds_at (sync_namespace c ns) st"
proof -
  note rep = succeeds_ensure [OF L R]
  have s1: "succeeds_at (sync_event_bus c ns) s" for s
    unfolding sync_event_bus_def by (rule rep [OF whole_spec_repairs]) simp_all
  have s3: "succeeds_at (sync_service_account c ns) s" for s
    unfolding sync_service_account_def by (rule rep [OF service_account_repairs]) simp
  have s4: "succeeds_at (sync_role c ns) s" for s
    unfolding sync_role_def Let_def by (rule rep [OF role_repairs]) simp
  note s5 = succeeds_role_binding [OF L R]
  have s2: "succeeds_at (sync_pvc c ns) st1" if run: "sync_event_bus c ns st = (Inr d, st1)" for d st1
  proof (rule succeeds_pvc [OF L R])
    have "K (r_World st1) (key_of (pvc_object ns)) = K (r_World st) (key_of (pvc_object ns))"
      by (rule syncsD(3) [OF syncs_event_bus [OF L] run t]) simp
    with size show "claim_sized c K ns (r_World st1)" by (simp add: claim_sized_def present_def)
  qed
  have "succeeds_at (sync_namespace_objects c ns) st"
    unfolding sync_namespace_objects_def
    by (rule succeeds_bind [OF s1]) (intro succeeds_bind [OF s2] succeeds_bind s3 s4 s5 succeeds_return)
  then have "succeeds_at (bind_op (sync_namespace_objects c ns) (\<lambda>d.
           bind_op (modify (SyncedNamespaces_update (insert ns))) (\<lambda>_. return d))) st"
    by (intro succeeds_bind) (auto simp: succeeds_at_def)
  then show ?thesis by (simp add: succeeds_at_def sync_namespace_def ex_bool_eq)
qed

lemma succeeds_project:
  assumes L: "lawful_objects c K F" and R: "responsive c K F"
  shows "succeeds_at (sync_project c p) st"
proof -
  have "succeeds_at (ensure c (project_object p) (spec_drifted c (project_object p)) (whole_spec (project_object p))) st"
    by (rule succeeds_ensure [OF L R whole_spec_repairs]) simp_all
  then have "succeeds_at (bind_op (ensure c (project_object p) (spec_drifted c (project_object p))
      (whole_spec (project_object p))) (\<lambda>d. bind_op (modify (SyncedProjects_update (insert (obj_Name p)))) (\<lambda>_. return d))) st"
    by (intro succeeds_bind) (auto simp: succeeds_at_def)
  then show ?thesis by (simp add: succeeds_at_def sync_project_def ex_bool_eq)
qed

lemma succeeds_each: "(\<And>x st. x \<in> set xs \<Longrightarrow> succeeds_at (f x) st) \<Longrightarrow> succeeds_at (sync_each f xs) st"
  by (induction xs arbitrary: st) (auto intro!: succeeds_bind succeeds_return)

lemma succeeds_owned:
  assumes L: "lawful_objects c K F" and R: "responsive c K F"
    and ns: "obj_Namespace d = flow_Namespace f" and new: "obj_Owner d = None"
    and kind: "fst (key_of d) \<in> {ApplicationKind, SensorKind}" and k: "k = key_of d"
  shows "succeeds_at (bind_op (kget c k) (\<lambda>existing. bind_op (set_owner c f d) (create_or_update c existing))) st"
proof (rule succeeds_bind [OF succeeds_calls(1) [OF R]])
  fix x st' assume g: "kget c k st = (Inr x, st')"
  note G = kget_result [OF L g]
  from responsiveD(7) [OF R ns new] obtain ob where ob: "kc_SetOwner c f d = Inr ob" by blast
  note owned = lawful_SetOwner [OF L ob]
  have "succeeds_at (create_or_update c x ob) st'"
  proof (cases x)
    case None
    with G succeeds_calls(2) [OF R, of st' ob] owned k show ?thesis by (simp add: create_or_update_def)
  next
    case (Some e)
    with G have e: "K (r_World st') (key_of d) = Some e" by (simp add: k)
    from lawful_key [OF L this] have key: "key_of (e\<lparr>obj_Spec := whole_spec ob (obj_Spec e)\<rparr>) = key_of d"
      and same: "kind_of (obj_Spec e) = kind_of (obj_Spec d)"
      using owned by (simp_all add: key_of_def whole_spec_def)
    have "updatable e (e\<lparr>obj_Spec := whole_spec ob (obj_Spec e)\<rparr>)"
      using kind same owned by (intro updatable_spec) (auto simp: key_of_def whole_spec_def)
    with key succeeds_calls(3) [OF R, of st' "e\<lparr>obj_Spec := whole_spec ob (obj_Spec e)\<rparr>" e] e Some
    show ?thesis by (simp add: create_or_update_def succeeds_return)
  qed
  with ob show "succeeds_at (bind_op (set_owner c f d) (create_or_update c x)) st'"
    by (simp add: succeeds_at_def set_owner_def)
qed

text \<open>The event source of the cluster can be merged into when its section map is not nil.\<close>

definition event_source_key :: key where
  "event_source_key = (EventSourceKind, eventSourceNamespace, eventSourceName)"

definition mergeable :: "kobject option \<Rightarrow> bool" where
  "mergeable e \<longleftrightarrow> (\<forall>ob. e = Some ob \<longrightarrow> ess_Github (event_source_of (obj_Spec ob)) \<noteq> None)"

lemma mergeOwnedRepos_total: "ess_Github spec = Some m \<Longrightarrow> \<exists>x. mergeOwnedRepos spec org n = Inr x"
  by (cases "merge_owned org n (section_repos spec)") (auto simp: mergeOwnedRepos_eq)

lemma succeeds_event_source:
  assumes L: "lawful_objects c K F" and R: "responsive c K F"
    and e: "mergeable (K (r_World st) event_source_key)"
  shows "succeeds_at (sync_event_source c org n) st"
  unfolding sync_event_source_def
proof (rule succeeds_bind [OF succeeds_calls(1) [OF R]])
  let ?d = "event_source_object org n"
  fix x st' assume g: "kget c (key_of ?d) st = (Inr x, st')"
  note G = kget_result [OF L g]
  show "succeeds_at (case x of None \<Rightarrow> bind_op (kcreate c ?d) (\<lambda>_. return True)
       | Some ob \<Rightarrow> bind_op (pure_res (mergeOwnedRepos (event_source_of (obj_Spec ob)) org n))
             (\<lambda>(merged, needsUpdate). if needsUpdate then
                 bind_op (kupdate c (ob\<lparr>obj_Spec := EventSourceSpec merged\<rparr>)) (\<lambda>_. return True)
               else return False)) st'"
  proof (cases x)
    case None
    with G succeeds_calls(2) [OF R, of st' ?d] show ?thesis by simp
  next
    case (Some ob)
    with G have ob: "K (r_World st') event_source_key = Some ob" by (simp add: event_source_key_def)
    with e G(2) obtain m where "ess_Github (event_source_of (obj_Spec ob)) = Some m" by (auto simp: mergeable_def)
    from mergeOwnedRepos_total [OF this] obtain merged needs where
      m: "mergeOwnedRepos (event_source_of (obj_Spec ob)) org n = Inr (merged, needs)" by (metis surj_pair)
    from lawful_key [OF L ob] have "key_of (ob\<lparr>obj_Spec := EventSourceSpec merged\<rparr>) = event_source_key"
      by (simp add: key_of_def event_source_key_def)
    moreover have "updatable ob (ob\<lparr>obj_Spec := EventSourceSpec merged\<rparr>)"
      using lawful_key [OF L ob] by (intro updatable_spec) (auto simp: key_of_def event_source_key_def)
    ultimately have "succeeds_at (bind_op (kupdate c (ob\<lparr>obj_Spec := EventSourceSpec merged\<rparr>)) (\<lambda>_. return True)) st'"
      using succeeds_calls(3) [OF R, of st' "ob\<lparr>obj_Spec := EventSourceSpec merged\<rparr>" ob] ob by simp
    then have "succeeds_at (if needs then bind_op (kupdate c (ob\<lparr>obj_Spec := EventSourceSpec merged\<rparr>)) (\<lambda>_. return True)
               else return False) st'" by (simp add: succeeds_return)
    with Some m show ?thesis by (simp add: succeeds_at_def)
  qed
qed

lemma succeeds_trigger_repo:
  assumes L: "lawful_objects c K F" and R: "responsive c K F" and G: "answering gh"
    and e: "mergeable (K (r_World st) event_source_key)"
  shows "succeeds_at (sync_trigger_repo c gh (org, n)) st"
proof -
  have gh: "succeeds_at (on_world (SyncGitHubSettingsForRepo gh org n)) s" for s
    using SyncGitHubSettings_total [OF G, of org n "r_World s"] by (auto simp: succeeds_at_def)
  have "succeeds_at (bind_op (sync_event_source c org n) (\<lambda>d.
            bind_op (on_world (SyncGitHubSettingsForRepo gh org n)) (\<lambda>_.
            bind_op (modify (SyncedRepos_update (mark_repo org n))) (\<lambda>_. return d)))) st"
    by (intro succeeds_bind succeeds_event_source [OF L R e] gh) (auto simp: succeeds_at_def)
  then show ?thesis by (simp add: succeeds_at_def sync_trigger_repo_def ex_bool_eq)
qed

lemma succeeds_finish:
  assumes L: "lawful_flows c K F" and R: "responsive c K F"
    and f: "F (r_World st) (flow_key f) = Some g" and req: "flow_key f = req"
  shows "succeeds_at (finish c req f d) st"
proof -
  obtain cs changed where sc: "kc_SetCondition c synced_condition (Conditions f) = (cs, changed)" by fastforce
  let ?f = "f\<lparr>Conditions := cs\<rparr>"
  have key: "flow_key ?f = req" using req by (simp add: flow_key_def)
  with f req responsiveD(6) [OF R, of "r_World st" ?f] obtain w1 where
    u: "kc_UpdateStatus c ?f (r_World st) = (Inr (), w1)" by auto
  from lawful_UpdateStatus(3) [OF L u] f req key obtain g' where g': "F w1 req = Some g'" by auto
  from responsiveD(2) [OF R] obtain w2 where "kc_GetFlow c req w1 = (Inr (F w1 req), w2)" by blast
  with u g' sc show ?thesis
    by (cases d; cases changed) (simp_all add: succeeds_at_def finish_def setCondition_def)
qed

section \<open>A run reaches its end\<close>

text \<open>The objects of a flow other than its event source leave the event source as it is.\<close>

definition steady :: "'w kube_client \<Rightarrow> 'w objects \<Rightarrow> 'w flows \<Rightarrow> 'w rstate \<Rightarrow> 'w rstate \<Rightarrow> bool" where
  "steady c K F st0 st \<longleftrightarrow> truthful c K st \<and> F (r_World st) = F (r_World st0)
     \<and> K (r_World st) event_source_key = K (r_World st0) event_source_key"

lemma syncs_steady:
  assumes "syncs c K F ds b m" and "event_source_key \<notin> key_of ` ds"
  shows "keeps (steady c K F st0) m"
  unfolding keeps_def steady_def
proof (intro allI impI)
  fix s r s'
  assume run: "m s = (r, s')" and s: "truthful c K s \<and> F (r_World s) = F (r_World st0)
     \<and> K (r_World s) event_source_key = K (r_World st0) event_source_key"
  note M = syncsD [OF assms(1) run conjunct1 [OF s]]
  show "truthful c K s' \<and> F (r_World s') = F (r_World st0)
     \<and> K (r_World s') event_source_key = K (r_World st0) event_source_key"
    using M(1,2) M(3) [OF assms(2)] s by simp
qed

lemma succeeds_bind_keeps:
  assumes "keeps P m" and "P st" and "succeeds_at m st" and "\<And>x st'. P st' \<Longrightarrow> succeeds_at (f x) st'"
  shows "succeeds_at (bind_op m f) st"
  using assms(3) by (rule succeeds_bind) (use assms(1,2,4) in \<open>auto dest: keepsD\<close>)

lemma built_no_owner:
  "BuildArgoApps ss = Inr (ps, as) \<Longrightarrow> a \<in> set as \<Longrightarrow> obj_Owner a = None"
  "BuildSensor marshal f ts ss = Inr sensor \<Longrightarrow> obj_Owner sensor = None"
  by (auto simp: BuildArgoApps_eq application_list_def BuildSensor_def)

lemma succeeds_sync_flow:
  assumes L: "lawful_objects c K F" and R: "responsive c K F" and G: "answering gh" and t: "truthful c K st"
    and size: "claim_sized c K (flow_Namespace f) (r_World st)"
    and e: "mergeable (K (r_World st) event_source_key)"
    and apps: "BuildArgoApps ss = Inr (ps, as)"
    and own: "\<And>a. a \<in> set as \<Longrightarrow> obj_Namespace a = flow_Namespace f"
    and sensor: "key_of (sensor_object sensor) = (SensorKind, req)" "obj_Namespace sensor = flow_Namespace f"
      "obj_Owner sensor = None"
  shows "succeeds_at (sync_flow c gh req f ps as sensor repo) st"
proof -
  obtain org n where repo: "repo = (org, n)" by fastforce
  have P: "steady c K F st st" using t by (simp add: steady_def)
  have k1: "keeps (steady c K F st) (sync_namespace c (flow_Namespace f))"
    by (rule syncs_steady [OF syncs_namespace [OF L]]) (auto simp: namespace_objects_def event_source_key_def)
  have k2: "keeps (steady c K F st) (sync_each (sync_project c) ps)"
    by (rule syncs_steady [OF syncs_projects [OF L apps]]) (auto simp: event_source_key_def)
  have k3: "keeps (steady c K F st) (sync_each (sync_application c f) as)"
    by (rule syncs_steady [OF syncs_applications [OF L apps]]) (auto simp: event_source_key_def)
  have k4: "keeps (steady c K F st) (bind_op (kget c (SensorKind, req)) (\<lambda>existing.
       bind_op (set_owner c f (sensor_object sensor)) (create_or_update c existing)))"
    by (rule syncs_steady [OF syncs_owned [OF L _ sensor(1) [symmetric]]]) (simp_all add: event_source_key_def)
  have s2: "succeeds_at (sync_each (sync_project c) ps) s" for s
    by (intro succeeds_each succeeds_project [OF L R])
  have s3: "succeeds_at (sync_each (sync_application c f) as) s" for s
    unfolding sync_application_def
    by (intro succeeds_each succeeds_owned [OF L R])
       (simp, simp_all add: application_object_def own built_no_owner(1) [OF apps] key_of_def)
  have s4: "succeeds_at (bind_op (kget c (SensorKind, req)) (\<lambda>existing.
       bind_op (set_owner c f (sensor_object sensor)) (create_or_update c existing))) s" for s
    using sensor by (intro succeeds_owned [OF L R]) (simp_all add: sensor_object_def)
  have s5: "succeeds_at (sync_trigger_repo c gh repo) s" if "steady c K F st s" for s
    unfolding repo using that e by (intro succeeds_trigger_repo [OF L R G]) (simp add: steady_def)
  show ?thesis
    unfolding sync_flow_def
    by (intro succeeds_bind_keeps [OF k1 P succeeds_namespace [OF L R t size]] succeeds_bind_keeps [OF k2 _ s2]
        succeeds_bind_keeps [OF k3 _ s3] succeeds_bind_keeps [OF k4 _ s4] succeeds_bind [OF s5] succeeds_return)
qed

lemma Reconcile_succeeds:
  assumes L: "lawful_objects c K F" "lawful_flows c K F" "github_apart gh K F" and R: "responsive c K F"
    and G: "answering gh" and t: "truthful c K st" and e: "mergeable (K (r_World st) event_source_key)"
    and size: "claim_sized c K (flow_Namespace f0) (r_World st)"
    and f0: "F (r_World st) req = Some f0" and ds: "desired_objects marshal dv dm f0 = Some ds"
    and own: "\<And>d. d \<in> ds \<Longrightarrow> fst (key_of d) = ApplicationKind \<Longrightarrow> obj_Namespace d = flow_Namespace f0"
  shows "\<exists>st'. Reconcile c gh marshal dv dm req st = (Inr (), st')"
proof -
  from ds obtain f ts ss ps as sensor repo where b: "PreProcessFlow dv dm f0 = (f, Inr (ts, ss))"
      "BuildArgoApps ss = Inr (ps, as)" "BuildSensor marshal f ts ss = Inr sensor"
      "getTriggerRepoName (flow_Name f) ts = Inr repo" "ds = flow_objects f ps as sensor repo"
    by (auto simp: desired_objects_Some)
  from responsiveD(2) [OF R] f0 obtain w1 where g: "kc_GetFlow c req (r_World st) = (Inr (Some f0), w1)" by metis
  note W = lawful_GetFlow [OF L(2) g]
  let ?st = "st\<lparr>r_World := w1\<rparr>"
  have "flow_key f0 = req" using L(2) f0 unfolding lawful_flows_def by (elim conjE) metis
  with preprocess_key [OF b(1)] have req: "flow_key f = req" and ns: "flow_Namespace f = flow_Namespace f0"
    by (simp_all add: flow_key_def)
  have sensor: "key_of (sensor_object sensor) = (SensorKind, req)" "obj_Namespace sensor = flow_Namespace f"
      "obj_Owner sensor = None"
    using sensor_key [OF b(3)] req built_no_owner(2) [OF b(3)] by (simp_all add: flow_key_def)
  have apps: "obj_Namespace a = flow_Namespace f" if "a \<in> set as" for a
  proof -
    have "application_object a \<in> ds" using that by (simp add: b(5) flow_objects_def)
    from own [OF this] have "obj_Namespace (application_object a) = flow_Namespace f0" by simp
    with ns show ?thesis by (simp add: application_object_def)
  qed
  have t1: "truthful c K ?st" using t W(1) by (simp add: truthful_def present_def)
  have "succeeds_at (bind_op (sync_flow c gh req f ps as sensor repo) (finish c req f)) ?st"
  proof (rule succeeds_bind)
    show "succeeds_at (sync_flow c gh req f ps as sensor repo) ?st"
      by (rule succeeds_sync_flow [OF L(1) R G t1 _ _ b(2) apps sensor])
         (use e size W(1) in \<open>simp_all add: ns claim_sized_def present_def\<close>)
    fix d st1 assume run: "sync_flow c gh req f ps as sensor repo ?st = (Inr d, st1)"
    have "F (r_World st1) = F (r_World ?st)"
      by (rule syncsD(2) [OF syncs_flow [OF L(1) github_silent [OF L(3)] b(2) sensor(1)] run t1])
    with W(2) f0 show "succeeds_at (finish c req f d) st1"
      by (intro succeeds_finish [OF L(2) R _ req]) (simp add: req)
  qed
  then show ?thesis
    using g b(1) by (simp add: succeeds_at_def Reconcile_def on_world_def call_def bind_op_def or_condition_def
        reconcile_flow_eq [OF b(2-4)])
qed

end
