(* ===== verification/Reconciler_Properties.thy ===== *)
theory Reconciler_Properties
  imports Kube_Store Reconciler_Progress
begin

text \<open>
  What the reconciler achieves against an API that behaves as documented: after a reconciliation
  without errors every object of the flow is in sync, a flow in sync is not written to, and the sets
  of synchronised names are truthful at all times.
\<close>

section \<open>Every outcome\<close>

text \<open>
  C3. Whatever the outcome of a reconciliation, errors and panics included: the reconciler's sets
  stay truthful (a namespace, project or repository recorded as synchronised has its objects in sync
  in the cluster), and every object that flows share and that was in sync before is in sync after
  it. So the early skips by the sets are safe, and reconciling one flow cannot undo another's setup.
\<close>

theorem Reconcile_truthful:
  assumes "lawful_objects c K F" and "lawful_flows c K F" and "github_apart gh K F"
    and "truthful c K st" and "Reconcile c gh marshal dv dm req st = (r, st')"
  shows "truthful c K st'
    \<and> (\<forall>d \<in> shared_objects. present c K (r_World st) d \<longrightarrow> present c K (r_World st') d)"
proof -
  let ?D = "{d. present c K (r_World st) d}"
  have "sound c K ?D st" using assms(4) by (simp add: sound_def)
  from Reconcile_sound [OF assms(1-3,5) this] show ?thesis by (auto simp: sound_def)
qed

section \<open>Successful and idle runs\<close>

text \<open>
  C1. A reconciliation that returns without an error, for a flow whose objects can be built, leaves
  every object that the flow asks for in sync: the event bus, volume claim, service account, role and
  role binding of its namespace, the projects and applications of its ArgoCD steps, its sensor, and
  the entry of its repository in the shared event source. No other object, and no other flow, changes.
\<close>

theorem Reconcile_correct:
  assumes "lawful_objects c K F" and "lawful_flows c K F" and "github_apart gh K F" and "truthful c K st"
    and "F (r_World st) req = Some f0" and "desired_objects marshal dv dm f0 = Some ds"
    and "Reconcile c gh marshal dv dm req st = (Inr u, st')"
  shows "(\<forall>d \<in> ds. present c K (r_World st') d)
    \<and> (\<forall>k. k \<notin> key_of ` ds \<longrightarrow> K (r_World st') k = K (r_World st) k)
    \<and> (\<forall>k. k \<noteq> req \<longrightarrow> F (r_World st') k = F (r_World st) k)"
  by (rule Reconcile_success [OF assms])

text \<open>
  C4. Every flow that can be built is reconciled. The Kubernetes API answers and accepts creations,
  deletions and the updates that keep an object's immutable parts; the GitHub API answers and accepts
  settings that comply with the policy. The applications are in the flow's namespace; the volume claim
  of the namespace, if there is one, need not be resized; and the event source, if there is one, can be
  merged into. Then a run ends without an error or panic, the synchronisation of the GitHub settings
  included, and afterwards every object of the flow is in sync.
\<close>

theorem Reconcile_converges:
  assumes "lawful_objects c K F" and "lawful_flows c K F" and "github_apart gh K F"
    and "responsive c K F" and "answering gh"
    and "truthful c K st" and "mergeable (K (r_World st) event_source_key)"
    and "claim_sized c K (flow_Namespace f0) (r_World st)"
    and "F (r_World st) req = Some f0" and "desired_objects marshal dv dm f0 = Some ds"
    and "\<forall>d \<in> ds. fst (key_of d) = ApplicationKind \<longrightarrow> obj_Namespace d = flow_Namespace f0"
  shows "\<exists>st'. Reconcile c gh marshal dv dm req st = (Inr (), st') \<and> (\<forall>d \<in> ds. present c K (r_World st') d)"
proof -
  have "\<And>d. d \<in> ds \<Longrightarrow> fst (key_of d) = ApplicationKind \<Longrightarrow> obj_Namespace d = flow_Namespace f0"
    using assms(11) by blast
  from Reconcile_succeeds [OF assms(1-10) this] obtain st' where
    run: "Reconcile c gh marshal dv dm req st = (Inr (), st')" by blast
  with Reconcile_success [OF assms(1-3,6,9,10) run] show ?thesis by blast
qed

text \<open>
  C2. A flow whose objects are all settled is not written to: whatever the outcome of the run, every
  object and every flow is as before, its own status included. So reconciling twice writes nothing the
  second time; and a \<open>Ready\<close> condition that an earlier failed run set to \<open>False\<close> stays \<open>False\<close>
  when the cause is gone and no object has drifted.
\<close>

theorem Reconcile_idle:
  assumes "lawful_objects c K F" and "lawful_flows c K F" and "github_apart gh K F" and "truthful c K st"
    and "F (r_World st) req = Some f0" and "desired_objects marshal dv dm f0 = Some ds"
    and "\<forall>d \<in> ds. settled c K (r_World st) d"
    and "Reconcile c gh marshal dv dm req st = (r, st')"
  shows "K (r_World st') = K (r_World st) \<and> F (r_World st') = F (r_World st)"
  by (rule Reconcile_idle_run [OF assms])

section \<open>Flows that cannot be reconciled\<close>

lemma setCondition_reported:
  assumes L: "lawful_flows c K F" "lawful_conditions c"
    and g: "F (r_World st) (flow_key f) = Some g" "Conditions g = Conditions f"
    and run: "setCondition c req f cond st = (Inr u, st')"
  shows "\<exists>g'. F (r_World st') (flow_key f) = Some g' \<and> cond \<in> set (Conditions g')"
proof -
  obtain cs changed where sc: "kc_SetCondition c cond (Conditions f) = (cs, changed)" by fastforce
  with L(2) have cs: "cond \<in> set cs" "\<not> changed \<Longrightarrow> cs = Conditions f"
    unfolding lawful_conditions_def by blast+
  show ?thesis
  proof (cases changed)
    case False
    with run sc have "st' = st" by (simp add: setCondition_def)
    with g cs False show ?thesis by simp
  next
    case True
    with run sc obtain w1 w2 x where u: "kc_UpdateStatus c (f\<lparr>Conditions := cs\<rparr>) (r_World st) = (Inr (), w1)"
      and f: "kc_GetFlow c req w1 = (Inr x, w2)" and st': "r_World st' = w2"
      by (auto simp: setCondition_def split: option.splits)
    from lawful_UpdateStatus(3) [OF L(1) u] have
      "F w1 = (F (r_World st))(flow_key f := map_option (\<lambda>g. g\<lparr>Conditions := cs\<rparr>) (F (r_World st) (flow_key f)))"
      by (simp add: flow_key_def)
    with lawful_GetFlow(2) [OF L(1) f] st' g cs(1) show ?thesis by simp
  qed
qed

lemma PreProcessFlow_conditions: "PreProcessFlow dv dm f0 = (f, res) \<Longrightarrow> Conditions f = Conditions f0"
  by (auto simp: PreProcessFlow_def applyDefaults_def split: sum.splits prod.splits)

text \<open>
  C24. A flow that cannot be preprocessed changes nothing in the cluster but its own status, whatever
  the outcome of the run; and when the run returns without an error (so that it is not retried), the
  status reports it: the flow has a condition \<open>Ready\<close> that is \<open>False\<close> with the reason
  \<open>PreProcessFailed\<close> and the text of the error.
\<close>

theorem Reconcile_rejects:
  assumes "lawful_flows c K F" and "lawful_conditions c" and "F (r_World st) req = Some f0"
    and "PreProcessFlow dv dm f0 = (f, Inl (Failed e))" and "Reconcile c gh marshal dv dm req st = (r, st')"
  shows "status_only K F req st st'
    \<and> (r = Inr () \<longrightarrow> (\<exists>g. F (r_World st') req = Some g \<and>
          failure_condition ''PreProcessFailed'' (''Failed to preprocess Flow'' @ '': '' @ error_text e) \<in> set (Conditions g)))"
  using assms(1,5)
proof (cases rule: Reconcile_cases)
  case (failed e' w1)
  then show ?thesis by (auto simp: status_only_def)
next
  case (absent w1)
  with assms(3) show ?thesis by simp
next
  case (fetched w1 f1 f' processed)
  with assms(3,4) have eq: "f1 = f0" "f' = f" "processed = Inl (Failed e)" by auto
  let ?cond = "failure_condition ''PreProcessFailed'' (''Failed to preprocess Flow'' @ '': '' @ error_text e)"
  from fetched(6) eq have run: "setCondition c req f ?cond (st\<lparr>r_World := w1\<rparr>) = (r, st')"
    by (simp add: or_condition_def)
  from setCondition_run [OF assms(1) run] fetched(3-5) eq(2) have "status_only K F req st st'"
    by (auto simp: status_only_def)
  moreover have "\<exists>g. F (r_World st') req = Some g \<and> ?cond \<in> set (Conditions g)" if r: "r = Inr ()"
  proof -
    have "F (r_World (st\<lparr>r_World := w1\<rparr>)) (flow_key f) = Some f0" "Conditions f0 = Conditions f"
      using fetched(3,5) eq(2) assms(3) PreProcessFlow_conditions [OF assms(4)] by simp_all
    from setCondition_reported [OF assms(1,2) this run [unfolded r]] fetched(3) eq(2) show ?thesis by simp
  qed
  ultimately show ?thesis by blast
qed

text \<open>Every iteration of a loop that ends without an error did.\<close>

lemma sync_each_all:
  "sync_each f xs st = (Inr d, st') \<Longrightarrow> x \<in> set xs \<Longrightarrow> \<exists>st1 d1 st2. f x st1 = (Inr d1, st2)"
  by (induction xs arbitrary: st d) auto

definition sync_apps ::
  "'w kube_client \<Rightarrow> flow \<Rightarrow> app_project_spec object list \<Rightarrow> application_spec object list \<Rightarrow> ('w rstate, bool) op" where
  "sync_apps c f ps as =
     bind_op (sync_namespace c (flow_Namespace f)) (\<lambda>d1.
     bind_op (sync_each (sync_project c) ps) (\<lambda>d2.
     bind_op (sync_each (sync_application c f) as) (\<lambda>d3. return (d1 \<or> d2 \<or> d3))))"

lemma reconcile_flow_apps:
  "BuildArgoApps flowSteps = Inr (ps, as) \<Longrightarrow> reconcile_flow c gh marshal req f (flowTriggers, flowSteps)
     = bind_op (sync_apps c f ps as) (\<lambda>d. reconcile_sensor c marshal req f flowTriggers flowSteps (\<lambda>d4.
         reconcile_repo c gh req f flowTriggers (\<lambda>d5. finish c req f (d \<or> d4 \<or> d5))))"
  by (simp add: reconcile_flow_def sync_apps_def or_condition_def bind_assoc bind_return disj_assoc)

lemma syncs_apps:
  assumes L: "lawful_objects c K F" and apps: "BuildArgoApps ss = Inr (ps, as)"
  shows "syncs c K F (namespace_objects (flow_Namespace f) \<union> (project_object ` set ps
    \<union> (application_object ` set as \<union> {}))) False (sync_apps c f ps as)"
proof -
  note ps = projects_shared [OF apps] and as = applications_owned [of as]
  have "apart (application_object ` set as) {}" by (rule apart_owned) (use as in auto)
  moreover have "apart (project_object ` set ps) (application_object ` set as \<union> {})"
    by (rule apart_shared_owned [OF ps]) (use as in auto)
  moreover have "apart (namespace_objects (flow_Namespace f)) (project_object ` set ps \<union> (application_object ` set as \<union> {}))"
    by (rule apart_shared_owned [OF namespace_objects_shared]) (use as ps in auto)
  ultimately show ?thesis
    unfolding sync_apps_def
    by (intro syncs_bind syncs_namespace [OF L] syncs_projects [OF L apps] syncs_applications [OF L apps] syncs_return)
       blast
qed

text \<open>
  C23. \<open>ctrl.SetControllerReference\<close> refuses an owner in another namespace than the object. A flow
  with an application in the namespace of an organisation that is not the flow's own is therefore
  never reconciled: every run ends in an error, no sensor or event source is created or updated by it,
  and the status of the flow does not tell why, as no status is written.
\<close>

theorem Reconcile_foreign_application:
  assumes "lawful_objects c K F" and "lawful_flows c K F" and "truthful c K st"
    and "\<forall>f ob. obj_Namespace ob \<noteq> flow_Namespace f \<longrightarrow> (\<exists>e. kc_SetOwner c f ob = Inl e)"
    and "F (r_World st) req = Some f0" and "PreProcessFlow dv dm f0 = (f, Inr (flowTriggers, flowSteps))"
    and "BuildArgoApps flowSteps = Inr (ps, as)"
    and "a \<in> set as" and "obj_Namespace a \<noteq> flow_Namespace f"
    and "Reconcile c gh marshal dv dm req st = (r, st')"
  shows "r \<noteq> Inr () \<and> F (r_World st') = F (r_World st)
    \<and> (\<forall>kind ns n. kind \<in> {SensorKind, EventSourceKind} \<longrightarrow>
         K (r_World st') (kind, ns, n) = K (r_World st) (kind, ns, n))"
  using assms(2,10)
proof (cases rule: Reconcile_cases)
  case (failed e w1)
  then show ?thesis by simp
next
  case (absent w1)
  with assms(5) show ?thesis by simp
next
  case (fetched w1 f1 f' processed)
  with assms(5,6) have eq: "f1 = f0" "f' = f" "processed = Inr (flowTriggers, flowSteps)" by auto
  let ?st1 = "st\<lparr>r_World := w1\<rparr>"
  obtain r2 st2 where m: "sync_apps c f ps as ?st1 = (r2, st2)" by fastforce
  have "obj_Namespace (application_object a) \<noteq> flow_Namespace f"
    using assms(9) by (simp add: application_object_def)
  with assms(4) obtain e where "kc_SetOwner c f (application_object a) = Inl e" by blast
  then have "\<not> sync_application c f a s1 = (Inr d, s2)" for s1 d s2
    by (auto simp: sync_application_def set_owner_def)
  then have none: "sync_each (sync_application c f) as s1 \<noteq> (Inr d, s2)" for s1 d s2
    using sync_each_all [of "sync_application c f" as s1 d s2 a] assms(8) by blast
  have "r2 \<noteq> Inr d" for d
  proof
    assume "r2 = Inr d"
    with m none show False unfolding sync_apps_def by auto
  qed
  then obtain e where "r2 = Inl e" by (cases r2) auto
  with fetched(6) eq m have r: "r = Inl e" "st' = st2"
    by (auto simp: or_condition_def reconcile_flow_apps [OF assms(7)] bind_op_def)
  have "truthful c K ?st1" using assms(3) fetched(4) by (simp add: truthful_def present_def)
  note M = syncsD [OF syncs_apps [OF assms(1,7)] m this]
  have "K (r_World st2) (kind, ns, n) = K (r_World st) (kind, ns, n)" if "kind \<in> {SensorKind, EventSourceKind}" for kind ns n
  proof -
    have "(kind, ns, n) \<notin> key_of ` (namespace_objects (flow_Namespace f) \<union> (project_object ` set ps
        \<union> (application_object ` set as \<union> {})))"
      using that by (auto simp: namespace_objects_def image_iff)
    from M(3) [OF this] fetched(4) show ?thesis by simp
  qed
  with r M(2) fetched(5) show ?thesis by simp
qed

section \<open>A concrete cluster\<close>

text \<open>A flow with a push trigger that builds an image and deploys it, for repositories of an organisation.\<close>

definition deploy_flow :: "string \<Rightarrow> string \<Rightarrow> flow" where
  "deploy_flow ns org =
     \<lparr>flow_Name = ''deploy'', flow_Namespace = ns, ActiveDeadlineSeconds = None,
      Triggers = [JObj [(''triggerName'', JStr ''push''), (''triggerSource'', JStr ''GitHubPush''),
        (''repoUrl'', JStr (''https://github.com/'' @ org @ ''/app.git''))]],
      Steps = [JObj [(''stepName'', JStr ''build''), (''stepSource'', JStr ''DockerBuildTestPublish'')],
        JObj [(''stepName'', JStr ''dev''), (''stepSource'', JStr ''ArgoCD''), (''dependsOn'', JArr [JStr ''build'']),
          (''repoUrl'', JStr (''https://github.com/'' @ org @ ''/app-config.git'')), (''repoPath'', JStr ''dev'')]],
      Conditions = []\<rparr>"

definition sample_marshal :: "workflow \<Rightarrow> go_error + string" where
  "sample_marshal w = Inr ''{}''"

definition is_Inr :: "'a res \<Rightarrow> bool" where
  "is_Inr r = (case r of Inr x \<Rightarrow> True | Inl e \<Rightarrow> False)"

text \<open>All objects can be built, with one application, in the given namespace.\<close>

definition deploys_to :: "string \<Rightarrow> flow \<Rightarrow> bool" where
  "deploys_to ns f0 =
     (case PreProcessFlow no_volume no_mount f0 of
        (f, Inl e) \<Rightarrow> False
      | (f, Inr (ts, ss)) \<Rightarrow>
          (case BuildArgoApps ss of Inl e \<Rightarrow> False
           | Inr (ps, as) \<Rightarrow> map obj_Namespace as = [ns]
               \<and> is_Inr (BuildSensor sample_marshal f ts ss) \<and> is_Inr (getTriggerRepoName (flow_Name f) ts)))"

lemma deploy_flow_deploys: "deploys_to ''org'' (deploy_flow ''org'' ''org'')" "deploys_to ''org'' (deploy_flow ''team'' ''org'')"
  by code_simp+

lemma deploys_to_built:
  assumes "deploys_to ns f0"
  obtains f ts ss ps a sensor repo where "PreProcessFlow no_volume no_mount f0 = (f, Inr (ts, ss))"
    "BuildArgoApps ss = Inr (ps, [a])" "obj_Namespace a = ns" "BuildSensor sample_marshal f ts ss = Inr sensor"
    "getTriggerRepoName (flow_Name f) ts = Inr repo"
    "desired_objects sample_marshal no_volume no_mount f0 = Some (flow_objects f ps [a] sensor repo)"
proof -
  obtain f processed where p: "PreProcessFlow no_volume no_mount f0 = (f, processed)" by fastforce
  with assms obtain ts ss where pr: "processed = Inr (ts, ss)"
    by (cases processed) (auto simp: deploys_to_def)
  with assms p obtain ps as where apps: "BuildArgoApps ss = Inr (ps, as)"
    by (cases "BuildArgoApps ss") (auto simp: deploys_to_def)
  with assms p pr have "map obj_Namespace as = [ns]" "is_Inr (BuildSensor sample_marshal f ts ss)"
      "is_Inr (getTriggerRepoName (flow_Name f) ts)"
    by (simp_all add: deploys_to_def)
  moreover from this obtain sensor repo where
    "BuildSensor sample_marshal f ts ss = Inr sensor" "getTriggerRepoName (flow_Name f) ts = Inr repo"
    by (cases "BuildSensor sample_marshal f ts ss"; cases "getTriggerRepoName (flow_Name f) ts")
       (auto simp: is_Inr_def)
  moreover from calculation obtain a where "as = [a]" "obj_Namespace a = ns" by auto
  ultimately show thesis
    using p pr apps by (intro that) (auto simp: desired_objects_def split: prod.split)
qed

lemma store_responsive: "responsive store_kube store_objects store_flows"
  by (auto simp: responsive_def store_kube_def store_create_def store_update_def store_delete_def
      store_status_def store_owner_def)

definition deploy_key :: "string \<times> string" where
  "deploy_key = (''org'', ''deploy'')"

definition deploy_state :: "kobject list \<Rightarrow> cluster rstate" where
  "deploy_state obs = fresh_state obs [deploy_flow ''org'' ''org'']"

lemma deploy_state_flow:
  "store_flows (r_World (fresh_state obs [deploy_flow ns org])) (ns, ''deploy'') = Some (deploy_flow ns org)"
  by (simp add: fresh_state_def store_flows_def flow_key_def deploy_flow_def)

lemmas store_laws = store_lawful_objects store_lawful_flows calm_github_apart

lemma deploy_mergeable: "mergeable (store_objects (r_World (deploy_state [])) event_source_key)"
  by (simp add: mergeable_def store_objects_def deploy_state_def fresh_state_def)

lemma deploy_claim: "claim_sized store_kube store_objects ns (r_World (deploy_state []))"
  by (simp add: claim_sized_def store_objects_def deploy_state_def fresh_state_def)

lemma desired_claim:
  "desired_objects marshal dv dm f0 = Some ds \<Longrightarrow> pvc_object (flow_Namespace f0) \<in> ds"
  by (auto simp: desired_objects_Some flow_objects_def namespace_objects_def flow_key_def dest!: preprocess_key)

lemma deploy_desired:
  obtains ds where "desired_objects sample_marshal no_volume no_mount (deploy_flow ''org'' ''org'') = Some ds"
    and "\<forall>d \<in> ds. fst (key_of d) = ApplicationKind \<longrightarrow> obj_Namespace d = flow_Namespace (deploy_flow ''org'' ''org'')"
    and "event_bus_object ''org'' \<in> ds"
proof -
  obtain f ts ss ps a sensor repo where b: "PreProcessFlow no_volume no_mount (deploy_flow ''org'' ''org'') = (f, Inr (ts, ss))"
      "obj_Namespace a = ''org''"
      "desired_objects sample_marshal no_volume no_mount (deploy_flow ''org'' ''org'') = Some (flow_objects f ps [a] sensor repo)"
    using deploys_to_built [OF deploy_flow_deploys(1)] by metis
  have ns: "flow_Namespace f = ''org''"
    using preprocess_key [OF b(1)] by (simp add: flow_key_def deploy_flow_def)
  show thesis
  proof (rule that [OF b(3)])
    show "event_bus_object ''org'' \<in> flow_objects f ps [a] sensor repo"
      by (simp add: flow_objects_def namespace_objects_def ns)
    have "obj_Namespace (application_object a) = ''org''" using b(2) by (simp add: application_object_def)
    then show "\<forall>d \<in> flow_objects f ps [a] sensor repo. fst (key_of d) = ApplicationKind \<longrightarrow>
        obj_Namespace d = flow_Namespace (deploy_flow ''org'' ''org'')"
      by (auto simp: flow_objects_def namespace_objects_def deploy_flow_def)
  qed
qed

lemma deploy_found: "store_flows (r_World (deploy_state obs)) deploy_key = Some (deploy_flow ''org'' ''org'')"
  using deploy_state_flow [of obs "''org''" "''org''"] by (simp add: deploy_state_def deploy_key_def)

lemma deploy_truthful: "truthful store_kube store_objects (deploy_state obs)"
  by (simp add: deploy_state_def fresh_truthful)

theorem Reconcile_converges_witness:
  "\<exists>st'. Reconcile store_kube calm_github sample_marshal no_volume no_mount deploy_key (deploy_state []) = (Inr (), st')
     \<and> present store_kube store_objects (r_World st') (event_bus_object ''org'')"
proof -
  obtain ds where ds: "desired_objects sample_marshal no_volume no_mount (deploy_flow ''org'' ''org'') = Some ds"
    and ns: "\<forall>d \<in> ds. fst (key_of d) = ApplicationKind \<longrightarrow> obj_Namespace d = flow_Namespace (deploy_flow ''org'' ''org'')"
    and bus: "event_bus_object ''org'' \<in> ds" by (rule deploy_desired)
  from Reconcile_converges [OF store_laws store_responsive calm_github_answers deploy_truthful deploy_mergeable
      deploy_claim deploy_found ds ns] bus
  show ?thesis by blast
qed

lemma deploy_run:
  obtains ds st' where "desired_objects sample_marshal no_volume no_mount (deploy_flow ''org'' ''org'') = Some ds"
    and "event_bus_object ''org'' \<in> ds"
    and "Reconcile store_kube calm_github sample_marshal no_volume no_mount deploy_key (deploy_state []) = (Inr (), st')"
proof -
  obtain ds where ds: "desired_objects sample_marshal no_volume no_mount (deploy_flow ''org'' ''org'') = Some ds"
    and ns: "\<forall>d \<in> ds. fst (key_of d) = ApplicationKind \<longrightarrow> obj_Namespace d = flow_Namespace (deploy_flow ''org'' ''org'')"
    and bus: "event_bus_object ''org'' \<in> ds" by (rule deploy_desired)
  from Reconcile_succeeds [OF store_laws store_responsive calm_github_answers _ deploy_mergeable deploy_claim
      deploy_found ds] ns that [OF ds bus]
  show thesis by (auto simp: deploy_state_def fresh_truthful)
qed

theorem Reconcile_correct_witness:
  "\<exists>st'. Reconcile store_kube calm_github sample_marshal no_volume no_mount deploy_key (deploy_state []) = (Inr (), st')
     \<and> present store_kube store_objects (r_World st') (event_bus_object ''org'')"
proof -
  obtain ds st' where "desired_objects sample_marshal no_volume no_mount (deploy_flow ''org'' ''org'') = Some ds"
    "event_bus_object ''org'' \<in> ds"
    "Reconcile store_kube calm_github sample_marshal no_volume no_mount deploy_key (deploy_state []) = (Inr (), st')"
    by (rule deploy_run)
  with Reconcile_correct [OF store_laws deploy_truthful deploy_found] show ?thesis by blast
qed

theorem Reconcile_truthful_witness:
  "\<exists>st'. Reconcile store_kube calm_github sample_marshal no_volume no_mount deploy_key (deploy_state []) = (Inr (), st')
     \<and> truthful store_kube store_objects st'"
proof -
  obtain ds st' where
    "Reconcile store_kube calm_github sample_marshal no_volume no_mount deploy_key (deploy_state []) = (Inr (), st')"
    using deploy_run by metis
  with Reconcile_truthful [OF store_laws deploy_truthful this] show ?thesis by blast
qed

text \<open>The cluster that holds exactly the objects of the flow.\<close>

definition object_list ::
  "flow \<Rightarrow> app_project_spec object list \<Rightarrow> application_spec object list \<Rightarrow> sensor_spec object
     \<Rightarrow> string \<times> string \<Rightarrow> kobject list" where
  "object_list f ps as sensor repo =
     [event_bus_object (flow_Namespace f), pvc_object (flow_Namespace f), service_account_object (flow_Namespace f),
      role_object (flow_Namespace f), role_binding_object (flow_Namespace f)]
     @ map project_object ps @ map application_object as
     @ [sensor_object sensor, event_source_object (fst repo) (snd repo)]"

lemma object_list_set: "set (object_list f ps as sensor repo) = flow_objects f ps as sensor repo"
  by (auto simp: object_list_def flow_objects_def namespace_objects_def)

lemma object_list_keys:
  assumes "distinct (map obj_Name ps)" and "distinct (map obj_Name as)"
  shows "distinct (map key_of (object_list f ps as sensor repo))"
  using assms by (auto simp: object_list_def distinct_map inj_on_def)

lemma stored_object:
  "distinct (map key_of obs) \<Longrightarrow> ob \<in> set obs \<Longrightarrow> store_objects (r_World (fresh_state obs fs)) (key_of ob) = Some ob"
  unfolding fresh_state_def store_objects_def by (induction obs) (auto simp: image_iff)

lemma stored_settled:
  assumes "distinct (map key_of obs)" and "d \<in> set obs"
    and "owners_distinct (section_repos (event_source_of (obj_Spec d)))"
  shows "settled store_kube store_objects (r_World (fresh_state obs fs)) d"
  using stored_object [OF assms(1,2)] assms(3) by (simp add: settled_def present_def in_sync_refl)

lemma flow_objects_tidy:
  "d \<in> flow_objects f ps as sensor repo \<Longrightarrow> owners_distinct (section_repos (event_source_of (obj_Spec d)))"
  by (auto simp: flow_objects_def namespace_objects_def project_object_def application_object_def sensor_object_def
      event_source_object_def BuildEventSource_def getEventSourceSpecWithRepos_def section_repos_def Let_def
      owners_distinct_def)

lemma deploy_settled:
  obtains obs ds where "desired_objects sample_marshal no_volume no_mount (deploy_flow ''org'' ''org'') = Some ds"
    and "set obs = ds" and "distinct (map key_of obs)" and "event_bus_object ''org'' \<in> set obs"
    and "\<forall>d \<in> ds. settled store_kube store_objects (r_World (deploy_state obs)) d"
proof -
  obtain f ts ss ps a sensor repo where b: "PreProcessFlow no_volume no_mount (deploy_flow ''org'' ''org'') = (f, Inr (ts, ss))"
      "BuildArgoApps ss = Inr (ps, [a])"
      "desired_objects sample_marshal no_volume no_mount (deploy_flow ''org'' ''org'') = Some (flow_objects f ps [a] sensor repo)"
    using deploys_to_built [OF deploy_flow_deploys(1)] by metis
  let ?obs = "object_list f ps [a] sensor repo"
  have ns: "flow_Namespace f = ''org''"
    using preprocess_key [OF b(1)] by (simp add: flow_key_def deploy_flow_def)
  have keys: "distinct (map key_of ?obs)"
    using BuildArgoApps_distinct [OF b(2)] by (intro object_list_keys) simp_all
  have settled: "\<forall>d \<in> flow_objects f ps [a] sensor repo. settled store_kube store_objects (r_World (deploy_state ?obs)) d"
    unfolding deploy_state_def using stored_settled [OF keys] flow_objects_tidy by (simp add: object_list_set)
  have "event_bus_object ''org'' \<in> set ?obs" by (simp add: object_list_def ns)
  from that [OF b(3) object_list_set keys this settled] show thesis .
qed

theorem Reconcile_idle_witness:
  "\<exists>obs r st'. event_bus_object ''org'' \<in> set obs
     \<and> Reconcile store_kube calm_github sample_marshal no_volume no_mount deploy_key (deploy_state obs) = (r, st')
     \<and> store_objects (r_World st') = store_objects (r_World (deploy_state obs))"
proof -
  obtain obs ds where b: "desired_objects sample_marshal no_volume no_mount (deploy_flow ''org'' ''org'') = Some ds"
    "event_bus_object ''org'' \<in> set obs"
    "\<forall>d \<in> ds. settled store_kube store_objects (r_World (deploy_state obs)) d" by (rule deploy_settled)
  obtain r st' where run:
    "Reconcile store_kube calm_github sample_marshal no_volume no_mount deploy_key (deploy_state obs) = (r, st')"
    by fastforce
  with b(2) Reconcile_idle [OF store_laws deploy_truthful deploy_found b(1,3) run] show ?thesis by blast
qed

text \<open>A flow without triggers.\<close>

definition bare_flow :: flow where
  "bare_flow = (deploy_flow ''org'' ''org'')\<lparr>Triggers := []\<rparr>"

definition bare_state :: "cluster rstate" where
  "bare_state = fresh_state [] [bare_flow]"

definition rejection :: "flow \<Rightarrow> go_error option" where
  "rejection f0 = (case PreProcessFlow no_volume no_mount f0 of (f, Inl (Failed e)) \<Rightarrow> Some e | _ \<Rightarrow> None)"

lemma bare_flow_rejected: "rejection bare_flow \<noteq> None"
  by code_simp

lemma bare_flow_error:
  obtains f e where "PreProcessFlow no_volume no_mount bare_flow = (f, Inl (Failed e))"
  using bare_flow_rejected by (auto simp: rejection_def split: prod.splits sum.splits fault.splits)

lemma bare_found: "store_flows (r_World bare_state) deploy_key = Some bare_flow"
  by (simp add: bare_state_def fresh_state_def store_flows_def flow_key_def bare_flow_def deploy_flow_def deploy_key_def)

theorem Reconcile_rejects_witness:
  "\<exists>r st'. Reconcile store_kube calm_github sample_marshal no_volume no_mount deploy_key bare_state = (r, st')
     \<and> status_only store_objects store_flows deploy_key bare_state st'"
proof -
  obtain f e where p: "PreProcessFlow no_volume no_mount bare_flow = (f, Inl (Failed e))"
    by (rule bare_flow_error)
  obtain r st' where run: "Reconcile store_kube calm_github sample_marshal no_volume no_mount deploy_key bare_state = (r, st')"
    by fastforce
  with Reconcile_rejects [OF store_lawful_flows store_lawful_conditions bare_found p run] show ?thesis by blast
qed

theorem Reconcile_foreign_application_witness:
  "\<exists>e st'. Reconcile store_kube calm_github sample_marshal no_volume no_mount (''team'', ''deploy'')
       (fresh_state [] [deploy_flow ''team'' ''org'']) = (Inl e, st')
     \<and> store_objects (r_World st') (SensorKind, ''team'', ''deploy'') = None"
proof -
  let ?st = "fresh_state [] [deploy_flow ''team'' ''org'']"
  obtain f ts ss ps a where b: "PreProcessFlow no_volume no_mount (deploy_flow ''team'' ''org'') = (f, Inr (ts, ss))"
      "BuildArgoApps ss = Inr (ps, [a])" "obj_Namespace a = ''org''"
    using deploys_to_built [OF deploy_flow_deploys(2)] by metis
  have ns: "obj_Namespace a \<noteq> flow_Namespace f"
    using preprocess_key [OF b(1)] b(3) by (simp add: flow_key_def deploy_flow_def)
  have own: "\<forall>f ob. obj_Namespace ob \<noteq> flow_Namespace f \<longrightarrow> (\<exists>e. kc_SetOwner store_kube f ob = Inl e)"
    by (simp add: store_kube_def store_owner_def)
  obtain r st' where run: "Reconcile store_kube calm_github sample_marshal no_volume no_mount (''team'', ''deploy'') ?st = (r, st')"
    by fastforce
  have "a \<in> set [a]" by simp
  from Reconcile_foreign_application [OF store_laws(1,2) fresh_truthful own deploy_state_flow b(1,2) this ns run]
  have "r \<noteq> Inr ()" "store_objects (r_World st') (SensorKind, ''team'', ''deploy'')
      = store_objects (r_World ?st) (SensorKind, ''team'', ''deploy'')" by simp_all
  moreover have "store_objects (r_World ?st) (SensorKind, ''team'', ''deploy'') = None"
    by (simp add: store_objects_def fresh_state_def)
  ultimately show ?thesis using run by (cases r) auto
qed

end
