(* ===== verification/Reconciler_Stability.thy ===== *)
theory Reconciler_Stability
  imports Reconciler_Properties
begin

text \<open>
  Reconciling a flow again and again: the objects that a flow asks for do not depend on its status, so that after one
  run without an error no further run changes anything.
\<close>

section \<open>The status is not looked at\<close>

lemma BuildSensor_conditions: "BuildSensor marshal (f\<lparr>Conditions := cs\<rparr>) ts ss = BuildSensor marshal f ts ss"
  by (simp add: BuildSensor_def getSensorTriggers_def getWorkflowTemplate_def workflow_value_def)

lemma PreProcessFlow_with_conditions:
  "PreProcessFlow dv dm (f\<lparr>Conditions := cs\<rparr>) = map_prod (Conditions_update (\<lambda>_. cs)) id (PreProcessFlow dv dm f)"
  by (auto simp: PreProcessFlow_def applyDefaults_def parseTriggers_def parseSteps_def split: sum.split prod.split)

lemma desired_objects_conditions:
  "desired_objects marshal dv dm (f\<lparr>Conditions := cs\<rparr>) = desired_objects marshal dv dm f"
proof -
  have "flow_objects (g\<lparr>Conditions := cs\<rparr>) = flow_objects g" for g
    by (simp add: flow_objects_def fun_eq_iff)
  then show ?thesis
    unfolding desired_objects_def PreProcessFlow_with_conditions
    by (simp add: BuildSensor_conditions split: prod.split sum.split)
qed

text \<open>A run changes at most the status of its flow, as it was fetched.\<close>

definition but_for_status :: "'w flows \<Rightarrow> string \<times> string \<Rightarrow> flow \<Rightarrow> 'w rstate \<Rightarrow> bool" where
  "but_for_status F req f0 st \<longleftrightarrow>
     map_option (Conditions_update (\<lambda>_. [])) (F (r_World st) req) = Some (f0\<lparr>Conditions := []\<rparr>)"

lemma keeps_status_update:
  assumes "lawful_flows c K F"
  shows "keeps (but_for_status F req f0) (on_world (call (kc_UpdateStatus c f)))"
  unfolding keeps_def
proof (intro allI impI)
  fix st r st'
  assume "on_world (call (kc_UpdateStatus c f)) st = (r, st')" and "but_for_status F req f0 st"
  then obtain r1 w' where u: "kc_UpdateStatus c f (r_World st) = (r1, w')" "st' = st\<lparr>r_World := w'\<rparr>"
    and b: "but_for_status F req f0 st"
    by (auto simp: on_world_def call_def split: prod.splits sum.splits)
  have "F w' = (F (r_World st))(flow_key f := map_option (\<lambda>g. g\<lparr>Conditions := Conditions f\<rparr>) (F (r_World st) (flow_key f)))
      \<or> F w' = F (r_World st)"
    using assms u(1) unfolding lawful_flows_def by (elim conjE) blast
  with b u(2) show "but_for_status F req f0 st'" by (auto simp: but_for_status_def)
qed

lemma keeps_status_fetch:
  assumes "lawful_flows c K F"
  shows "keeps (but_for_status F req f0) (on_world (call (kc_GetFlow c k)))"
  unfolding keeps_def
proof (intro allI impI)
  fix st r st'
  assume "on_world (call (kc_GetFlow c k)) st = (r, st')" and "but_for_status F req f0 st"
  then obtain r1 w' where "kc_GetFlow c k (r_World st) = (r1, w')" "st' = st\<lparr>r_World := w'\<rparr>" "but_for_status F req f0 st"
    by (auto simp: on_world_def call_def split: prod.splits sum.splits)
  with lawful_GetFlow(2) [OF assms] show "but_for_status F req f0 st'" by (simp add: but_for_status_def)
qed

lemma keeps_finish: "lawful_flows c K F \<Longrightarrow> keeps (but_for_status F req f0) (finish c req' f b)"
  unfolding finish_def setCondition_def
  by (intro keeps_rules keeps_case_prod keeps_status_update keeps_status_fetch)

lemma Reconcile_but_for_status:
  assumes L: "lawful_objects c K F" "lawful_flows c K F" "github_apart gh K F" and t: "truthful c K st"
    and f0: "F (r_World st) req = Some f0" and ds: "desired_objects marshal dv dm f0 = Some ds"
    and run: "Reconcile c gh marshal dv dm req st = (r, st')"
  shows "but_for_status F req f0 st'"
  using L f0 ds run
proof (cases rule: Reconcile_desired)
  case (failed e w1)
  with f0 show ?thesis by (simp add: but_for_status_def)
next
  case (steps w1 f m)
  obtain r1 st1 where m: "m (st\<lparr>r_World := w1\<rparr>) = (r1, st1)" by fastforce
  have "truthful c K (st\<lparr>r_World := w1\<rparr>)" using t steps(1) by (simp add: truthful_def present_def)
  from syncsD(2) [OF steps(4) m this] steps(2) f0 have "but_for_status F req f0 st1"
    by (simp add: but_for_status_def)
  with keepsD [OF keeps_finish [OF L(2)]] steps(5) m show ?thesis by (cases r1) (auto simp: bind_op_def)
qed

section \<open>Runs one after the other\<close>

text \<open>The results of \<open>n\<close> reconciliations of the flow, and the state after them.\<close>

fun reconciles ::
  "'w kube_client \<Rightarrow> 'w github_client \<Rightarrow> (workflow \<Rightarrow> go_error + string) \<Rightarrow> volume decoder \<Rightarrow> volume_mount decoder
     \<Rightarrow> string \<times> string \<Rightarrow> nat \<Rightarrow> 'w rstate \<Rightarrow> 'w rstate" where
  "reconciles c gh marshal dv dm req 0 st = st"
| "reconciles c gh marshal dv dm req (Suc n) st =
     reconciles c gh marshal dv dm req n (snd (Reconcile c gh marshal dv dm req st))"

lemma desired_event_source:
  "desired_objects marshal dv dm f0 = Some ds \<Longrightarrow> d \<in> ds \<Longrightarrow> fst (key_of d) = EventSourceKind \<Longrightarrow> key_of d = event_source_key"
  by (auto simp: desired_objects_Some flow_objects_def namespace_objects_def event_source_key_def)

section \<open>Properties\<close>

text \<open>
  C5. Reconciliation settles: after one run without an error for a flow whose objects can be built, further runs, however
  many and whatever their outcome, change neither an object of the cluster nor any flow, if the event source
  lists every owner once. (Otherwise a repository in a second entry of its owner is added to the first.) So the
  updates that the controller itself makes never keep it busy. This rests on \<open>stored\<close>: what the server gives
  back compares equal to what was sent, the raw JSON of a sensor's workflow included.
\<close>

theorem Reconcile_settles:
  assumes "lawful_objects c K F" and "lawful_flows c K F" and "github_apart gh K F" and "truthful c K st"
    and "F (r_World st) req = Some f0" and "desired_objects marshal dv dm f0 = Some ds"
    and "Reconcile c gh marshal dv dm req st = (Inr u, st')"
    and "\<forall>e. K (r_World st') event_source_key = Some e \<longrightarrow> owners_distinct (section_repos (event_source_of (obj_Spec e)))"
  shows "K (r_World (reconciles c gh marshal dv dm req n st')) = K (r_World st')
    \<and> F (r_World (reconciles c gh marshal dv dm req n st')) = F (r_World st')"
proof -
  note L = assms(1-3)
  have first: "\<forall>d \<in> ds. present c K (r_World st') d" using Reconcile_success [OF assms(1-7)] by blast
  have settled: "\<forall>d \<in> ds. settled c K (r_World st') d"
  proof
    fix d assume "d \<in> ds"
    with first have p: "present c K (r_World st') d" by blast
    show "settled c K (r_World st') d"
    proof (cases "fst (key_of d) = EventSourceKind")
      case True
      then have "key_of d = event_source_key"
        using desired_event_source [OF assms(6) \<open>d \<in> ds\<close>] by simp
      with p assms(8) show ?thesis by (simp add: settled_def)
    qed (simp add: settled_other_kind [OF L(1)] p)
  qed
  obtain g where g: "F (r_World st') req = Some g" "g\<lparr>Conditions := []\<rparr> = f0\<lparr>Conditions := []\<rparr>"
    using Reconcile_but_for_status [OF assms(1-7)] by (auto simp: but_for_status_def)
  have ds: "desired_objects marshal dv dm g = Some ds"
    using assms(6) desired_objects_conditions [where f = g and cs = "[]"] desired_objects_conditions [where f = f0 and cs = "[]"]
    by (simp add: g(2))
  have more: "K (r_World (reconciles c gh marshal dv dm req n s)) = K (r_World s)
      \<and> F (r_World (reconciles c gh marshal dv dm req n s)) = F (r_World s)"
    if "truthful c K s" "F (r_World s) req = Some g" "\<forall>d \<in> ds. settled c K (r_World s) d" for s
    using that
  proof (induction n arbitrary: s)
    case (Suc n)
    obtain r s1 where run: "Reconcile c gh marshal dv dm req s = (r, s1)" by fastforce
    from Reconcile_idle_run [OF L Suc.prems(1,2) ds Suc.prems(3) run]
    have same: "K (r_World s1) = K (r_World s)" "F (r_World s1) = F (r_World s)" by simp_all
    have "truthful c K s1"
      using Reconcile_sound [OF L run, of "{}"] Suc.prems(1) by (simp add: sound_def)
    with Suc.IH [of s1] Suc.prems(2,3) same run show ?case by (simp add: settled_def present_def)
  qed simp
  have "truthful c K st'"
    using Reconcile_sound [OF L assms(7), of "{}"] assms(4) by (simp add: sound_def)
  from more [OF this g(1) settled] show ?thesis .
qed

lemma desired_source_tidy:
  assumes "desired_objects marshal dv dm f0 = Some ds" and "e \<in> ds" and "fst (key_of e) = EventSourceKind"
  shows "ess_Github (event_source_of (obj_Spec e)) \<noteq> None \<and> owners_distinct (section_repos (event_source_of (obj_Spec e)))"
proof -
  obtain org n where "e = event_source_object org n"
    using assms by (auto simp: desired_objects_Some flow_objects_def namespace_objects_def)
  then show ?thesis
    by (simp add: event_source_object_def BuildEventSource_def getEventSourceSpecWithRepos_def section_repos_def Let_def
        owners_distinct_def)
qed

lemma Reconcile_settles_witness:
  "\<exists>obs st'. Reconcile store_kube calm_github sample_marshal no_volume no_mount deploy_key (deploy_state obs) = (Inr (), st')
     \<and> store_objects (r_World (reconciles store_kube calm_github sample_marshal no_volume no_mount deploy_key 3 st'))
         = store_objects (r_World st')
     \<and> present store_kube store_objects (r_World st') (event_bus_object ''org'')"
proof -
  obtain obs ds where b: "desired_objects sample_marshal no_volume no_mount (deploy_flow ''org'' ''org'') = Some ds"
    "set obs = ds" "distinct (map key_of obs)" "event_bus_object ''org'' \<in> set obs"
    "\<forall>d \<in> ds. settled store_kube store_objects (r_World (deploy_state obs)) d" by (rule deploy_settled)
  have ns: "\<forall>d \<in> ds. fst (key_of d) = ApplicationKind \<longrightarrow> obj_Namespace d = flow_Namespace (deploy_flow ''org'' ''org'')"
    using deploy_desired b(1) by (metis option.inject)
  have source: "store_objects (r_World (deploy_state obs)) event_source_key = Some e \<Longrightarrow>
      ess_Github (event_source_of (obj_Spec e)) \<noteq> None \<and> owners_distinct (section_repos (event_source_of (obj_Spec e)))" for e
    using desired_source_tidy [OF b(1)] b(2)
    by (auto simp: store_objects_def deploy_state_def fresh_state_def find_Some_iff event_source_key_def)
  then have "mergeable (store_objects (r_World (deploy_state obs)) event_source_key)" by (simp add: mergeable_def)
  moreover have "claim_sized store_kube store_objects (flow_Namespace (deploy_flow ''org'' ''org''))
      (r_World (deploy_state obs))"
    using b(5) desired_claim [OF b(1)] unfolding claim_sized_def settled_def by blast
  ultimately obtain st0 where "Reconcile store_kube calm_github sample_marshal no_volume no_mount deploy_key
      (deploy_state obs) = (Inr (), st0)"
    using Reconcile_succeeds [OF store_laws store_responsive calm_github_answers deploy_truthful _ _
        deploy_found b(1)] ns by blast
  then obtain st' where run: "Reconcile store_kube calm_github sample_marshal no_volume no_mount deploy_key (deploy_state obs) = (Inr (), st')"
    by blast
  from Reconcile_idle_run [OF store_laws deploy_truthful deploy_found b(1,5) run]
  have same: "store_objects (r_World st') = store_objects (r_World (deploy_state obs))" by simp
  have "\<forall>e. store_objects (r_World st') event_source_key = Some e \<longrightarrow> owners_distinct (section_repos (event_source_of (obj_Spec e)))"
    using source by (simp add: same)
  from Reconcile_settles [OF store_laws deploy_truthful deploy_found b(1) run this, of 3]
  have "store_objects (r_World (reconciles store_kube calm_github sample_marshal no_volume no_mount deploy_key 3 st'))
      = store_objects (r_World st')" by blast
  moreover have "settled store_kube store_objects (r_World (deploy_state obs)) (event_bus_object ''org'')"
    using b(2,4,5) by blast
  then have "present store_kube store_objects (r_World st') (event_bus_object ''org'')"
    unfolding settled_def present_def same by blast
  ultimately show ?thesis using run by blast
qed

end
