(* ===== verification/Start_Up.thy ===== *)
theory Start_Up
  imports Web_Setup Pod_Index Reconciler_Stability
begin

text \<open>
  The start of the process (\<open>cmd/main.go\<close>): the flags and the options of the manager, the construction of the GitHub
  client, of the reconciler and of the web server, the probes, and the start of the manager. Each step ends the
  process when it fails. \<open>main\<close> shows which steps were done and in which order; what the libraries,
  the environment variables and the files answer is a parameter.
\<close>

section \<open>Flags and options\<close>

record flags =
  metricsAddr :: string
  probeAddr :: string
  serverAddr :: string
  workflowMysqlAddr :: string
  githubKey :: string
  argocdKey :: string
  enableLeaderElection :: bool
  secureMetrics :: bool
  enableHTTP2 :: bool

definition default_flags :: flags where
  "default_flags = \<lparr>metricsAddr = ''0'', probeAddr = '':8081'', serverAddr = '':2846'', workflowMysqlAddr = ''/argo'',
     githubKey = ''/github-key/private-key.pem'', argocdKey = ''/argocd-jettisonproj-secret/password'',
     enableLeaderElection = False, secureMetrics = True, enableHTTP2 = False\<rparr>"

record tls_config =
  NextProtos :: "string list"

definition disableHTTP2 :: "tls_config \<Rightarrow> tls_config" where
  "disableHTTP2 c = c\<lparr>NextProtos := [''http/1.1'']\<rparr>"

definition tls_opts :: "flags \<Rightarrow> (tls_config \<Rightarrow> tls_config) list" where
  "tls_opts fl = (if \<not> enableHTTP2 fl then [disableHTTP2] else [])"

text \<open>\<open>FilterProvider\<close> is either absent or the one for authentication and authorisation.\<close>

record metrics_options =
  mo_BindAddress :: string
  SecureServing :: bool
  mo_TLSOpts :: "(tls_config \<Rightarrow> tls_config) list"
  WithAuthenticationAndAuthorization :: bool

record manager_options =
  Metrics :: metrics_options
  Webhook_TLSOpts :: "(tls_config \<Rightarrow> tls_config) list"
  HealthProbeBindAddress :: string
  LeaderElection :: bool
  LeaderElectionID :: string

definition manager_options_of :: "flags \<Rightarrow> manager_options" where
  "manager_options_of fl =
     \<lparr>Metrics = \<lparr>mo_BindAddress = metricsAddr fl, SecureServing = secureMetrics fl, mo_TLSOpts = tls_opts fl,
        WithAuthenticationAndAuthorization = secureMetrics fl\<rparr>,
      Webhook_TLSOpts = tls_opts fl, HealthProbeBindAddress = probeAddr fl, LeaderElection = enableLeaderElection fl,
      LeaderElectionID = ''3d4b3c11.jettisonproj.io''\<rparr>"

section \<open>The reconciler\<close>

record controller =
  Named :: string
  For :: string
  Owns :: "string list"

definition flow_controller :: controller where
  "flow_controller = \<lparr>Named = ''flow'', For = ''Flow'', Owns = [''Sensor'']\<rparr>"

definition new_reconciler :: "'w \<Rightarrow> 'w rstate" where
  "new_reconciler w = \<lparr>r_World = w, SyncedNamespaces = {}, SyncedProjects = {}, SyncedRepos = Map.empty\<rparr>"

section \<open>The steps of main\<close>

record main_env =
  me_GetConfig :: "go_error option"
  me_NewManager :: "manager_options \<Rightarrow> go_error option"
  me_IndexField :: "string \<Rightarrow> (resource \<Rightarrow> string list) \<Rightarrow> go_error option"
  me_NewTransport :: "int \<Rightarrow> string \<Rightarrow> go_error + unit"
  me_Complete :: "controller \<Rightarrow> go_error option"
  me_AddHealthzCheck :: "string \<Rightarrow> go_error option"
  me_AddReadyzCheck :: "string \<Rightarrow> go_error option"
  me_Getenv :: "string \<Rightarrow> string"
  me_Gvk :: "go_type \<Rightarrow> go_error + string \<times> string"
  me_Setup :: setup_env
  me_Start :: "go_error option"

text \<open>What was done, in order. \<open>ManagerStarted\<close> is the call, which returns when the manager has stopped.\<close>

datatype main_effect =
    ManagerCreated manager_options
  | PodsIndexed string "resource \<Rightarrow> string list"
  | ControllerAdded controller
  | CheckAdded string
  | WebServer setup_effect
  | TemplateSyncStarted
  | ManagerStarted

record main_state =
  done_so_far :: "main_effect list"
  m_Web :: "flow_web_server option"

definition started :: "main_effect list \<Rightarrow> (main_state, unit) op" where
  "started xs st = (Inr (), st\<lparr>done_so_far := done_so_far st @ xs\<rparr>)"

text \<open>
  A step with an error is logged and ends the process with the status 1; a panic ends it too.
\<close>

definition create_manager :: "flags \<Rightarrow> main_env \<Rightarrow> (main_state, unit) op" where
  "create_manager fl env =
     bind_op (must ''unable to get kubeconfig'' (me_GetConfig env)) (\<lambda>_.
     bind_op (must ''unable to create manager'' (me_NewManager env (manager_options_of fl))) (\<lambda>_.
     bind_op (started [ManagerCreated (manager_options_of fl)]) (\<lambda>_.
     bind_op (must ''unable to add pod indexer to manager'' (me_IndexField env JETTISON_APP_INDEX_KEY app_labels)) (\<lambda>_.
     started [PodsIndexed JETTISON_APP_INDEX_KEY app_labels]))))"

definition add_controller :: "flags \<Rightarrow> main_env \<Rightarrow> (main_state, unit) op" where
  "add_controller fl env =
     bind_op (pure_res (wrap ''unable to create GitHub client'' (map_sum Failed id
       (GetGitHubClient (me_NewTransport env) (\<lambda>t. ()) (githubKey fl))))) (\<lambda>_.
     bind_op (must ''unable to create controller'' (me_Complete env flow_controller)) (\<lambda>_.
     started [ControllerAdded flow_controller]))"

definition add_checks :: "main_env \<Rightarrow> (main_state, unit) op" where
  "add_checks env =
     bind_op (must ''unable to set up health check'' (me_AddHealthzCheck env ''healthz'')) (\<lambda>_.
     bind_op (started [CheckAdded ''healthz'']) (\<lambda>_.
     bind_op (must ''unable to set up ready check'' (me_AddReadyzCheck env ''readyz'')) (\<lambda>_.
     started [CheckAdded ''readyz''])))"

definition podNamespaceEnvVar :: string where
  "podNamespaceEnvVar = ''POD_NAMESPACE''"

definition podNameEnvVar :: string where
  "podNameEnvVar = ''POD_NAME''"

definition read_pod_env :: "main_env \<Rightarrow> (main_state, string \<times> string) op" where
  "read_pod_env env = (let controllerPodNamespace = me_Getenv env podNamespaceEnvVar;
       controllerPodName = me_Getenv env podNameEnvVar in
     if controllerPodNamespace = [] then throw (Failed (Errorf (''pod namespace env var not set: '' @ podNamespaceEnvVar)))
     else if controllerPodName = [] then throw (Failed (Errorf (''pod name env var not set: '' @ podNameEnvVar)))
     else return (controllerPodNamespace, controllerPodName))"

definition new_web_server :: "flags \<Rightarrow> main_env \<Rightarrow> string \<Rightarrow> string \<Rightarrow> flow_web_server" where
  "new_web_server fl env ns name =
     \<lparr>BindAddress = serverAddr fl, WorkflowMysqlAddress = workflowMysqlAddr fl, ArgoCDKey = argocdKey fl,
      scheme_gvk = me_Gvk env, ControllerPodNamespace = ns, ControllerPodName = name,
      flowWatcher = None, mysqlWorkflowsMap = Map.empty, syncClient = None\<rparr>"

definition add_web_server :: "flags \<Rightarrow> main_env \<Rightarrow> string \<Rightarrow> string \<Rightarrow> (main_state, unit) op" where
  "add_web_server fl env ns name st =
     (let s = new_web_server fl env ns name in
      case SetupWithManager (me_Setup env) s \<lparr>web = s, effects = []\<rparr> of
        (r, x) \<Rightarrow> (wrap ''unable to create webserver'' r,
          st\<lparr>done_so_far := done_so_far st @ map WebServer (effects x), m_Web := Some (web x)\<rparr>))"

definition run_manager :: "main_env \<Rightarrow> (main_state, unit) op" where
  "run_manager env =
     bind_op (started [TemplateSyncStarted]) (\<lambda>_.
     bind_op (started [ManagerStarted]) (\<lambda>_.
     must ''problem running manager'' (me_Start env)))"

definition main :: "flags \<Rightarrow> main_env \<Rightarrow> (main_state, unit) op" where
  "main fl env =
     bind_op (create_manager fl env) (\<lambda>_.
     bind_op (add_controller fl env) (\<lambda>_.
     bind_op (add_checks env) (\<lambda>_.
     bind_op (read_pod_env env) (\<lambda>(ns, name).
     bind_op (add_web_server fl env ns name) (\<lambda>_.
     run_manager env)))))"

definition main_start :: main_state where
  "main_start = \<lparr>done_so_far = [], m_Web = None\<rparr>"

section \<open>Every step\<close>

lemma started_eval [simp]: "started xs st = (Inr (), st\<lparr>done_so_far := done_so_far st @ xs\<rparr>)"
  by (simp add: started_def)

lemma create_manager_Inr:
  "create_manager fl env st = (Inr (), st') \<longleftrightarrow> me_GetConfig env = None \<and> me_NewManager env (manager_options_of fl) = None
     \<and> me_IndexField env JETTISON_APP_INDEX_KEY app_labels = None
     \<and> st' = st\<lparr>done_so_far := done_so_far st
         @ [ManagerCreated (manager_options_of fl), PodsIndexed JETTISON_APP_INDEX_KEY app_labels]\<rparr>"
  by (auto simp: create_manager_def)

lemma add_controller_Inr:
  "add_controller fl env st = (Inr (), st') \<longleftrightarrow> me_NewTransport env appId (githubKey fl) = Inr ()
     \<and> me_Complete env flow_controller = None
     \<and> st' = st\<lparr>done_so_far := done_so_far st @ [ControllerAdded flow_controller]\<rparr>"
  by (auto simp: add_controller_def GetGitHubClient_def split: sum.splits)

lemma add_checks_Inr:
  "add_checks env st = (Inr (), st') \<longleftrightarrow> me_AddHealthzCheck env ''healthz'' = None \<and> me_AddReadyzCheck env ''readyz'' = None
     \<and> st' = st\<lparr>done_so_far := done_so_far st @ [CheckAdded ''healthz'', CheckAdded ''readyz'']\<rparr>"
  by (auto simp: add_checks_def)

lemma read_pod_env_Inr:
  "read_pod_env env st = (Inr (ns, name), st') \<longleftrightarrow> ns = me_Getenv env ''POD_NAMESPACE'' \<and> name = me_Getenv env ''POD_NAME''
     \<and> ns \<noteq> [] \<and> name \<noteq> [] \<and> st' = st"
  by (auto simp: read_pod_env_def Let_def podNamespaceEnvVar_def podNameEnvVar_def)

lemma add_web_server_Inr:
  "add_web_server fl env ns name st = (Inr (), st') \<longleftrightarrow> (\<exists>workflows cred.
     setup_ready (me_Setup env) (new_web_server fl env ns name) workflows cred
     \<and> st' = st\<lparr>done_so_far := done_so_far st @ map WebServer (setup_effects (new_web_server fl env ns name)),
         m_Web := Some (ready_web (new_web_server fl env ns name) workflows cred (new_web_server fl env ns name))\<rparr>)"
proof -
  let ?s = "new_web_server fl env ns name"
  have eq: "add_web_server fl env ns name st = (Inr (), st') \<longleftrightarrow>
      (\<exists>x. SetupWithManager (me_Setup env) ?s \<lparr>web = ?s, effects = []\<rparr> = (Inr (), x)
        \<and> st' = st\<lparr>done_so_far := done_so_far st @ map WebServer (effects x), m_Web := Some (web x)\<rparr>)"
    by (auto simp: add_web_server_def Let_def split: prod.splits)
  show ?thesis
    unfolding eq SetupWithManager_Inr
    by (rule iffI; elim exE conjE; hypsubst) (rule exI, rule exI, rule conjI, assumption, simp, rule exI, rule conjI,
        rule exI, rule exI, rule conjI, assumption, rule refl, simp)
qed

text \<open>Before the last step neither the manager nor the synchronisation of the templates is started.\<close>

definition not_running :: "main_state \<Rightarrow> bool" where
  "not_running st \<longleftrightarrow> TemplateSyncStarted \<notin> set (done_so_far st) \<and> ManagerStarted \<notin> set (done_so_far st)"

lemma keeps_must [keeps_rules]: "keeps P (must msg err)"
  by (simp add: must_def keeps_rules)

lemma keeps_started [keeps_rules]:
  "TemplateSyncStarted \<notin> set xs \<Longrightarrow> ManagerStarted \<notin> set xs \<Longrightarrow> keeps not_running (started xs)"
  by (simp add: keeps_def not_running_def)

lemma keeps_add_web_server: "keeps not_running (add_web_server fl env ns name)"
  by (auto simp: keeps_def not_running_def add_web_server_def Let_def split: prod.splits)

definition prepare :: "flags \<Rightarrow> main_env \<Rightarrow> (main_state, unit) op" where
  "prepare fl env =
     bind_op (create_manager fl env) (\<lambda>_. bind_op (add_controller fl env) (\<lambda>_. bind_op (add_checks env) (\<lambda>_.
     bind_op (read_pod_env env) (\<lambda>(ns, name). add_web_server fl env ns name))))"

lemma main_prepare: "main fl env st = bind_op (prepare fl env) (\<lambda>_. run_manager env) st"
  by (auto simp: main_def prepare_def bind_op_def split: prod.splits sum.splits)

lemma keeps_prepare: "keeps not_running (prepare fl env)"
  unfolding prepare_def create_manager_def add_controller_def add_checks_def read_pod_env_def Let_def
  by (intro keeps_rules) (auto intro: keeps_rules keeps_add_web_server)

section \<open>Properties\<close>

text \<open>All that must go well before the manager is started.\<close>

definition web_server_of :: "flags \<Rightarrow> main_env \<Rightarrow> flow_web_server" where
  "web_server_of fl env = new_web_server fl env (me_Getenv env ''POD_NAMESPACE'') (me_Getenv env ''POD_NAME'')"

definition main_ready :: "flags \<Rightarrow> main_env \<Rightarrow> resource list \<Rightarrow> string \<Rightarrow> bool" where
  "main_ready fl env workflows cred \<longleftrightarrow>
     me_GetConfig env = None \<and> me_NewManager env (manager_options_of fl) = None
     \<and> me_IndexField env ''metadata.labels.jettison-app'' app_labels = None
     \<and> me_NewTransport env 1682308 (githubKey fl) = Inr ()
     \<and> me_Complete env flow_controller = None
     \<and> me_AddHealthzCheck env ''healthz'' = None \<and> me_AddReadyzCheck env ''readyz'' = None
     \<and> me_Getenv env ''POD_NAMESPACE'' \<noteq> [] \<and> me_Getenv env ''POD_NAME'' \<noteq> []
     \<and> setup_ready (me_Setup env) (web_server_of fl env) workflows cred"

definition done_before_start :: "flags \<Rightarrow> main_env \<Rightarrow> main_effect list" where
  "done_before_start fl env =
     [ManagerCreated (manager_options_of fl), PodsIndexed ''metadata.labels.jettison-app'' app_labels,
      ControllerAdded flow_controller, CheckAdded ''healthz'', CheckAdded ''readyz'']
     @ map WebServer (setup_effects (web_server_of fl env))"

lemma prepare_Inr:
  "prepare fl env main_start = (Inr (), st) \<longleftrightarrow> (\<exists>workflows cred. main_ready fl env workflows cred
     \<and> st = \<lparr>done_so_far = done_before_start fl env,
         m_Web = Some (ready_web (web_server_of fl env) workflows cred (web_server_of fl env))\<rparr>)"
  unfolding prepare_def main_ready_def done_before_start_def web_server_of_def
  by (auto simp: create_manager_Inr add_controller_Inr add_checks_Inr read_pod_env_Inr add_web_server_Inr main_start_def
      JETTISON_APP_INDEX_KEY_def appId_def)

text \<open>
  C18. The manager is started exactly when every step before it went well: the cluster is configured, the manager and its index of pods exist, the
  GitHub client and the controller could be made, both probes are registered, both variables of the pod are set, and the web
  server is set up (archive loaded, credential read and trimmed, listening, added to the manager, its run loop
  started and all five informers watched). Then the effects are these, in this order, with the synchronisation of the templates
  started last, and the process ends without error exactly if the manager does. Otherwise the process ends
  with an error or a panic, and neither the manager nor the synchronisation was started.
\<close>

theorem main_starts:
  assumes "main fl env main_start = (r, st)"
  shows "if \<exists>workflows cred. main_ready fl env workflows cred
    then (\<exists>workflows cred. main_ready fl env workflows cred
        \<and> m_Web st = Some (ready_web (web_server_of fl env) workflows cred (web_server_of fl env)))
      \<and> done_so_far st = done_before_start fl env @ [TemplateSyncStarted, ManagerStarted]
      \<and> (r = Inr () \<longleftrightarrow> me_Start env = None)
    else r \<noteq> Inr () \<and> TemplateSyncStarted \<notin> set (done_so_far st) \<and> ManagerStarted \<notin> set (done_so_far st)"
proof -
  obtain r1 st1 where p: "prepare fl env main_start = (r1, st1)" by fastforce
  show ?thesis
  proof (cases r1)
    case (Inl f)
    then have "r = Inl f" "st = st1" using assms p by (simp_all add: main_prepare bind_op_eval)
    moreover have "not_running st1"
      using keepsD [OF keeps_prepare p] by (simp add: not_running_def main_start_def)
    moreover have "\<nexists>workflows cred. main_ready fl env workflows cred"
      using prepare_Inr [of fl env] p Inl by fastforce
    ultimately show ?thesis by (simp add: not_running_def)
  next
    case (Inr u)
    then obtain workflows cred where ready: "main_ready fl env workflows cred"
      and st1: "st1 = \<lparr>done_so_far = done_before_start fl env,
        m_Web = Some (ready_web (web_server_of fl env) workflows cred (web_server_of fl env))\<rparr>"
      using prepare_Inr [of fl env st1] p by auto
    have "run_manager env st1 = (r, st)"
      using assms p Inr by (simp add: main_prepare bind_op_eval)
    then have "done_so_far st = done_before_start fl env @ [TemplateSyncStarted, ManagerStarted]" "m_Web st = m_Web st1"
      "r = Inr () \<longleftrightarrow> me_Start env = None"
      by (auto simp: run_manager_def bind_op_def must_def or_failed_def st1 split: option.splits)
    with ready st1 show ?thesis by auto
  qed
qed

text \<open>Everything works, but the variable for the name of the pod may be missing.\<close>

definition sample_main :: "string \<Rightarrow> main_env" where
  "sample_main podName = \<lparr>me_GetConfig = None, me_NewManager = (\<lambda>opts. None), me_IndexField = (\<lambda>k f. None), me_NewTransport = (\<lambda>app key. Inr ()),
     me_Complete = (\<lambda>ctl. None), me_AddHealthzCheck = (\<lambda>n. None), me_AddReadyzCheck = (\<lambda>n. None),
     me_Getenv = (\<lambda>v. if v = ''POD_NAMESPACE'' then ''jettison'' else podName),
     me_Gvk = (\<lambda>t. Inr (''v1'', ''Kind'')), me_Setup = sample_setup, me_Start = None\<rparr>"

lemma main_starts_witness:
  "\<exists>r st r' st'. main default_flags (sample_main ''controller-0'') main_start = (r, st) \<and> r = Inr ()
     \<and> ManagerStarted \<in> set (done_so_far st)
     \<and> main default_flags (sample_main []) main_start = (r', st') \<and> r' \<noteq> Inr () \<and> ManagerStarted \<notin> set (done_so_far st')"
proof -
  obtain r st r' st' where runs: "main default_flags (sample_main ''controller-0'') main_start = (r, st)"
    "main default_flags (sample_main []) main_start = (r', st')" by (metis surj_pair)
  have "main_ready default_flags (sample_main ''controller-0'') [persisted ''archived'' (archived_run ''v1'')] (''pw'' @ newline)"
    using sample_ready
    by (simp add: main_ready_def sample_main_def web_server_of_def new_web_server_def default_flags_def setup_ready_def
        sample_web_def sample_setup_def informers_ready_def)
  then have "\<exists>workflows cred. main_ready default_flags (sample_main ''controller-0'') workflows cred" by blast
  moreover have "me_Start (sample_main ''controller-0'') = None" by (simp add: sample_main_def)
  moreover have "\<nexists>workflows cred. main_ready default_flags (sample_main []) workflows cred"
    by (simp add: main_ready_def sample_main_def)
  ultimately show ?thesis
    using main_starts [OF runs(1)] main_starts [OF runs(2)] runs by auto
qed

text \<open>
  The reconciler that \<open>main\<close> makes has recorded nothing yet, and whatever flows it is asked to reconcile, in whatever order and
  with whatever outcome, its sets stay truthful: the hypothesis of the reconciler's theorems holds in every state it gets into.
\<close>

fun controller_runs ::
  "'w kube_client \<Rightarrow> 'w github_client \<Rightarrow> (workflow \<Rightarrow> go_error + string) \<Rightarrow> volume decoder \<Rightarrow> volume_mount decoder
     \<Rightarrow> (string \<times> string) list \<Rightarrow> 'w rstate \<Rightarrow> 'w rstate" where
  "controller_runs c gh marshal dv dm [] st = st"
| "controller_runs c gh marshal dv dm (req # reqs) st =
     controller_runs c gh marshal dv dm reqs (snd (Reconcile c gh marshal dv dm req st))"

lemma controller_truthful:
  assumes "lawful_objects c K F" and "lawful_flows c K F" and "github_apart gh K F"
  shows "truthful c K (controller_runs c gh marshal dv dm reqs (new_reconciler w))"
proof -
  have "truthful c K (controller_runs c gh marshal dv dm reqs st)" if "truthful c K st" for st
    using that
  proof (induction reqs arbitrary: st)
    case (Cons req reqs)
    obtain r st' where run: "Reconcile c gh marshal dv dm req st = (r, st')" by fastforce
    with Reconcile_sound [OF assms run, of "{}"] Cons show ?case by (simp add: sound_def)
  qed simp
  moreover have "truthful c K (new_reconciler w)"
    by (simp add: truthful_def claimed_def new_reconciler_def repo_synced_def)
  ultimately show ?thesis by blast
qed

text \<open>Unless the flag asks for it, HTTP/2 is switched off for the metrics and the webhook server.\<close>

lemma http2_disabled:
  assumes "\<not> enableHTTP2 fl" and "opts = manager_options_of fl"
  shows "NextProtos (fold id (Webhook_TLSOpts opts) c) = [''http/1.1'']"
    and "NextProtos (fold id (mo_TLSOpts (Metrics opts)) c) = [''http/1.1'']"
  using assms by (simp_all add: manager_options_of_def tls_opts_def disableHTTP2_def)

end
