(* ===== verification/Watcher_Steps.thy ===== *)
theory Watcher_Steps
  imports Flow_Watcher
begin

text \<open>
  How the goroutines of the watcher run: what one goroutine does alone, how two of them meet on an
  unbuffered channel, what clients and informers start, and the states that are reached. Every
  interleaving is a sequence of steps. An executable scheduler replays a given one.
\<close>

section \<open>What one goroutine does alone\<close>

text \<open>
  The outcome of a step that the goroutine does not choose: the order of a map, the result of a
  library call, or which of two ready cases a select takes (\<open>Other\<close> is the second).
\<close>

datatype answer =
    Only
  | Other
  | Order "web_conn list"
  | Listed "go_error + resource list"
  | GotPod "resource lookup"
  | Opened "unit lookup"
  | Called "go_error option"
  | ReadSock "read_result"
  | LogEvent log_event

text \<open>
  The program left, the goroutines started and the state after a step; None when the goroutine is
  blocked, or cannot get that answer. A send on a closed channel panics, also as a case of a
  select, where it counts as ready; a second close panics; a receive from a closed channel returns.
\<close>

fun act :: "flow_watcher \<Rightarrow> answer \<Rightarrow> shared \<Rightarrow> prog \<Rightarrow> (prog \<times> prog list \<times> shared) option" where
  "act w a s (CheckCtx c p q) = (if a = Only then Some (if c \<in> cancelled s then p else q, [], s) else None)"
| "act w a s (SelectSend c m p) =
     (if a = Only \<and> c \<in> cancelled s then Some (p, [], s)
      else if a = Other \<and> c \<in> closed s then Some (Crash, [], s) else None)"
| "act w a s (Receive c f) = (if a = Only \<and> c \<in> closed s then Some (f None, [], s) else None)"
| "act w a s (Go p q) = (if a = Only then Some (q, [p], s) else None)"
| "act w a s (Update f p) = (if a = Only then Some (p, [], f s) else None)"
| "act w a s (Look f) = (if a = Only then Some (f s, [], s) else None)"
| "act w a s (Range f g) = (case a of
     Order cs \<Rightarrow> if distinct cs \<and> set cs = f s then Some (g cs, [], s) else None | _ \<Rightarrow> None)"
| "act w a s (Close c p) =
     (if a \<noteq> Only then None
      else if c \<in> closed s then Some (Crash, [], s) else Some (p, [], s\<lparr>closed := insert c (closed s)\<rparr>))"
| "act w a s (List q f) = (case a of Listed r \<Rightarrow> Some (f r, [], s) | _ \<Rightarrow> None)"
| "act w a s (GetPod d f) = (case a of GotPod r \<Rightarrow> Some (f r, [], s) | _ \<Rightarrow> None)"
| "act w a s (OpenLogs d f) = (case a of Opened r \<Rightarrow> Some (f r, [], s) | _ \<Rightarrow> None)"
| "act w a s (Call x f) = (case a of Called r \<Rightarrow> Some (f r, [], s) | _ \<Rightarrow> None)"
| "act w a s (ReadSocket c f) = (case a of ReadSock r \<Rightarrow> Some (f r, [], s) | _ \<Rightarrow> None)"
| "act w a s (NextLog c f) = (case a of
     LogEvent e \<Rightarrow> if e = LogDone \<and> c \<notin> cancelled s then None else Some (f e, [], s) | _ \<Rightarrow> None)"
| "act w a s (Again l) = (if a = Only then Some (round_of w l, [], s) else None)"
| "act w a s _ = None"

section \<open>Steps of the process\<close>

text \<open>
  The goroutines ever started, the run loop first, and the shared state. The rest observes the
  process: the connections made, the requests that the run loop accepted, the messages that it
  handed to writers itself, and the messages written to sockets.
\<close>

record process =
  procs :: "prog list"
  state :: shared
  known :: "web_conn set"
  served :: "request list"
  handed :: "(web_conn \<times> message) list"
  written :: "(web_conn \<times> message) list"

definition start :: process where
  "start = \<lparr>procs = [AtSelect],
     state = \<lparr>conns = {}, connSubscriptions = Map.empty, cancelled = {}, closed = {}\<rparr>,
     known = {}, served = [], handed = [], written = []\<rparr>"

definition informer_events :: "flow_watcher \<Rightarrow> prog set" where
  "informer_events w = range (OnAdd w) \<union> range (case_prod (OnUpdate w)) \<union> range (OnDelete w)
     \<union> range (onSubscriptionResourceAdd w) \<union> range (case_prod (onSubscriptionResourceUpdate w))
     \<union> range (onSubscriptionResourceDelete w)"

text \<open>
  A panic of any goroutine ends the process. Informer events are taken in any order and number,
  each in a goroutine of its own.
\<close>

inductive step :: "flow_watcher \<Rightarrow> process \<Rightarrow> process \<Rightarrow> bool" for w where
  alone: "Crash \<notin> set (procs x) \<Longrightarrow> i < length (procs x) \<Longrightarrow>
    act w a (state x) (procs x ! i) = Some (p, ps, s) \<Longrightarrow>
    step w x (x\<lparr>procs := (procs x)[i := p] @ ps, state := s\<rparr>)"
| fork: "Crash \<notin> set (procs x) \<Longrightarrow> i < length (procs x) \<Longrightarrow> procs x ! i = Fork ps p \<Longrightarrow>
    step w x (x\<lparr>procs := (procs x)[i := Join {length (procs x) ..< length (procs x) + length ps} p] @ ps\<rparr>)"
| join: "Crash \<notin> set (procs x) \<Longrightarrow> i < length (procs x) \<Longrightarrow> procs x ! i = Join I p \<Longrightarrow>
    (\<forall>j \<in> I. procs x ! j = Return) \<Longrightarrow> step w x (x\<lparr>procs := (procs x)[i := p]\<rparr>)"
| accept: "Crash \<notin> set (procs x) \<Longrightarrow> i < length (procs x) \<Longrightarrow> j < length (procs x) \<Longrightarrow>
    procs x ! i = Send q p \<Longrightarrow> procs x ! j = AtSelect \<Longrightarrow>
    step w x (x\<lparr>procs := (procs x)[i := p, j := serve w q], served := served x @ [q]\<rparr>)"
| deliver: "Crash \<notin> set (procs x) \<Longrightarrow> i < length (procs x) \<Longrightarrow> j < length (procs x) \<Longrightarrow>
    procs x ! i = SelectSend c m p \<Longrightarrow> procs x ! j = Receive c f \<Longrightarrow> c \<notin> closed (state x) \<Longrightarrow>
    step w x (x\<lparr>procs := (procs x)[i := p, j := f (Some m)],
      handed := (if i = 0 then handed x @ [(c, m)] else handed x)\<rparr>)"
| socket: "Crash \<notin> set (procs x) \<Longrightarrow> i < length (procs x) \<Longrightarrow> procs x ! i = WriteSocket c m f \<Longrightarrow>
    step w x (x\<lparr>procs := (procs x)[i := f e],
      written := (if e = None then written x @ [(c, m)] else written x)\<rparr>)"
| connect: "Crash \<notin> set (procs x) \<Longrightarrow> n \<notin> conn_Id ` known x \<Longrightarrow>
    step w x (x\<lparr>procs := procs x @ [handleWebsocket upgraded rawQuery n],
      known := insert \<lparr>conn_Id = n, isAuxWs = (rawQuery = auxWsFlag)\<rparr> (known x)\<rparr>)"
| event: "Crash \<notin> set (procs x) \<Longrightarrow> p \<in> informer_events w \<Longrightarrow>
    step w x (x\<lparr>procs := procs x @ [p]\<rparr>)"

definition reachable :: "flow_watcher \<Rightarrow> process \<Rightarrow> bool" where
  "reachable w = (step w)\<^sup>*\<^sup>* start"

section \<open>A scheduler\<close>

datatype choice =
    Alone nat answer
  | Forks nat
  | Joins nat
  | Accept nat nat
  | Deliver nat nat
  | Write nat "go_error option"
  | Connect string nat
  | Event resource
  | PodEvent resource

fun perform :: "flow_watcher \<Rightarrow> choice \<Rightarrow> process \<Rightarrow> process option" where
  "perform w (Alone i a) x =
     (if i < length (procs x) then
        (case act w a (state x) (procs x ! i) of
           None \<Rightarrow> None
         | Some (p, ps, s) \<Rightarrow> Some (x\<lparr>procs := (procs x)[i := p] @ ps, state := s\<rparr>))
      else None)"
| "perform w (Forks i) x =
     (if i < length (procs x) then
        (case procs x ! i of
           Fork ps p \<Rightarrow> Some (x\<lparr>procs :=
             (procs x)[i := Join {length (procs x) ..< length (procs x) + length ps} p] @ ps\<rparr>)
         | _ \<Rightarrow> None)
      else None)"
| "perform w (Joins i) x =
     (if i < length (procs x) then
        (case procs x ! i of
           Join I p \<Rightarrow> if \<forall>j \<in> I. procs x ! j = Return then Some (x\<lparr>procs := (procs x)[i := p]\<rparr>) else None
         | _ \<Rightarrow> None)
      else None)"
| "perform w (Accept i j) x =
     (if i < length (procs x) \<and> j < length (procs x) then
        (case (procs x ! i, procs x ! j) of
           (Send q p, AtSelect) \<Rightarrow>
             Some (x\<lparr>procs := (procs x)[i := p, j := serve w q], served := served x @ [q]\<rparr>)
         | _ \<Rightarrow> None)
      else None)"
| "perform w (Deliver i j) x =
     (if i < length (procs x) \<and> j < length (procs x) then
        (case (procs x ! i, procs x ! j) of
           (SelectSend c m p, Receive c' f) \<Rightarrow>
             if c' = c \<and> c \<notin> closed (state x) then
               Some (x\<lparr>procs := (procs x)[i := p, j := f (Some m)],
                 handed := (if i = 0 then handed x @ [(c, m)] else handed x)\<rparr>)
             else None
         | _ \<Rightarrow> None)
      else None)"
| "perform w (Write i e) x =
     (if i < length (procs x) then
        (case procs x ! i of
           WriteSocket c m f \<Rightarrow> Some (x\<lparr>procs := (procs x)[i := f e],
             written := (if e = None then written x @ [(c, m)] else written x)\<rparr>)
         | _ \<Rightarrow> None)
      else None)"
| "perform w (Connect rawQuery n) x =
     (if n \<notin> conn_Id ` known x then
        Some (x\<lparr>procs := procs x @ [handleWebsocket True rawQuery n],
          known := insert \<lparr>conn_Id = n, isAuxWs = (rawQuery = auxWsFlag)\<rparr> (known x)\<rparr>)
      else None)"
| "perform w (Event r) x = Some (x\<lparr>procs := procs x @ [OnAdd w r]\<rparr>)"
| "perform w (PodEvent r) x = Some (x\<lparr>procs := procs x @ [onSubscriptionResourceAdd w r]\<rparr>)"

fun schedule :: "flow_watcher \<Rightarrow> choice list \<Rightarrow> process \<Rightarrow> process option" where
  "schedule w [] x = Some x"
| "schedule w (ch # chs) x =
     (if Crash \<in> set (procs x) then None
      else case perform w ch x of None \<Rightarrow> None | Some y \<Rightarrow> schedule w chs y)"

lemma perform_step:
  assumes "perform w ch x = Some y" and "Crash \<notin> set (procs x)"
  shows "step w x y"
proof (cases ch)
  case (Alone i a)
  with assms show ?thesis by (auto split: if_splits option.splits intro: step.alone)
next
  case (Forks i)
  with assms show ?thesis by (auto split: if_splits prog.splits intro: step.fork)
next
  case (Joins i)
  with assms show ?thesis by (auto split: if_splits prog.splits intro: step.join)
next
  case (Accept i j)
  with assms show ?thesis by (auto split: if_splits prog.splits intro: step.accept)
next
  case (Deliver i j)
  with assms show ?thesis
    using step.deliver [of x i j] by (auto split: if_splits prog.splits)
next
  case (Write i e)
  with assms show ?thesis using step.socket [of x i _ _ _ w e] by (auto split: if_splits prog.splits)
next
  case (Connect rawQuery n)
  with assms show ?thesis by (auto split: if_splits intro: step.connect)
next
  case (Event r)
  with assms show ?thesis by (auto simp: informer_events_def intro!: step.event)
next
  case (PodEvent r)
  with assms show ?thesis by (auto simp: informer_events_def intro!: step.event)
qed

lemma schedule_steps: "schedule w chs x = Some y \<Longrightarrow> (step w)\<^sup>*\<^sup>* x y"
  by (induction chs arbitrary: x)
     (auto split: if_splits option.splits dest: perform_step intro: converse_rtranclp_into_rtranclp)

lemma schedule_reachable: "schedule w chs start = Some x \<Longrightarrow> reachable w x"
  by (simp add: reachable_def schedule_steps)

end
