(* ===== verification/Watcher_Invariant.thy ===== *)
theory Watcher_Invariant
  imports Watcher_Steps
begin

text \<open>
  What holds in every reachable state of the watcher: only the run loop changes the shared state,
  it never ends and never panics, and the connections it has registered are either live or
  cancelled with a closed channel.
\<close>

section \<open>Invariants of a transition system\<close>

locale inductive_invariant =
  fixes init :: 's and move :: "'s \<Rightarrow> 's \<Rightarrow> bool" and inv :: "'s \<Rightarrow> bool"
  assumes init_inv: "inv init"
    and move_inv: "move x y \<Longrightarrow> inv x \<Longrightarrow> inv y"
begin

lemma moves_inv: "move\<^sup>*\<^sup>* x y \<Longrightarrow> inv x \<Longrightarrow> inv y"
  by (induction rule: rtranclp_induct) (auto intro: move_inv)

lemma reach_inv: "move\<^sup>*\<^sup>* init x \<Longrightarrow> inv x"
  using moves_inv init_inv by blast

end

section \<open>Goroutines other than the run loop\<close>

text \<open>A property of all nodes of a program, those of the programs that it starts included.\<close>

primrec every :: "(prog \<Rightarrow> bool) \<Rightarrow> prog \<Rightarrow> bool" where
  "every P Return \<longleftrightarrow> P Return"
| "every P Crash \<longleftrightarrow> P Crash"
| "every P AtSelect \<longleftrightarrow> P AtSelect"
| "every P (Send q p) \<longleftrightarrow> P (Send q p) \<and> every P p"
| "every P (CheckCtx c p q) \<longleftrightarrow> P (CheckCtx c p q) \<and> every P p \<and> every P q"
| "every P (SelectSend c m p) \<longleftrightarrow> P (SelectSend c m p) \<and> every P p"
| "every P (Receive c f) \<longleftrightarrow> P (Receive c f) \<and> (\<forall>r. every P (f r))"
| "every P (Go p q) \<longleftrightarrow> P (Go p q) \<and> every P p \<and> every P q"
| "every P (Fork ps q) \<longleftrightarrow> P (Fork ps q) \<and> list_all id (map (every P) ps) \<and> every P q"
| "every P (Join I p) \<longleftrightarrow> P (Join I p) \<and> every P p"
| "every P (Update f p) \<longleftrightarrow> P (Update f p) \<and> every P p"
| "every P (Look f) \<longleftrightarrow> P (Look f) \<and> (\<forall>s. every P (f s))"
| "every P (Range f g) \<longleftrightarrow> P (Range f g) \<and> (\<forall>cs. every P (g cs))"
| "every P (Close c p) \<longleftrightarrow> P (Close c p) \<and> every P p"
| "every P (List q f) \<longleftrightarrow> P (List q f) \<and> (\<forall>r. every P (f r))"
| "every P (GetPod d f) \<longleftrightarrow> P (GetPod d f) \<and> (\<forall>r. every P (f r))"
| "every P (OpenLogs d f) \<longleftrightarrow> P (OpenLogs d f) \<and> (\<forall>r. every P (f r))"
| "every P (Call x f) \<longleftrightarrow> P (Call x f) \<and> (\<forall>r. every P (f r))"
| "every P (ReadSocket c f) \<longleftrightarrow> P (ReadSocket c f) \<and> (\<forall>r. every P (f r))"
| "every P (WriteSocket c m f) \<longleftrightarrow> P (WriteSocket c m f) \<and> (\<forall>r. every P (f r))"
| "every P (NextLog c f) \<longleftrightarrow> P (NextLog c f) \<and> (\<forall>r. every P (f r))"
| "every P (Again l) \<longleftrightarrow> P (Again l)"

lemma every_here: "every P p \<Longrightarrow> P p"
  by (cases p) auto

text \<open>
  A client goroutine neither reads nor changes the state of the run loop, does not serve requests
  and makes no connection.
\<close>

fun client_node :: "prog \<Rightarrow> bool" where
  "client_node AtSelect = False"
| "client_node (Send (Register c) p) = False"
| "client_node (Fork ps q) = False"
| "client_node (Join I p) = False"
| "client_node (Update f p) = False"
| "client_node (Look f) = False"
| "client_node (Range f g) = False"
| "client_node (Close c p) = False"
| "client_node p = True"

abbreviation client :: "prog \<Rightarrow> bool" where
  "client \<equiv> every client_node"

text \<open>A program that never receives from the write channel of \<open>c\<close>.\<close>

fun no_receive_node :: "web_conn \<Rightarrow> prog \<Rightarrow> bool" where
  "no_receive_node c (Receive c' f) \<longleftrightarrow> c' \<noteq> c"
| "no_receive_node c (Again l) \<longleftrightarrow> l \<noteq> WriteLoop c"
| "no_receive_node c p = True"

abbreviation no_receive :: "web_conn \<Rightarrow> prog \<Rightarrow> bool" where
  "no_receive c \<equiv> every (no_receive_node c)"

named_theorems goroutine_defs \<open>the programs that goroutines run\<close>

lemmas [goroutine_defs] =
  sendConn_def sendWebErrorAndClose_def sendWebError_def sendInitialFlows_def sendInitialApplications_def
  sendInitialRollouts_def sendInitialWorkflows_def writeConn_def readConn_def backfillSchema_def
  notify_all_def notify_subscriptions_def OnAdd_def OnUpdate_def OnDelete_def onSubscriptionResourceAdd_def
  onSubscriptionResourceUpdate_def onSubscriptionResourceDelete_def sendLogLines_def close_stream_def
  streamLogLines_def stream_log_round_def sendPod_def handleContainerLogMessage_def reader_panic_def
  handleResourceSubscriptionMessage_def syncApplication_def handleSyncApplicationMessage_def
  retryRollout_def handleRetryRolloutMessage_def write_round_def read_round_def

lemma client_round: "client (round_of w l)"
  by (cases l)
     (auto simp: goroutine_defs split: option.splits sum.splits lookup.splits read_result.splits log_event.splits
       client_message.splits prod.splits)

lemma no_receive_round: "l \<noteq> WriteLoop c \<Longrightarrow> no_receive c (round_of w l)"
  by (cases l)
     (auto simp: goroutine_defs split: option.splits sum.splits lookup.splits read_result.splits log_event.splits
       client_message.splits prod.splits)

lemma client_event: "p \<in> informer_events w \<Longrightarrow> client p"
  by (auto simp: informer_events_def goroutine_defs split: sum.splits)

lemma no_receive_event: "p \<in> informer_events w \<Longrightarrow> no_receive c p"
  by (auto simp: informer_events_def goroutine_defs split: sum.splits)

lemma client_senders:
  "client (writeConn c)" "client (readConn c)" "client (sendInitialFlows w c)"
  "client (sendInitialApplications w c)" "client (sendInitialRollouts w c)" "client (sendInitialWorkflows w c)"
  by (auto simp: goroutine_defs split: sum.splits)

lemma act_client:
  assumes "client p" and "act w a s p = Some (p', ps, s')"
  shows "client p' \<and> list_all client ps \<and> s' = s"
  using assms client_round by (cases p) (auto split: if_splits answer.splits)

lemma act_no_receive:
  assumes "client p" and "no_receive c p" and "act w a s p = Some (p', ps, s')"
  shows "no_receive c p' \<and> list_all (no_receive c) ps"
  using assms no_receive_round by (cases p) (auto split: if_splits answer.splits)

section \<open>The run loop\<close>

text \<open>
  Between two requests, with \<open>R\<close> the connections registered so far: every one of them is either
  live or cancelled, and the channels closed are those of the cancelled ones.
\<close>

definition quiet :: "web_conn set \<Rightarrow> shared \<Rightarrow> bool" where
  "quiet R s \<longleftrightarrow> conns s \<inter> cancelled s = {} \<and> conns s \<union> cancelled s = R \<and> closed s = cancelled s"

text \<open>The run loop at a program and a state can only go on to a quiet state at its select.\<close>

primrec safe :: "web_conn set \<Rightarrow> prog \<Rightarrow> shared \<Rightarrow> bool" where
  "safe R Return s \<longleftrightarrow> False"
| "safe R Crash s \<longleftrightarrow> False"
| "safe R AtSelect s \<longleftrightarrow> quiet R s"
| "safe R (Send q p) s \<longleftrightarrow> (\<exists>c. q = Unregister c) \<and> safe R p s"
| "safe R (CheckCtx c p q) s \<longleftrightarrow> (if c \<in> cancelled s then safe R p s else safe R q s)"
| "safe R (SelectSend c m p) s \<longleftrightarrow> c \<notin> closed s \<and> safe R p s"
| "safe R (Receive c f) s \<longleftrightarrow> False"
| "safe R (Go p q) s \<longleftrightarrow> client p \<and> safe R q s"
| "safe R (Fork ps q) s \<longleftrightarrow> list_all client ps \<and> safe R q s"
| "safe R (Join I p) s \<longleftrightarrow> safe R p s"
| "safe R (Update f p) s \<longleftrightarrow> safe R p (f s)"
| "safe R (Look f) s \<longleftrightarrow> safe R (f s) s"
| "safe R (Range f g) s \<longleftrightarrow> (\<forall>cs. distinct cs \<longrightarrow> set cs = f s \<longrightarrow> safe R (g cs) s)"
| "safe R (Close c p) s \<longleftrightarrow> c \<notin> closed s \<and> safe R p (s\<lparr>closed := insert c (closed s)\<rparr>)"
| "safe R (List q f) s \<longleftrightarrow> (\<forall>r. safe R (f r) s)"
| "safe R (GetPod d f) s \<longleftrightarrow> False"
| "safe R (OpenLogs d f) s \<longleftrightarrow> False"
| "safe R (Call x f) s \<longleftrightarrow> False"
| "safe R (ReadSocket c f) s \<longleftrightarrow> False"
| "safe R (WriteSocket c m f) s \<longleftrightarrow> False"
| "safe R (NextLog c f) s \<longleftrightarrow> False"
| "safe R (Again l) s \<longleftrightarrow> False"

lemma safe_sendConn: "closed s \<subseteq> cancelled s \<Longrightarrow> safe R k s \<Longrightarrow> safe R (sendConn c m k) s"
  by (auto simp: sendConn_def)

lemma quiet_closed: "quiet R s \<Longrightarrow> closed s \<subseteq> cancelled s"
  by (simp add: quiet_def)

lemma safe_send_each: "quiet R s \<Longrightarrow> safe R (send_each cs m AtSelect) s"
  by (induction cs) (auto intro!: safe_sendConn quiet_closed)

lemma quiet_subscriptions [simp]:
  "quiet R (make_subscription sub s) \<longleftrightarrow> quiet R s" "quiet R (add_subscriber sub c s) \<longleftrightarrow> quiet R s"
  "quiet R (remove_subscriber sub c s) \<longleftrightarrow> quiet R s"
  by (simp_all add: quiet_def make_subscription_def add_subscriber_def remove_subscriber_def)

lemma safe_notify_each: "quiet R s \<Longrightarrow> safe R (notify_each sub cs m AtSelect) s"
  by (induction cs arbitrary: s) (auto intro!: safe_sendConn dest: quiet_closed)

lemma safe_subscribe_pods: "quiet R s \<Longrightarrow> safe R (subscribe_pods c sub AtSelect) s"
  by (auto simp: subscribe_pods_def sendWebErrorAndClose_def split: sum.splits intro!: safe_sendConn
      dest: quiet_closed)

text \<open>Every request is served safely, a registration when the connection is new.\<close>

lemma safe_serve:
  assumes "quiet R s" and "\<And>c. q = Register c \<Longrightarrow> c \<notin> R \<and> R' = insert c R"
    and "(\<And>c. q \<noteq> Register c) \<Longrightarrow> R' = R"
  shows "safe R' (serve w q) s"
proof (cases q)
  case (Register c)
  with assms show ?thesis
    by (auto simp: serve_def registerConn_def Let_def client_senders register_conn_def quiet_def)
next
  case (Unregister c)
  with assms have "R' = R" by simp
  with Unregister assms(1) show ?thesis
    by (auto simp: serve_def unregisterConn_def cancel_conn_def delete_conn_def quiet_def)
next
  case (Subscribe c sub)
  with assms have "R' = R" by simp
  with Subscribe assms(1) show ?thesis
    by (auto simp: serve_def registerResourceSubscription_def safe_subscribe_pods)
next
  case (NotifyAll m)
  with assms show ?thesis by (auto simp: serve_def safe_send_each)
next
  case (NotifySubscriptions r)
  with assms show ?thesis by (auto simp: serve_def notifyResourceSubscriptions_def safe_notify_each)
qed

lemma act_safe:
  assumes "safe R p s" and "act w a s p = Some (p', ps, s')"
  shows "safe R p' s' \<and> list_all client ps"
  using assms by (cases p) (auto split: if_splits answer.splits)

section \<open>The process\<close>

definition registered :: "process \<Rightarrow> web_conn set" where
  "registered x = {c. Register c \<in> set (served x)}"

definition registers :: "web_conn \<Rightarrow> prog \<Rightarrow> bool" where
  "registers c p \<longleftrightarrow> p = Send (Register c) Return"

text \<open>A goroutine of a request that registers a new connection, or a client.\<close>

definition outside :: "web_conn set \<Rightarrow> prog \<Rightarrow> bool" where
  "outside new p \<longleftrightarrow> client p \<or> (\<exists>c \<in> new. registers c p)"

definition registered_once :: "prog list \<Rightarrow> bool" where
  "registered_once ps \<longleftrightarrow> (\<forall>i j c. i < length ps \<longrightarrow> j < length ps \<longrightarrow>
     registers c (ps ! i) \<longrightarrow> registers c (ps ! j) \<longrightarrow> i = j)"

definition watcher_inv :: "process \<Rightarrow> bool" where
  "watcher_inv x \<longleftrightarrow> procs x \<noteq> [] \<and> safe (registered x) (procs x ! 0) (state x)
     \<and> (\<forall>i. 0 < i \<longrightarrow> i < length (procs x) \<longrightarrow> outside (known x - registered x) (procs x ! i))
     \<and> registered_once (procs x) \<and> registered x \<subseteq> known x"

lemma client_not_registers: "client p \<Longrightarrow> \<not> registers c p"
  by (auto simp: registers_def)

lemma safe_not_registers: "safe R p s \<Longrightarrow> \<not> registers c p"
  by (auto simp: registers_def)

lemma registered_once_update:
  assumes "registered_once ps" and "\<And>c. \<not> registers c p" and "\<And>c q. q \<in> set qs \<Longrightarrow> \<not> registers c q"
  shows "registered_once (ps[i := p] @ qs)"
  unfolding registered_once_def
proof (intro allI impI)
  fix k l c assume k: "k < length (ps[i := p] @ qs)" "registers c ((ps[i := p] @ qs) ! k)"
    and l: "l < length (ps[i := p] @ qs)" "registers c ((ps[i := p] @ qs) ! l)"
  have old: "m < length ps \<and> registers c (ps ! m)"
    if "m < length (ps[i := p] @ qs)" "registers c ((ps[i := p] @ qs) ! m)" for m
    using that assms(2) assms(3) [OF nth_mem]
    by (cases "m = i") (auto simp: nth_append split: if_splits)
  show "k = l" using old [OF k] old [OF l] assms(1) by (auto simp: registered_once_def)
qed

lemma registered_once_append:
  assumes "registered_once ps" and "\<And>c i. i < length ps \<Longrightarrow> registers c p \<Longrightarrow> \<not> registers c (ps ! i)"
  shows "registered_once (ps @ [p])"
  using assms unfolding registered_once_def by (auto simp: nth_append less_Suc_eq)

lemma watcher_inv_start: "watcher_inv start"
  by (auto simp: watcher_inv_def start_def registered_def quiet_def registered_once_def)

lemma outside_mono: "outside new p \<Longrightarrow> new \<subseteq> new' \<Longrightarrow> outside new' p"
  by (auto simp: outside_def)

text \<open>Every step of a goroutine other than the run loop leaves the state as it is.\<close>

lemma watcher_inv_client:
  assumes inv: "watcher_inv x" and i: "i \<noteq> 0" "i < length (procs x)"
    and p: "client p" and ps: "list_all client ps"
    and y: "procs y = (procs x)[i := p] @ ps" "state y = state x" "served y = served x" "known y = known x"
  shows "watcher_inv y"
proof -
  have "registered y = registered x" by (simp add: registered_def y)
  moreover have "outside (known x - registered x) (procs y ! j)" if "0 < j" "j < length (procs y)" for j
    using that inv p ps i
    by (auto simp: y watcher_inv_def nth_append nth_list_update outside_def list_all_length split: if_splits)
  moreover have "registered_once (procs y)"
    using inv p ps unfolding y
    by (intro registered_once_update) (auto simp: watcher_inv_def list_all_iff dest: client_not_registers)
  ultimately show ?thesis using inv i by (auto simp: watcher_inv_def y nth_append)
qed

lemma watcher_inv_run:
  assumes inv: "watcher_inv x" and p: "safe (registered x) p (state y)" and ps: "list_all client ps"
    and y: "procs y = (procs x)[0 := p] @ ps" "served y = served x" "known y = known x"
  shows "watcher_inv y"
proof -
  have "registered y = registered x" by (simp add: registered_def y)
  moreover have "outside (known x - registered x) (procs y ! j)" if "0 < j" "j < length (procs y)" for j
    using that inv ps
    by (auto simp: y watcher_inv_def nth_append nth_list_update outside_def list_all_length split: if_splits)
  moreover have "registered_once (procs y)"
    using inv p ps unfolding y
    by (intro registered_once_update)
       (auto simp: watcher_inv_def list_all_iff dest: client_not_registers safe_not_registers)
  moreover have "procs y ! 0 = p" using inv by (cases "procs x") (auto simp: watcher_inv_def y)
  ultimately show ?thesis using inv p by (auto simp: watcher_inv_def y)
qed

text \<open>A new connection or an informer event adds a goroutine.\<close>

lemma watcher_inv_append:
  assumes inv: "watcher_inv x" and p: "outside (K - registered x) p" and K: "known x \<subseteq> K"
    and new: "\<And>c i. registers c p \<Longrightarrow> i < length (procs x) \<Longrightarrow> \<not> registers c (procs x ! i)"
    and y: "procs y = procs x @ [p]" "state y = state x" "served y = served x" "known y = K"
  shows "watcher_inv y"
proof -
  have "registered y = registered x" by (simp add: registered_def y)
  moreover have "outside (K - registered x) (procs y ! j)" if j: "0 < j" "j < length (procs y)" for j
  proof (cases "j < length (procs x)")
    case True
    with inv j have "outside (known x - registered x) (procs x ! j)" by (simp add: watcher_inv_def)
    moreover have "known x - registered x \<subseteq> K - registered x" using K by blast
    ultimately show ?thesis using True by (simp add: y nth_append outside_mono)
  next
    case False
    with j p show ?thesis by (simp add: y nth_append)
  qed
  moreover have "registered_once (procs y)"
    using inv new unfolding y by (intro registered_once_append) (auto simp: watcher_inv_def)
  ultimately show ?thesis using inv K by (auto simp: watcher_inv_def y nth_append)
qed

lemma outside_registers: "outside new p \<Longrightarrow> registers c p \<Longrightarrow> c \<in> new"
  by (auto simp: outside_def registers_def)

lemma watcher_inv_registers:
  assumes "watcher_inv x" and "i < length (procs x)" and "registers c (procs x ! i)"
  shows "i \<noteq> 0 \<and> c \<in> known x \<and> c \<notin> registered x"
proof -
  have i: "i \<noteq> 0"
  proof
    assume "i = 0"
    with assms show False by (auto simp: watcher_inv_def dest: safe_not_registers)
  qed
  with assms have "outside (known x - registered x) (procs x ! i)" by (simp add: watcher_inv_def)
  from outside_registers [OF this assms(3)] i show ?thesis by simp
qed

lemma watcher_inv_outside:
  assumes "watcher_inv x" and "0 < i" and "i < length (procs x)"
  shows "client (procs x ! i) \<or> (\<exists>c. procs x ! i = Send (Register c) Return)"
proof -
  have "outside (known x - registered x) (procs x ! i)" using assms by (simp add: watcher_inv_def)
  then show ?thesis by (auto simp: outside_def registers_def)
qed

text \<open>The run loop accepts a request.\<close>

lemma watcher_inv_accept:
  assumes inv: "watcher_inv x" and i: "i < length (procs x)" "procs x ! i = Send q p"
    and j: "j < length (procs x)" "procs x ! j = AtSelect"
  shows "watcher_inv (x\<lparr>procs := (procs x)[i := p, j := serve w q], served := served x @ [q]\<rparr>)"
    (is "watcher_inv ?y")
proof -
  have j0: "j = 0"
  proof (rule ccontr)
    assume "j \<noteq> 0"
    then show False using watcher_inv_outside [OF inv _ j(1)] j(2) by auto
  qed
  have i0: "0 < i" using i j j0 by (cases i) auto
  have quiet: "quiet (registered x) (state x)" using inv j j0 by (auto simp: watcher_inv_def)
  have R: "registered ?y = registered x \<union> {c. q = Register c}" by (auto simp: registered_def)
  have q: "c \<in> known x \<and> c \<notin> registered x \<and> p = Return" if "q = Register c" for c
  proof -
    have "registers c (procs x ! i)" using watcher_inv_outside [OF inv i0 i(1)] i(2) that
      by (auto simp: registers_def)
    with watcher_inv_registers [OF inv i(1)] i(2) show ?thesis by (auto simp: registers_def)
  qed
  have p: "client p"
    using watcher_inv_outside [OF inv i0 i(1)] i(2) q by (cases q) auto
  have safe: "safe (registered ?y) (serve w q) (state x)"
    by (rule safe_serve [OF quiet]) (use q R in auto)
  have others: "procs ?y ! k = (if k = i then p else procs x ! k)" if "0 < k" "k < length (procs x)" for k
    using that j0 by (simp add: nth_list_update)
  have kept: "outside (known x - registered ?y) (procs ?y ! k)" if k: "0 < k" "k < length (procs x)" for k
  proof (cases "k = i")
    case False
    have "outside (known x - registered x) (procs x ! k)" using inv k by (simp add: watcher_inv_def)
    moreover have "\<not> registers c (procs x ! k)" if "q = Register c" for c
      using inv that k i False watcher_inv_outside [OF inv i0 i(1)]
      by (fastforce simp: watcher_inv_def registered_once_def registers_def)
    ultimately show ?thesis using others [OF k] False R by (auto simp: outside_def)
  qed (use p others [OF k] in \<open>simp add: outside_def\<close>)
  have "registered_once ((procs x)[i := p, 0 := serve w q] @ [])"
    using inv p safe
    by (intro registered_once_update registered_once_update [of _ _ "[]", simplified])
       (auto simp: watcher_inv_def dest: client_not_registers safe_not_registers)
  moreover have "procs ?y ! 0 = serve w q" using inv j j0 by (simp add: nth_list_update)
  moreover have "registered ?y \<subseteq> known ?y" using inv q R by (auto simp: watcher_inv_def)
  ultimately show ?thesis using kept safe j0 inv by (auto simp: watcher_inv_def)
qed

lemma watcher_inv_update:
  assumes inv: "watcher_inv x" and i: "i < length (procs x)"
    and run: "i = 0 \<Longrightarrow> safe (registered x) p s"
    and others: "i \<noteq> 0 \<Longrightarrow> client p \<and> s = state x" and ps: "list_all client ps"
    and y: "procs y = (procs x)[i := p] @ ps" "state y = s" "served y = served x" "known y = known x"
  shows "watcher_inv y"
proof (cases "i = 0")
  case True
  with watcher_inv_run [OF inv _ ps, of p y] run y show ?thesis by simp
next
  case False
  with watcher_inv_client [OF inv _ i _ ps, of p y] others y show ?thesis by simp
qed

text \<open>Only the run loop forks, and it does nothing that only clients do.\<close>

lemma watcher_inv_only_run:
  assumes "watcher_inv x" and "i < length (procs x)" and "procs x ! i = p" and "\<not> client p" and "\<nexists>c. registers c p"
  shows "i = 0 \<and> safe (registered x) p (state x)"
  using assms watcher_inv_outside [of x i] unfolding watcher_inv_def registers_def by (cases "i = 0") auto

lemma watcher_inv_only_client:
  assumes "watcher_inv x" and "i < length (procs x)" and "procs x ! i = p" and "\<not> safe (registered x) p (state x)"
    and "\<nexists>c. registers c p"
  shows "i \<noteq> 0 \<and> client p"
  using assms watcher_inv_outside [of x i] unfolding watcher_inv_def registers_def by (cases "i = 0") auto

lemma watcher_inv_act:
  assumes inv: "watcher_inv x" and i: "i < length (procs x)"
    and act: "act w a (state x) (procs x ! i) = Some (p, ps, s)"
  shows "watcher_inv (x\<lparr>procs := (procs x)[i := p] @ ps, state := s\<rparr>)"
proof (cases "i = 0")
  case True
  with inv have "safe (registered x) (procs x ! i) (state x)" by (simp add: watcher_inv_def)
  from act_safe [OF this act] show ?thesis
    using True by (intro watcher_inv_update [OF inv i]) auto
next
  case False
  with act watcher_inv_outside [OF inv _ i] have "client (procs x ! i)" by auto
  from act_client [OF this act] show ?thesis
    using False by (intro watcher_inv_update [OF inv i]) auto
qed

text \<open>A message has been taken.\<close>

lemma watcher_inv_sent:
  assumes inv: "watcher_inv x" and i: "i < length (procs x)" and p: "procs x ! i = SelectSend c m p"
  shows "watcher_inv (x\<lparr>procs := (procs x)[i := p]\<rparr>)"
proof (rule watcher_inv_update [OF inv i, where ps = "[]"])
  assume "i = 0"
  with p inv show "safe (registered x) p (state x)" by (auto simp: watcher_inv_def)
next
  assume "i \<noteq> 0"
  with watcher_inv_outside [OF inv, of i] i p show "client p \<and> state x = state x" by auto
qed simp_all

lemma watcher_inv_step: "step w x y \<Longrightarrow> watcher_inv x \<Longrightarrow> watcher_inv y"
proof (induction rule: step.induct)
  case (alone x i a p ps s)
  then show ?case by (intro watcher_inv_act)
next
  case (fork x i ps p)
  then have "i = 0 \<and> safe (registered x) (Fork ps p) (state x)"
    by (intro watcher_inv_only_run) (auto simp: registers_def)
  with fork show ?case
    by (intro watcher_inv_update [OF \<open>watcher_inv x\<close> \<open>i < length (procs x)\<close>, where ps = ps and s = "state x"]) auto
next
  case (join x i I p)
  then have "i = 0 \<and> safe (registered x) (Join I p) (state x)"
    by (intro watcher_inv_only_run) (auto simp: registers_def)
  with join show ?case
    by (intro watcher_inv_update [OF \<open>watcher_inv x\<close> \<open>i < length (procs x)\<close>, where ps = "[]" and s = "state x"]) auto
next
  case (accept x i j q p)
  then show ?case by (intro watcher_inv_accept)
next
  case (deliver x i j c m p f)
  from deliver(3,5) \<open>watcher_inv x\<close> have j: "j \<noteq> 0 \<and> client (Receive c f)"
    by (intro watcher_inv_only_client) (auto simp: registers_def)
  let ?y = "x\<lparr>procs := (procs x)[i := p]\<rparr>"
  have y: "watcher_inv ?y" using deliver by (intro watcher_inv_sent)
  have "j < length (procs ?y)" using deliver by simp
  then show ?case
    by (rule watcher_inv_update [OF y, where ps = "[]" and p = "f (Some m)" and s = "state x"]) (use j in simp_all)
next
  case (socket x i c m f e)
  then have "i \<noteq> 0 \<and> client (WriteSocket c m f)"
    by (intro watcher_inv_only_client) (auto simp: registers_def)
  with socket show ?case
    by (intro watcher_inv_update [OF \<open>watcher_inv x\<close> \<open>i < length (procs x)\<close>, where ps = "[]" and s = "state x"]) auto
next
  case (connect x n rawQuery upgraded)
  let ?c = "\<lparr>conn_Id = n, isAuxWs = (rawQuery = auxWsFlag)\<rparr>"
  have "?c \<notin> known x" using connect(2) by force
  moreover from this connect(3) have "?c \<notin> registered x" by (auto simp: watcher_inv_def)
  moreover have "\<not> registers c (procs x ! i)"
    if "registers c (handleWebsocket upgraded rawQuery n)" "i < length (procs x)" for c i
    using watcher_inv_registers [OF connect(3) that(2), of c] that(1) \<open>?c \<notin> known x\<close>
    by (auto simp: handleWebsocket_def registers_def split: if_splits)
  ultimately show ?case
    by (intro watcher_inv_append [OF connect(3)]) (auto simp: outside_def handleWebsocket_def registers_def)
next
  case (event x p)
  then have "client p" by (simp add: client_event)
  with event show ?case
    by (intro watcher_inv_append [OF \<open>watcher_inv x\<close>]) (auto simp: outside_def dest: client_not_registers)
qed

interpretation watcher: inductive_invariant start "step w" watcher_inv for w
  by unfold_locales (auto intro: watcher_inv_start watcher_inv_step)

lemma reachable_inv: "reachable w x \<Longrightarrow> watcher_inv x"
  unfolding reachable_def by (rule watcher.reach_inv)

lemma reachable_steps: "reachable w x \<Longrightarrow> (step w)\<^sup>*\<^sup>* x y \<Longrightarrow> reachable w y"
  by (simp add: reachable_def)

end
