(* ===== verification/Watcher_Wedge.thy ===== *)
theory Watcher_Wedge
  imports Watcher_Invariant
begin

text \<open>
  States of the watcher in which the run loop waits for a goroutine that waits for the run loop:
  no request is ever served again.
\<close>

definition is_send :: "prog \<Rightarrow> bool" where
  "is_send p \<longleftrightarrow> (\<exists>q k. p = Send q k)"

text \<open>
  The run loop sends to itself; or it waits for a sender of initial resources that sends to it; or
  it hands a message to a live connection while no goroutine can receive it before the run loop
  accepts a request.
\<close>

definition wedged :: "process \<Rightarrow> bool" where
  "wedged x \<longleftrightarrow> is_send (procs x ! 0)
     \<or> (\<exists>I p i. procs x ! 0 = Join I p \<and> i \<in> I \<and> i < length (procs x) \<and> is_send (procs x ! i))
     \<or> (\<exists>c m p. procs x ! 0 = SelectSend c m p \<and> c \<notin> cancelled (state x) \<and> c \<notin> closed (state x)
         \<and> (\<forall>j. 0 < j \<longrightarrow> j < length (procs x) \<longrightarrow> no_receive c (procs x ! j) \<or> is_send (procs x ! j)))"

lemma is_send_simps [simp]:
  "is_send (Send q k)" "\<not> is_send AtSelect" "\<not> is_send (Join I p)" "\<not> is_send (Receive c f)"
  "\<not> is_send (SelectSend c m p)" "\<not> is_send (WriteSocket c m g)" "\<not> is_send (Fork ps p)" "\<not> is_send Return"
  by (simp_all add: is_send_def)

lemma act_not_send: "act w a s p = Some r \<Longrightarrow> \<not> is_send p"
  by (auto simp: is_send_def)

lemma wedged_not_select: "wedged x \<Longrightarrow> procs x ! 0 \<noteq> AtSelect"
  by (auto simp: wedged_def)

lemma wedged_blocks_run: "wedged x \<Longrightarrow> act w a (state x) (procs x ! 0) = None"
  by (auto simp: wedged_def is_send_def)

text \<open>What a step of other goroutines has to keep for the wedge to stay.\<close>

lemma wedged_kept:
  assumes "wedged x" and "procs y ! 0 = procs x ! 0" and "state y = state x"
    and "length (procs x) \<le> length (procs y)"
    and "\<And>j. j < length (procs x) \<Longrightarrow> is_send (procs x ! j) \<Longrightarrow> procs y ! j = procs x ! j"
    and "\<And>c j. (\<And>k. 0 < k \<Longrightarrow> k < length (procs x) \<Longrightarrow> no_receive c (procs x ! k) \<or> is_send (procs x ! k)) \<Longrightarrow>
       0 < j \<Longrightarrow> j < length (procs y) \<Longrightarrow> no_receive c (procs y ! j) \<or> is_send (procs y ! j)"
  shows "wedged y"
proof -
  consider (self) "is_send (procs x ! 0)"
    | (join) I p i where "procs x ! 0 = Join I p" "i \<in> I" "i < length (procs x)" "is_send (procs x ! i)"
    | (hand) c m p where "procs x ! 0 = SelectSend c m p" "c \<notin> cancelled (state x)" "c \<notin> closed (state x)"
        "\<And>j. 0 < j \<Longrightarrow> j < length (procs x) \<Longrightarrow> no_receive c (procs x ! j) \<or> is_send (procs x ! j)"
    using assms(1) by (auto simp: wedged_def)
  then show ?thesis
  proof cases
    case self
    with assms(2) show ?thesis by (simp add: wedged_def)
  next
    case join
    then have "procs y ! i = procs x ! i" "i < length (procs y)" using assms(4,5) by auto
    with join assms(2) show ?thesis by (auto simp: wedged_def)
  next
    case hand
    with assms(2,3) assms(6) [of c] show ?thesis by (simp add: wedged_def)
  qed
qed

text \<open>One goroutine other than the run loop makes a step, and starts others.\<close>

lemma wedged_update:
  assumes x: "wedged x" and i: "0 < i" "i < length (procs x)" "\<not> is_send (procs x ! i)"
    and p: "\<And>c. no_receive c (procs x ! i) \<Longrightarrow> no_receive c p \<and> list_all (no_receive c) ps"
    and y: "procs y = (procs x)[i := p] @ ps" "state y = state x"
  shows "wedged y \<and> procs y ! 0 = procs x ! 0"
proof -
  have run: "procs y ! 0 = procs x ! 0" using i by (auto simp: y nth_append)
  moreover have "wedged y"
  proof (rule wedged_kept [OF x run y(2)])
    show "length (procs x) \<le> length (procs y)" by (simp add: y)
    show "procs y ! j = procs x ! j" if "j < length (procs x)" "is_send (procs x ! j)" for j
      using that i by (auto simp: y nth_append nth_list_update)
    fix c j assume all: "\<And>k. 0 < k \<Longrightarrow> k < length (procs x) \<Longrightarrow> no_receive c (procs x ! k) \<or> is_send (procs x ! k)"
      and j: "0 < j" "j < length (procs y)"
    have "no_receive c (procs x ! i)" using all [of i] i by simp
    with p have "no_receive c p" "list_all (no_receive c) ps" by auto
    with all [of j] j show "no_receive c (procs y ! j) \<or> is_send (procs y ! j)"
      by (cases "j = i") (auto simp: y nth_append list_all_length)
  qed
  ultimately show ?thesis by simp
qed

lemma wedged_append:
  assumes x: "wedged x" and x0: "procs x \<noteq> []" and p: "\<And>c. no_receive c p"
    and y: "procs y = procs x @ [p]" "state y = state x"
  shows "wedged y \<and> procs y ! 0 = procs x ! 0"
proof -
  have run: "procs y ! 0 = procs x ! 0" using x0 by (simp add: y nth_append)
  moreover have "wedged y"
    by (rule wedged_kept [OF x run y(2)]) (auto simp: y nth_append less_Suc_eq p)
  ultimately show ?thesis by simp
qed

lemma wedged_step:
  assumes "step w x y" and "watcher_inv x" and "wedged x"
  shows "wedged y \<and> procs y ! 0 = procs x ! 0 \<and> state y = state x \<and> served y = served x \<and> handed y = handed x"
  using assms
proof (induction rule: step.induct)
  case (alone x i a p ps s)
  then have i: "0 < i" using wedged_blocks_run [of x w a] by (intro Nat.gr0I) auto
  moreover have c: "client (procs x ! i)" using watcher_inv_outside [OF alone(4) i alone(2)] alone(3) by auto
  moreover have "no_receive c p \<and> list_all (no_receive c) ps" if "no_receive c (procs x ! i)" for c
    using act_no_receive [OF c that alone(3)] .
  moreover have "s = state x" using act_client [OF c alone(3)] by simp
  ultimately show ?case
    using wedged_update [OF alone(5) i alone(2) act_not_send [OF alone(3)], of p ps
      "x\<lparr>procs := (procs x)[i := p] @ ps, state := s\<rparr>"] by simp
next
  case (fork x i ps p)
  then have "i = 0" using watcher_inv_only_run [of x i "Fork ps p"] by (auto simp: registers_def)
  with fork show ?case by (auto simp: wedged_def)
next
  case (join x i I p)
  then have "i = 0" using watcher_inv_only_run [of x i "Join I p"] by (auto simp: registers_def)
  with join show ?case by (auto simp: wedged_def)
next
  case (accept x i j q p)
  then have "j = 0" using watcher_inv_only_run [of x j AtSelect] by (auto simp: registers_def)
  with accept wedged_not_select [of x] show ?case by simp
next
  case (deliver x i j c m p f)
  have j: "0 < j" "client (Receive c f)"
    using watcher_inv_only_client [OF deliver(7,3,5)] by (auto simp: registers_def)
  have i: "0 < i"
  proof (rule ccontr)
    assume "\<not> 0 < i"
    with deliver(4,8) have "\<forall>k. 0 < k \<longrightarrow> k < length (procs x) \<longrightarrow> no_receive c (procs x ! k) \<or> is_send (procs x ! k)"
      by (auto simp: wedged_def)
    with j(1) deliver(3,5) show False by (metis every_here is_send_simps(4) no_receive_node.simps(1))
  qed
  let ?z = "x\<lparr>procs := (procs x)[i := p]\<rparr>"
  have z: "wedged ?z \<and> procs ?z ! 0 = procs x ! 0"
    by (rule wedged_update [OF deliver(8) i deliver(2), where ps = "[]"]) (simp_all add: deliver(4))
  have ij: "i \<noteq> j" using deliver(4,5) by auto
  have "wedged (x\<lparr>procs := (procs x)[i := p, j := f (Some m)],
      handed := (if i = 0 then handed x @ [(c, m)] else handed x)\<rparr>)
    \<and> (procs x)[i := p, j := f (Some m)] ! 0 = procs ?z ! 0"
    using wedged_update [OF conjunct1 [OF z] j(1), of "f (Some m)" "[]" "x\<lparr>procs := (procs x)[i := p, j := f (Some m)],
      handed := (if i = 0 then handed x @ [(c, m)] else handed x)\<rparr>"] deliver(3,5) ij by simp
  with z i show ?case by simp
next
  case (socket x i c m f e)
  then have i: "0 < i" using watcher_inv_only_client [of x i "WriteSocket c m f"] by (auto simp: registers_def)
  with socket show ?case
    using wedged_update [OF \<open>wedged x\<close> i, of "f e" "[]" "x\<lparr>procs := (procs x)[i := f e],
      written := (if e = None then written x @ [(c, m)] else written x)\<rparr>"] by simp
next
  case (connect x n rawQuery upgraded)
  have "no_receive c (handleWebsocket upgraded rawQuery n)" for c by (simp add: handleWebsocket_def)
  with connect wedged_append [OF connect(4), of "handleWebsocket upgraded rawQuery n"] show ?case
    by (simp add: watcher_inv_def nth_append)
next
  case (event x p)
  with wedged_append [OF event(4), of p] show ?case by (simp add: watcher_inv_def no_receive_event nth_append)
qed

lemma wedged_steps:
  assumes "(step w)\<^sup>*\<^sup>* x y" and "watcher_inv x" and "wedged x"
  shows "wedged y \<and> procs y ! 0 = procs x ! 0 \<and> state y = state x \<and> served y = served x \<and> handed y = handed x"
  using assms
proof (induction rule: rtranclp_induct)
  case (step y z)
  then have "watcher_inv y" by (blast intro: watcher.moves_inv)
  with wedged_step [OF step(2)] step show ?case by simp
qed simp

end
