(* ===== verification/Watcher_Delivery.thy ===== *)
theory Watcher_Delivery
  imports Watcher_Invariant
begin

text \<open>
  What the run loop does with one request: a predicate transformer over its program, sound for the
  steps of the process between the request and the next, and its value for the two notifications.
\<close>

section \<open>The run loop up to its next request\<close>

text \<open>
  \<open>ends Q p s h\<close>: whenever the run loop goes on from \<open>p\<close> at state \<open>s\<close>, having handed \<open>h\<close> to writers,
  and comes back to its select, the state and what it has handed satisfy \<open>Q\<close>.
\<close>

primrec ends :: "(shared \<Rightarrow> (web_conn \<times> message) list \<Rightarrow> bool) \<Rightarrow> prog \<Rightarrow> shared \<Rightarrow> (web_conn \<times> message) list \<Rightarrow> bool" where
  "ends Q Return s h \<longleftrightarrow> False"
| "ends Q Crash s h \<longleftrightarrow> False"
| "ends Q AtSelect s h \<longleftrightarrow> Q s h"
| "ends Q (Send q p) s h \<longleftrightarrow> True"
| "ends Q (CheckCtx c p q) s h \<longleftrightarrow> (if c \<in> cancelled s then ends Q p s h else ends Q q s h)"
| "ends Q (SelectSend c m p) s h \<longleftrightarrow>
     (c \<in> cancelled s \<longrightarrow> ends Q p s h) \<and> (c \<notin> closed s \<longrightarrow> ends Q p s (h @ [(c, m)])) \<and> c \<notin> closed s"
| "ends Q (Receive c f) s h \<longleftrightarrow> False"
| "ends Q (Go p q) s h \<longleftrightarrow> ends Q q s h"
| "ends Q (Fork ps q) s h \<longleftrightarrow> ends Q q s h"
| "ends Q (Join I p) s h \<longleftrightarrow> ends Q p s h"
| "ends Q (Update f p) s h \<longleftrightarrow> ends Q p (f s) h"
| "ends Q (Look f) s h \<longleftrightarrow> ends Q (f s) s h"
| "ends Q (Range f g) s h \<longleftrightarrow> (\<forall>cs. distinct cs \<longrightarrow> set cs = f s \<longrightarrow> ends Q (g cs) s h)"
| "ends Q (Close c p) s h \<longleftrightarrow> c \<notin> closed s \<and> ends Q p (s\<lparr>closed := insert c (closed s)\<rparr>) h"
| "ends Q (List q f) s h \<longleftrightarrow> (\<forall>r. ends Q (f r) s h)"
| "ends Q (GetPod d f) s h \<longleftrightarrow> False"
| "ends Q (OpenLogs d f) s h \<longleftrightarrow> False"
| "ends Q (Call x f) s h \<longleftrightarrow> False"
| "ends Q (ReadSocket c f) s h \<longleftrightarrow> False"
| "ends Q (WriteSocket c m f) s h \<longleftrightarrow> False"
| "ends Q (NextLog c f) s h \<longleftrightarrow> False"
| "ends Q (Again l) s h \<longleftrightarrow> False"

definition run_ends :: "(shared \<Rightarrow> (web_conn \<times> message) list \<Rightarrow> bool) \<Rightarrow> process \<Rightarrow> bool" where
  "run_ends Q x \<longleftrightarrow> ends Q (procs x ! 0) (state x) (handed x)"

lemma act_ends:
  "ends Q p s h \<Longrightarrow> act w a s p = Some (p', ps, s') \<Longrightarrow> ends Q p' s' h"
  by (cases p) (auto split: if_splits answer.splits)

lemma run_ends_step:
  assumes "step w x y" and "watcher_inv x" and "run_ends Q x" and "served y = served x"
  shows "run_ends Q y"
  using assms
proof (induction rule: step.induct)
  case (alone x i a p ps s)
  show ?case
  proof (cases "i = 0")
    case True
    with alone show ?thesis using act_ends by (auto simp: run_ends_def nth_append)
  next
    case False
    then have "client (procs x ! i)" using watcher_inv_outside [OF alone(4) _ alone(2)] alone(3) by auto
    with act_client alone(3) have "s = state x" by blast
    moreover have "procs x \<noteq> []" using alone(2) by auto
    ultimately show ?thesis using alone(5) False by (simp add: run_ends_def nth_append)
  qed
next
  case (fork x i ps p)
  then have "i = 0" using watcher_inv_only_run [of x i "Fork ps p"] by (auto simp: registers_def)
  with fork show ?case by (auto simp: run_ends_def nth_append)
next
  case (join x i I p)
  then have "i = 0" using watcher_inv_only_run [of x i "Join I p"] by (auto simp: registers_def)
  with join show ?case by (auto simp: run_ends_def)
next
  case (accept x i j q p)
  then show ?case by simp
next
  case (deliver x i j c m p f)
  have "j \<noteq> 0" using watcher_inv_only_client [OF deliver(7,3,5)] by (auto simp: registers_def)
  with deliver show ?case by (cases "i = 0") (auto simp: run_ends_def)
next
  case (socket x i c m f e)
  then have "i \<noteq> 0" using watcher_inv_only_client [of x i "WriteSocket c m f"] by (auto simp: registers_def)
  with socket show ?case by (simp add: run_ends_def)
next
  case (connect x n rawQuery upgraded)
  then show ?case by (auto simp: run_ends_def watcher_inv_def nth_append)
next
  case (event x p)
  then show ?case by (auto simp: run_ends_def watcher_inv_def nth_append)
qed

lemma served_grows: "step w x y \<Longrightarrow> \<exists>qs. served y = served x @ qs"
  by (induction rule: step.induct) auto

lemma served_grows_steps: "(step w)\<^sup>*\<^sup>* x y \<Longrightarrow> \<exists>qs. served y = served x @ qs"
  by (induction rule: rtranclp_induct) (auto dest: served_grows)

lemma run_ends_steps:
  assumes "(step w)\<^sup>*\<^sup>* x y" and "watcher_inv x" and "run_ends Q x" and "served y = served x"
  shows "run_ends Q y"
  using assms
proof (induction rule: rtranclp_induct)
  case (step y z)
  obtain qs qs' where "served y = served x @ qs" "served z = served y @ qs'"
    using served_grows_steps [OF step(1)] served_grows [OF step(2)] by blast
  with step(6) have "served y = served x" "served z = served y" by auto
  with step have "run_ends Q y" by simp
  moreover have "watcher_inv y" using watcher.moves_inv [OF step(1,4)] .
  ultimately show ?case using run_ends_step [OF step(2)] \<open>served z = served y\<close> by blast
qed simp

text \<open>From the select to the next: the request \<open>q\<close> is accepted at \<open>x\<close>, and has been served at \<open>z\<close>.\<close>

definition served_between :: "flow_watcher \<Rightarrow> request \<Rightarrow> process \<Rightarrow> process \<Rightarrow> bool" where
  "served_between w q x z \<longleftrightarrow> (\<exists>y. step w x y \<and> served y = served x @ [q] \<and> (step w)\<^sup>*\<^sup>* y z \<and> served z = served y
     \<and> procs z ! 0 = AtSelect)"

lemma accepted:
  assumes "step w x y" and "watcher_inv x" and "served y = served x @ [q]"
  shows "procs x ! 0 = AtSelect \<and> procs y ! 0 = serve w q \<and> state y = state x \<and> handed y = handed x"
  using assms
proof (induction rule: step.induct)
  case (accept x i j r p)
  then have "j = 0" using watcher_inv_only_run [of x j AtSelect] by (auto simp: registers_def)
  with accept show ?case by auto
qed auto

lemma served_between_ends:
  assumes "served_between w q x z" and "watcher_inv x"
    and "quiet (registered x) (state x) \<Longrightarrow> ends Q (serve w q) (state x) (handed x)"
  shows "Q (state z) (handed z)"
proof -
  obtain y where y: "step w x y" "served y = served x @ [q]" "(step w)\<^sup>*\<^sup>* y z" "served z = served y"
    "procs z ! 0 = AtSelect" using assms(1) by (auto simp: served_between_def)
  have a: "procs x ! 0 = AtSelect \<and> procs y ! 0 = serve w q \<and> state y = state x \<and> handed y = handed x"
    by (rule accepted [OF y(1) assms(2) y(2)])
  with assms(2) have "quiet (registered x) (state x)" by (auto simp: watcher_inv_def)
  with a assms(3) have "run_ends Q y" by (simp add: run_ends_def)
  moreover have "watcher_inv y" using watcher_inv_step [OF y(1) assms(2)] .
  ultimately have "run_ends Q z" using run_ends_steps [OF y(3)] y(4) by simp
  with y(5) show ?thesis by (simp add: run_ends_def)
qed

section \<open>Notifications\<close>

lemma ends_sendConn:
  "c \<notin> cancelled s \<Longrightarrow> c \<notin> closed s \<Longrightarrow> ends Q k s (h @ [(c, m)]) \<Longrightarrow> ends Q (sendConn c m k) s h"
  by (simp add: sendConn_def)

lemma ends_send_each:
  assumes "set cs \<inter> cancelled s = {}" and "closed s = cancelled s" and "Q s (h @ map (\<lambda>c. (c, m)) cs)"
  shows "ends Q (send_each cs m AtSelect) s h"
  using assms by (induction cs arbitrary: h) (auto intro!: ends_sendConn)

text \<open>The connections of \<open>cs\<close> that are not registered any more are dropped from the subscription.\<close>

definition drop_dead :: "resource_subscription \<Rightarrow> web_conn set \<Rightarrow> shared \<Rightarrow> shared" where
  "drop_dead sub live s = s\<lparr>connSubscriptions := (\<lambda>sub'. if sub' = sub
     then map_option (\<lambda>cs. cs \<inter> live) (connSubscriptions s sub) else connSubscriptions s sub')\<rparr>"

lemma ends_notify_each:
  assumes "conns s \<inter> cancelled s = {}" and "closed s = cancelled s"
    and "connSubscriptions s sub = Some S" and "set cs \<subseteq> S" and "distinct cs"
    and "Q (s\<lparr>connSubscriptions := (connSubscriptions s)(sub \<mapsto> S - (set cs - conns s))\<rparr>)
       (h @ map (\<lambda>c. (c, m)) (filter (\<lambda>c. c \<in> conns s) cs))"
  shows "ends Q (notify_each sub cs m AtSelect) s h"
  using assms
proof (induction cs arbitrary: s S h)
  case Nil
  then show ?case by (simp add: fun_upd_idem)
next
  case (Cons c cs)
  show ?case
  proof (cases "c \<in> conns s")
    case True
    then have "set (c # cs) - conns s = set cs - conns s" by auto
    with Cons.prems True have "ends Q (notify_each sub cs m AtSelect) s (h @ [(c, m)])"
      by (intro Cons.IH [of s S]) simp_all
    with True Cons.prems(1,2) show ?thesis by (auto intro!: ends_sendConn)
  next
    case False
    have sub: "subscribers sub s = S" using Cons.prems by (simp add: subscribers_def)
    have "S - (set (c # cs) - conns s) = S - {c} - (set cs - conns s)" using False by auto
    moreover have "set cs \<subseteq> S - {c}" using Cons.prems by auto
    moreover have s': "remove_subscriber sub c s = s\<lparr>connSubscriptions := (connSubscriptions s)(sub \<mapsto> S - {c})\<rparr>"
      by (simp add: remove_subscriber_def sub)
    ultimately have "ends Q (notify_each sub cs m AtSelect) (remove_subscriber sub c s) h"
      using Cons.prems False unfolding s' by (intro Cons.IH [of _ "S - {c}"]) (simp_all del: fun_upd_apply add: fun_upd_same)
    with False show ?thesis by simp
  qed
qed

lemma ends_notify_all:
  assumes "quiet R s"
    and "\<And>cs. distinct cs \<Longrightarrow> set cs = registered_not_aux s \<Longrightarrow> Q s (h @ map (\<lambda>c. (c, m)) cs)"
  shows "ends Q (serve w (NotifyAll m)) s h"
proof -
  have "ends Q (send_each (filter (\<lambda>c. \<not> isAuxWs c) cs) m AtSelect) s h"
    if "distinct cs" "set cs = conns s" for cs
    by (rule ends_send_each) (use that assms in \<open>auto simp: quiet_def registered_not_aux_def\<close>)
  then show ?thesis by (simp add: serve_def)
qed

lemma ends_notify_subscriptions:
  assumes "quiet R s" and "res_Type r = PodType"
    and "\<And>cs. distinct cs \<Longrightarrow> set cs = subscribers (subscription_of r) s \<inter> conns s \<Longrightarrow>
       Q (drop_dead (subscription_of r) (conns s) s) (h @ map (\<lambda>c. (c, ResourceList PodType [r])) cs)"
  shows "ends Q (serve w (NotifySubscriptions r)) s h"
proof -
  let ?sub = "subscription_of r" and ?m = "ResourceList PodType [r]"
  have "ends Q (notify_each ?sub cs ?m AtSelect) s h" if cs: "distinct cs" "set cs = subscribers ?sub s" for cs
  proof (cases "connSubscriptions s ?sub")
    case None
    then have "cs = []" "subscribers ?sub s = {}" using cs by (auto simp: subscribers_def)
    moreover have "drop_dead ?sub (conns s) s = s" using None by (auto simp: drop_dead_def intro!: shared.equality)
    ultimately show ?thesis using assms(3) [of "[]"] by simp
  next
    case (Some S)
    then have S: "subscribers ?sub s = S" by (simp add: subscribers_def)
    have "drop_dead ?sub (conns s) s
        = s\<lparr>connSubscriptions := (connSubscriptions s)(?sub \<mapsto> S - (set cs - conns s))\<rparr>"
      using Some S cs by (auto simp: drop_dead_def intro!: shared.equality ext)
    with assms(1) assms(3) [of "filter (\<lambda>c. c \<in> conns s) cs"] Some S cs show ?thesis
      by (intro ends_notify_each [where S = S]) (auto simp: quiet_def simp del: fun_upd_apply)
  qed
  then show ?thesis using assms(2) by (simp add: serve_def notifyResourceSubscriptions_def)
qed

section \<open>The abstract watcher\<close>

text \<open>What each request does to the state, as one step.\<close>

definition abstract_serve :: "request \<Rightarrow> shared \<Rightarrow> shared" where
  "abstract_serve q s = (case q of
     Register c \<Rightarrow> s\<lparr>conns := insert c (conns s)\<rparr>
   | Unregister c \<Rightarrow>
       if c \<in> conns s then
         s\<lparr>conns := conns s - {c}, cancelled := insert c (cancelled s), closed := insert c (closed s)\<rparr>
       else s
   | Subscribe c sub \<Rightarrow> s\<lparr>connSubscriptions := (connSubscriptions s)(sub \<mapsto> insert c (subscribers sub s))\<rparr>
   | NotifyAll m \<Rightarrow> s
   | NotifySubscriptions r \<Rightarrow> if res_Type r = PodType then drop_dead (subscription_of r) (conns s) s else s)"

lemma ends_subscribe_pods:
  assumes "closed s = cancelled s"
  shows "ends (\<lambda>s' h. s' = add_subscriber sub c s) (subscribe_pods c sub AtSelect) s h"
  using assms by (auto simp: subscribe_pods_def sendWebErrorAndClose_def sendConn_def split: sum.splits)

lemma ends_serve:
  assumes "quiet R s"
  shows "ends (\<lambda>s' h. s' = abstract_serve q s) (serve w q) s h"
proof (cases q)
  case (Register c)
  then show ?thesis by (simp add: serve_def registerConn_def Let_def register_conn_def abstract_serve_def)
next
  case (Unregister c)
  with assms show ?thesis
    by (auto simp: serve_def unregisterConn_def cancel_conn_def delete_conn_def abstract_serve_def quiet_def
        intro!: shared.equality)
next
  case (Subscribe c sub)
  have closed: "closed s = cancelled s" using assms by (simp add: quiet_def)
  show ?thesis
  proof (cases "connSubscriptions s sub")
    case None
    have "add_subscriber sub c (make_subscription sub s) = abstract_serve q s"
      using None Subscribe by (simp add: add_subscriber_def make_subscription_def abstract_serve_def subscribers_def)
    with ends_subscribe_pods [of "make_subscription sub s" sub c h] closed None Subscribe show ?thesis
      by (simp add: serve_def registerResourceSubscription_def make_subscription_def)
  next
    case (Some cs)
    have "add_subscriber sub c s = abstract_serve q s"
      using Subscribe by (simp add: add_subscriber_def abstract_serve_def)
    moreover have "abstract_serve q s = s" if "c \<in> subscribers sub s"
      using that Some Subscribe by (simp add: abstract_serve_def subscribers_def insert_absorb fun_upd_idem)
    ultimately show ?thesis
      using ends_subscribe_pods [OF closed, of sub c h] Some Subscribe
      by (auto simp: serve_def registerResourceSubscription_def)
  qed
next
  case (NotifyAll m)
  then show ?thesis using ends_notify_all [OF assms] by (simp add: abstract_serve_def)
next
  case (NotifySubscriptions r)
  then show ?thesis
    using ends_notify_subscriptions [OF assms, of r]
    by (cases "res_Type r = PodType") (simp_all add: abstract_serve_def serve_def notifyResourceSubscriptions_def)
qed

text \<open>The state that the requests accepted so far lead to.\<close>

definition history_state :: "request list \<Rightarrow> shared" where
  "history_state qs = fold abstract_serve qs (state start)"

definition history_inv :: "process \<Rightarrow> bool" where
  "history_inv x \<longleftrightarrow> watcher_inv x \<and> run_ends (\<lambda>s h. s = history_state (served x)) x"

lemma served_step: "step w x y \<Longrightarrow> served y = served x \<or> (\<exists>q. served y = served x @ [q])"
  by (induction rule: step.induct) auto

lemma history_inv_step:
  assumes "step w x y" and "history_inv x"
  shows "history_inv y"
proof -
  have inv: "watcher_inv x" "run_ends (\<lambda>s h. s = history_state (served x)) x"
    using assms(2) by (auto simp: history_inv_def)
  consider "served y = served x" | q where "served y = served x @ [q]" using served_step [OF assms(1)] by blast
  then have "run_ends (\<lambda>s h. s = history_state (served y)) y"
  proof cases
    case 1
    with run_ends_step [OF assms(1) inv] show ?thesis by simp
  next
    case 2
    have a: "procs x ! 0 = AtSelect \<and> procs y ! 0 = serve w q \<and> state y = state x \<and> handed y = handed x"
      by (rule accepted [OF assms(1) inv(1) 2])
    then have "state x = history_state (served x)" "quiet (registered x) (state x)"
      using inv by (auto simp: run_ends_def watcher_inv_def)
    with a 2 ends_serve [of _ "state x" q w "handed x"] show ?thesis
      by (simp add: run_ends_def history_state_def)
  qed
  with watcher_inv_step [OF assms(1) inv(1)] show ?thesis by (simp add: history_inv_def)
qed

lemma history_inv_start: "history_inv start"
  using watcher_inv_start by (simp add: history_inv_def run_ends_def history_state_def start_def)

interpretation history: inductive_invariant start "step w" history_inv for w
  by unfold_locales (auto intro: history_inv_start history_inv_step)

end
