(* ===== verification/Watcher_Progress.thy ===== *)
theory Watcher_Progress
  imports Watcher_Delivery
begin

text \<open>
  Progress of the watcher: while no goroutine has failed and is about to unregister a connection, the
  run loop can always come back to its select. Every live connection has a writer, the senders of
  initial resources only talk to theirs, and a writer can always be made ready to receive.
\<close>

section \<open>Failed goroutines\<close>

text \<open>On its way to unregister a connection, with at most a message to the client before.\<close>

fun failing :: "prog \<Rightarrow> bool" where
  "failing (Send (Unregister c) k) = True"
| "failing (CheckCtx c p q) \<longleftrightarrow> failing p \<or> failing q"
| "failing (SelectSend c m p) \<longleftrightarrow> failing p"
| "failing p = False"

section \<open>Programs of the connections\<close>

text \<open>A reader and a subscription belong to a registered connection.\<close>

fun mentions_node :: "web_conn set \<Rightarrow> prog \<Rightarrow> bool" where
  "mentions_node R (Send (Subscribe c sub) k) \<longleftrightarrow> c \<in> R"
| "mentions_node R (Again (ReadLoop c)) \<longleftrightarrow> c \<in> R"
| "mentions_node R p \<longleftrightarrow> True"

abbreviation mentions :: "web_conn set \<Rightarrow> prog \<Rightarrow> bool" where
  "mentions R \<equiv> every (mentions_node R)"

text \<open>A sender of initial resources to \<open>c\<close>, which fails only when the list does.\<close>

fun sender_node :: "web_conn \<Rightarrow> prog \<Rightarrow> bool" where
  "sender_node c Return \<longleftrightarrow> True"
| "sender_node c Crash \<longleftrightarrow> True"
| "sender_node c (Send (Unregister c') k) \<longleftrightarrow> c' = c"
| "sender_node c (CheckCtx c' p q) \<longleftrightarrow> c' = c \<and> p \<noteq> Crash \<and> q \<noteq> Crash"
| "sender_node c (SelectSend c' m p) \<longleftrightarrow> c' = c \<and> p \<noteq> Crash"
| "sender_node c (List q f) \<longleftrightarrow> \<not> failing (f (Inr [])) \<and> f (Inr []) \<noteq> Crash"
| "sender_node c p \<longleftrightarrow> False"

abbreviation sender :: "web_conn \<Rightarrow> prog \<Rightarrow> bool" where
  "sender c \<equiv> every (sender_node c)"

text \<open>The writer of \<open>c\<close> while the channel is open.\<close>

definition written_then :: "web_conn \<Rightarrow> go_error option \<Rightarrow> prog" where
  "written_then c err = (case err of
     Some e \<Rightarrow> Send (Unregister c) (Again (WriteLoop c))
   | None \<Rightarrow> Again (WriteLoop c))"

definition writer :: "web_conn \<Rightarrow> prog \<Rightarrow> bool" where
  "writer c p \<longleftrightarrow> p = Again (WriteLoop c) \<or> p = write_round c \<or> (\<exists>m. p = WriteSocket c m (written_then c))
     \<or> p = Send (Unregister c) (Again (WriteLoop c))"

lemma write_round_eq: "write_round c = Receive c (\<lambda>r. case r of
     None \<Rightarrow> Return | Some m \<Rightarrow> WriteSocket c m (written_then c))"
  unfolding write_round_def written_then_def [abs_def] ..

lemma every_mono: "(\<And>p. P p \<Longrightarrow> Q p) \<Longrightarrow> every P p \<Longrightarrow> every Q p"
  by (induction p) (auto simp: list_all_iff)

lemma mentions_mono: "R \<subseteq> R' \<Longrightarrow> mentions R p \<Longrightarrow> mentions R' p"
  by (rule every_mono [of "mentions_node R"]) (auto elim!: mentions_node.elims)

lemma mentions_round: "mentions_node R (Again l) \<Longrightarrow> mentions R (round_of w l)"
  by (cases l)
     (auto simp: goroutine_defs split: option.splits sum.splits lookup.splits read_result.splits log_event.splits
       client_message.splits prod.splits)

lemma mentions_event: "p \<in> informer_events w \<Longrightarrow> mentions R p"
  by (auto simp: informer_events_def goroutine_defs split: sum.splits)

lemma act_mentions:
  "client p \<Longrightarrow> mentions R p \<Longrightarrow> act w a s p = Some (p', ps, s') \<Longrightarrow> mentions R p' \<and> list_all (mentions R) ps"
  using mentions_round by (cases p) (auto split: if_splits answer.splits)

lemma act_sender:
  "sender c p \<Longrightarrow> act w a s p = Some (p', ps, s') \<Longrightarrow> sender c p' \<and> ps = []"
  by (cases p) (auto split: if_splits answer.splits)

lemma act_writer:
  "writer c p \<Longrightarrow> act w a s p = Some (p', ps, s') \<Longrightarrow> writer c p' \<or> c \<in> closed s"
  by (auto simp: writer_def write_round_eq split: if_splits)

section \<open>The run loop\<close>

definition subscribed_in :: "web_conn set \<Rightarrow> shared \<Rightarrow> bool" where
  "subscribed_in R s \<longleftrightarrow> (\<forall>sub. subscribers sub s \<subseteq> R)"

text \<open>
  What the run loop at a program and a state needs of its surroundings to go on: it sends to registered
  connections, waits for senders of a registered connection, ranges over finite maps, and fails only
  when a list does.
\<close>

primrec live :: "web_conn set \<Rightarrow> prog \<Rightarrow> shared \<Rightarrow> bool" where
  "live R Return s \<longleftrightarrow> True"
| "live R Crash s \<longleftrightarrow> True"
| "live R AtSelect s \<longleftrightarrow> subscribed_in R s"
| "live R (Send q p) s \<longleftrightarrow> live R p s"
| "live R (CheckCtx c p q) s \<longleftrightarrow> live R p s \<and> live R q s"
| "live R (SelectSend c m p) s \<longleftrightarrow> c \<in> R \<and> live R p s"
| "live R (Receive c f) s \<longleftrightarrow> True"
| "live R (Go p q) s \<longleftrightarrow> mentions R p \<and> \<not> failing p \<and> p \<noteq> Crash \<and> \<not> failing q \<and> live R q s"
| "live R (Fork ps q) s \<longleftrightarrow> list_all (\<lambda>p. mentions R p \<and> \<not> failing p \<and> p \<noteq> Crash) ps
     \<and> (\<exists>c \<in> R. list_all (sender c) ps) \<and> \<not> failing q \<and> live R q s"
| "live R (Join I p) s \<longleftrightarrow> False"
| "live R (Update f p) s \<longleftrightarrow> closed (f s) = closed s \<and> cancelled s \<subseteq> cancelled (f s) \<and> \<not> failing p
     \<and> live R p (f s)"
| "live R (Look f) s \<longleftrightarrow> \<not> failing (f s) \<and> live R (f s) s"
| "live R (Range f g) s \<longleftrightarrow> finite (f s) \<and> (\<forall>cs. set cs = f s \<longrightarrow> \<not> failing (g cs) \<and> live R (g cs) s)"
| "live R (Close c p) s \<longleftrightarrow> c \<in> cancelled s \<and> \<not> failing p \<and> live R p (s\<lparr>closed := insert c (closed s)\<rparr>)"
| "live R (List q f) s \<longleftrightarrow> \<not> failing (f (Inr [])) \<and> (\<forall>r. live R (f r) s)"
| "live R (GetPod d f) s \<longleftrightarrow> True"
| "live R (OpenLogs d f) s \<longleftrightarrow> True"
| "live R (Call x f) s \<longleftrightarrow> True"
| "live R (ReadSocket c f) s \<longleftrightarrow> True"
| "live R (WriteSocket c m f) s \<longleftrightarrow> True"
| "live R (NextLog c f) s \<longleftrightarrow> True"
| "live R (Again l) s \<longleftrightarrow> True"

lemma live_sendConn: "c \<in> R \<Longrightarrow> live R k s \<Longrightarrow> live R (sendConn c m k) s"
  by (simp add: sendConn_def)

lemma not_failing_sends:
  "\<not> failing k \<Longrightarrow> \<not> failing (sendConn c m k)" "\<not> failing (send_each cs m AtSelect)"
  "\<not> failing (notify_each sub cs m AtSelect)" "\<not> failing (subscribe_pods c sub k)"
proof -
  have a: "\<not> failing k \<Longrightarrow> \<not> failing (sendConn c m k)" for c m k by (simp add: sendConn_def)
  then show "\<not> failing k \<Longrightarrow> \<not> failing (sendConn c m k)" .
  show "\<not> failing (send_each cs m AtSelect)" by (induction cs) (simp_all add: a)
  show "\<not> failing (notify_each sub cs m AtSelect)" by (cases cs) simp_all
  show "\<not> failing (subscribe_pods c sub k)" by (simp add: subscribe_pods_def)
qed

lemma live_send_each: "set cs \<subseteq> R \<Longrightarrow> subscribed_in R s \<Longrightarrow> live R (send_each cs m AtSelect) s"
  by (induction cs) (auto intro!: live_sendConn)

lemma subscribed_in_simps [simp]:
  "subscribed_in R (s\<lparr>conns := A\<rparr>) = subscribed_in R s" "subscribed_in R (s\<lparr>cancelled := A\<rparr>) = subscribed_in R s"
  "subscribed_in R (s\<lparr>closed := A\<rparr>) = subscribed_in R s"
  by (simp_all add: subscribed_in_def subscribers_def)

lemma subscribed_in_updates:
  "subscribed_in R s \<Longrightarrow> subscribed_in R (make_subscription sub s)"
  "subscribed_in R s \<Longrightarrow> c \<in> R \<Longrightarrow> subscribed_in R (add_subscriber sub c s)"
  "subscribed_in R s \<Longrightarrow> subscribed_in R (remove_subscriber sub c s)"
  by (auto simp: subscribed_in_def subscribers_def make_subscription_def add_subscriber_def remove_subscriber_def
      split: if_splits option.splits)

lemma subscription_updates [simp]:
  "closed (make_subscription sub s) = closed s" "cancelled (make_subscription sub s) = cancelled s"
  "closed (add_subscriber sub c s) = closed s" "cancelled (add_subscriber sub c s) = cancelled s"
  "closed (remove_subscriber sub c s) = closed s" "cancelled (remove_subscriber sub c s) = cancelled s"
  "conns (remove_subscriber sub c s) = conns s"
  by (simp_all add: make_subscription_def add_subscriber_def remove_subscriber_def)

lemma live_notify_each:
  "conns s \<subseteq> R \<Longrightarrow> subscribed_in R s \<Longrightarrow> live R (notify_each sub cs m AtSelect) s"
  by (induction cs arbitrary: s) (auto intro!: live_sendConn simp: subscribed_in_updates not_failing_sends)

lemma live_subscribe_pods:
  "c \<in> R \<Longrightarrow> subscribed_in R s \<Longrightarrow> live R (subscribe_pods c sub AtSelect) s"
  by (auto simp: subscribe_pods_def sendWebErrorAndClose_def subscribed_in_updates sendConn_def split: sum.splits)

lemma senders_live:
  assumes "p \<in> {sendInitialFlows w c, sendInitialApplications w c, sendInitialRollouts w c, sendInitialWorkflows w c}"
  shows "mentions R p \<and> \<not> failing p \<and> p \<noteq> Crash \<and> sender c p"
  using assms by (auto simp: goroutine_defs split: sum.splits)

lemma live_serve:
  assumes "conns s \<subseteq> R" and "finite R" and "subscribed_in R s"
    and "\<And>c sub. q = Subscribe c sub \<Longrightarrow> c \<in> R" and "\<And>c. q = Register c \<Longrightarrow> c \<in> R"
  shows "live R (serve w q) s"
proof (cases q)
  case (Register c)
  with assms senders_live [of _ w c R] show ?thesis
    by (auto simp: serve_def registerConn_def Let_def writeConn_def readConn_def register_conn_def)
next
  case (Unregister c)
  with assms show ?thesis
    by (auto simp: serve_def unregisterConn_def cancel_conn_def delete_conn_def)
next
  case (Subscribe c sub)
  with assms show ?thesis
    by (auto simp: serve_def registerResourceSubscription_def live_subscribe_pods subscribed_in_updates not_failing_sends)
next
  case (NotifyAll m)
  have "finite (conns s)" using assms(1,2) finite_subset by blast
  with NotifyAll assms show ?thesis by (auto simp: serve_def not_failing_sends intro!: live_send_each)
next
  case (NotifySubscriptions r)
  have "finite (subscribers sub s)" for sub using assms(2,3) finite_subset by (fastforce simp: subscribed_in_def)
  with NotifySubscriptions assms show ?thesis
    by (auto simp: serve_def notifyResourceSubscriptions_def live_notify_each not_failing_sends)
qed

section \<open>The process\<close>

text \<open>
  A writer for every connection that is registered and not closed, or the run loop about to start it;
  the goroutines that the run loop waits for are senders to one registered connection.
\<close>

definition has_writer :: "process \<Rightarrow> web_conn \<Rightarrow> bool" where
  "has_writer x c \<longleftrightarrow> (\<exists>i. 0 < i \<and> i < length (procs x) \<and> writer c (procs x ! i))
     \<or> (\<exists>k. procs x ! 0 = Go (writeConn c) k)"

definition joining :: "process \<Rightarrow> nat set \<Rightarrow> bool" where
  "joining x I \<longleftrightarrow> (\<exists>c \<in> registered x. \<forall>j \<in> I. 0 < j \<and> j < length (procs x) \<and> sender c (procs x ! j))"

definition run_live :: "process \<Rightarrow> bool" where
  "run_live x \<longleftrightarrow> live (registered x) (procs x ! 0) (state x)
     \<or> (\<exists>I p. procs x ! 0 = Join I p \<and> \<not> failing p \<and> live (registered x) p (state x) \<and> joining x I)"

definition progress_inv :: "process \<Rightarrow> bool" where
  "progress_inv x \<longleftrightarrow> watcher_inv x \<and> run_live x \<and> closed (state x) \<subseteq> cancelled (state x)
     \<and> (\<forall>i. 0 < i \<longrightarrow> i < length (procs x) \<longrightarrow> mentions (registered x) (procs x ! i))
     \<and> (\<forall>c \<in> registered x - closed (state x). has_writer x c)"

lemma finite_registered: "finite (registered x)"
proof -
  have "registered x = Register -` set (served x)" by (auto simp: registered_def)
  then show ?thesis by (simp add: finite_vimageI inj_def)
qed

lemma progress_inv_start: "progress_inv start"
  using watcher_inv_start
  by (simp add: progress_inv_def run_live_def start_def registered_def subscribed_in_def subscribers_def)

text \<open>A goroutine other than the run loop makes a step.\<close>

lemma progress_client:
  assumes inv: "progress_inv x" and wy: "watcher_inv y" and i: "i \<noteq> 0" "i < length (procs x)"
    and y: "procs y = (procs x)[i := p] @ ps" "state y = state x" "served y = served x"
    and p: "mentions (registered x) p" "list_all (mentions (registered x)) ps"
    and w: "\<And>c. writer c (procs x ! i) \<Longrightarrow> writer c p \<or> c \<in> closed (state x)"
    and s: "\<And>c. sender c (procs x ! i) \<Longrightarrow> sender c p"
  shows "progress_inv y"
proof -
  have R: "registered y = registered x" by (simp add: registered_def y)
  have run: "procs y ! 0 = procs x ! 0" using i by (auto simp: y nth_append)
  have old: "procs y ! j = (if j = i then p else procs x ! j)" if "j < length (procs x)" for j
    using that by (simp add: y nth_append nth_list_update)
  have len: "length (procs x) \<le> length (procs y)" by (simp add: y)
  have "joining y I" if "joining x I" for I
    using that s len old unfolding joining_def R by fastforce
  then have "run_live y" using inv by (auto simp: progress_inv_def run_live_def run R y(2))
  moreover have "mentions (registered x) (procs y ! j)" if j: "0 < j" "j < length (procs y)" for j
  proof (cases "j < length (procs x)")
    case True
    with old [OF True] inv p(1) j(1) show ?thesis by (simp add: progress_inv_def)
  next
    case False
    with j p(2) show ?thesis by (simp add: y nth_append list_all_length)
  qed
  moreover have "has_writer y c" if c: "c \<in> registered x" "c \<notin> closed (state x)" for c
  proof -
    have "has_writer x c" using inv c by (simp add: progress_inv_def)
    then consider j where "0 < j" "j < length (procs x)" "writer c (procs x ! j)" | k where "procs x ! 0 = Go (writeConn c) k"
      by (auto simp: has_writer_def)
    then show ?thesis
    proof cases
      case 1
      then have "writer c (procs y ! j)" using old [of j] w [of c] c(2) by auto
      with 1 len show ?thesis by (auto simp: has_writer_def)
    qed (auto simp: has_writer_def run)
  qed
  ultimately show ?thesis using inv wy by (simp add: progress_inv_def R y(2))
qed

text \<open>The run loop makes a step, and starts goroutines.\<close>

lemma progress_run:
  assumes inv: "progress_inv x" and wy: "watcher_inv y"
    and y: "procs y = (procs x)[0 := p] @ ps" "served y = served x"
    and live: "run_live y" and closed: "closed (state y) \<subseteq> cancelled (state y)" "closed (state x) \<subseteq> closed (state y)"
    and ps: "list_all (mentions (registered x)) ps"
    and go: "\<And>c k. procs x ! 0 = Go (writeConn c) k \<Longrightarrow> ps = [writeConn c]"
  shows "progress_inv y"
proof -
  have R: "registered y = registered x" by (simp add: registered_def y)
  have "mentions (registered x) (procs y ! j)" if "0 < j" "j < length (procs y)" for j
    using that inv ps by (auto simp: progress_inv_def y nth_append nth_list_update list_all_length split: if_splits)
  moreover have "has_writer y c" if c: "c \<in> registered x" "c \<notin> closed (state y)" for c
  proof -
    have "has_writer x c" using inv c closed(2) by (auto simp: progress_inv_def)
    then consider j where "0 < j" "j < length (procs x)" "writer c (procs x ! j)" | k where "procs x ! 0 = Go (writeConn c) k"
      by (auto simp: has_writer_def)
    then show ?thesis
    proof cases
      case 1
      then show ?thesis unfolding has_writer_def by (intro disjI1 exI [of _ j]) (simp add: y nth_append)
    next
      case 2
      have "procs x \<noteq> []" using inv by (simp add: progress_inv_def watcher_inv_def)
      then show ?thesis using go [OF 2] unfolding has_writer_def
        by (intro disjI1 exI [of _ "length (procs x)"]) (simp add: y nth_append writer_def writeConn_def)
    qed
  qed
  ultimately show ?thesis using wy live closed(1) by (simp add: progress_inv_def R)
qed

lemma act_live:
  assumes "live R p s" and "safe R p s" and "closed s \<subseteq> cancelled s" and "act w a s p = Some (p', ps, s')"
  shows "live R p' s' \<and> closed s' \<subseteq> cancelled s' \<and> closed s \<subseteq> closed s' \<and> list_all (mentions R) ps
    \<and> (\<forall>c k. p = Go (writeConn c) k \<longrightarrow> ps = [writeConn c])"
  using assms by (cases p) (auto split: if_splits answer.splits)

lemma progress_inv_alone:
  assumes inv: "progress_inv x" and i: "i < length (procs x)"
    and act: "act w a (state x) (procs x ! i) = Some (p, ps, s)"
  shows "progress_inv (x\<lparr>procs := (procs x)[i := p] @ ps, state := s\<rparr>)" (is "progress_inv ?y")
proof -
  have wx: "watcher_inv x" using inv by (simp add: progress_inv_def)
  have wy: "watcher_inv ?y" by (rule watcher_inv_act [OF wx i act])
  show ?thesis
  proof (cases "i = 0")
    case True
    then have "live (registered x) (procs x ! i) (state x)" "safe (registered x) (procs x ! i) (state x)"
      using inv act by (auto simp: progress_inv_def run_live_def watcher_inv_def)
    from act_live [OF this _ act] inv
    have a: "live (registered x) p s \<and> closed s \<subseteq> cancelled s \<and> closed (state x) \<subseteq> closed s
      \<and> list_all (mentions (registered x)) ps \<and> (\<forall>c k. procs x ! i = Go (writeConn c) k \<longrightarrow> ps = [writeConn c])"
      by (simp add: progress_inv_def)
    moreover have "registered ?y = registered x" by (simp add: registered_def)
    moreover have "procs ?y ! 0 = p" using True i by (simp add: nth_append)
    ultimately have "run_live ?y" by (simp add: run_live_def)
    with a True show ?thesis by (intro progress_run [OF inv wy, of p ps]) auto
  next
    case False
    have c: "client (procs x ! i)" using watcher_inv_outside [OF wx _ i] False act by auto
    have "s = state x" using act_client [OF c act] by simp
    moreover have "mentions (registered x) (procs x ! i)" using inv False i by (simp add: progress_inv_def)
    ultimately show ?thesis
      using False act_mentions [OF c _ act] act_writer [OF _ act] act_sender [OF _ act]
      by (intro progress_client [OF inv wy False i, of p ps]) auto
  qed
qed

lemma progress_inv_fork:
  assumes inv: "progress_inv x" and wy: "watcher_inv y" and p0: "procs x ! 0 = Fork ps p"
    and y: "procs y = (procs x)[0 := Join {length (procs x) ..< length (procs x) + length ps} p] @ ps"
      "state y = state x" "served y = served x"
  shows "progress_inv y"
proof -
  have x0: "procs x \<noteq> []" using inv by (simp add: progress_inv_def watcher_inv_def)
  have R: "registered y = registered x" by (simp add: registered_def y)
  have live: "live (registered x) (Fork ps p) (state x)"
    using inv p0 by (auto simp: progress_inv_def run_live_def)
  then obtain c where c: "c \<in> registered x" "list_all (sender c) ps" by auto
  have "joining y {length (procs x) ..< length (procs x) + length ps}"
    unfolding joining_def R
  proof (intro bexI [of _ c] ballI)
    fix j assume j: "j \<in> {length (procs x) ..< length (procs x) + length ps}"
    have "0 < length (procs x)" using x0 by simp
    also have "\<dots> \<le> j" using j by simp
    finally have "0 < j" .
    moreover have "j - length (procs x) < length ps" using j by auto
    ultimately show "0 < j \<and> j < length (procs y) \<and> sender c (procs y ! j)"
      using j c(2) by (simp add: y nth_append list_all_length)
  qed (rule c(1))
  then have "run_live y" using live x0 unfolding run_live_def R
    by (auto simp: y nth_append)
  with live inv show ?thesis
    by (intro progress_run [OF inv wy, of "Join {length (procs x) ..< length (procs x) + length ps} p" ps])
       (auto simp: y p0 progress_inv_def list_all_iff)
qed

text \<open>The run loop goes on with \<open>p\<close> without starting anything.\<close>

lemma progress_inv_continue:
  assumes inv: "progress_inv x" and wy: "watcher_inv y" and p0: "\<nexists>q k. procs x ! 0 = Go q k"
    and y: "procs y = (procs x)[0 := p]" "state y = state x" "served y = served x"
    and live: "live (registered x) p (state x)"
  shows "progress_inv y"
proof -
  have x0: "procs x \<noteq> []" using inv by (simp add: progress_inv_def watcher_inv_def)
  have R: "registered y = registered x" by (simp add: registered_def y)
  have "run_live y" using live x0 by (simp add: run_live_def R y)
  with inv p0 show ?thesis
    by (intro progress_run [OF inv wy, of p "[]"]) (auto simp: y progress_inv_def)
qed

lemma progress_inv_append:
  assumes inv: "progress_inv x" and wy: "watcher_inv y" and p: "mentions (registered x) p"
    and y: "procs y = procs x @ [p]" "state y = state x" "served y = served x"
  shows "progress_inv y"
proof -
  have x0: "procs x \<noteq> []" using inv by (simp add: progress_inv_def watcher_inv_def)
  have "procs y = (procs x)[0 := procs x ! 0] @ [p]" by (simp add: y)
  moreover have R: "registered y = registered x" by (simp add: registered_def y)
  have "joining y I" if "joining x I" for I
    using that unfolding joining_def R by (fastforce simp: y nth_append)
  then have "run_live y" using inv x0 by (auto simp: progress_inv_def run_live_def R y nth_append)
  moreover have "mentions (registered x) (procs y ! j)" if "0 < j" "j < length (procs y)" for j
    using that inv p by (auto simp: progress_inv_def y nth_append less_Suc_eq)
  moreover have "has_writer y c" if "has_writer x c" for c
    using that x0 unfolding has_writer_def by (force simp: y nth_append)
  ultimately show ?thesis using inv wy by (auto simp: progress_inv_def R y)
qed

lemma progress_inv_accept:
  assumes inv: "progress_inv x" and i: "i < length (procs x)" "procs x ! i = Send q p"
    and j: "j < length (procs x)" "procs x ! j = AtSelect"
  shows "progress_inv (x\<lparr>procs := (procs x)[i := p, j := serve w q], served := served x @ [q]\<rparr>)"
    (is "progress_inv ?y")
proof -
  have wx: "watcher_inv x" using inv by (simp add: progress_inv_def)
  have wy: "watcher_inv ?y" by (rule watcher_inv_accept [OF wx i j])
  have j0: "j = 0" using watcher_inv_only_run [OF wx j] by (auto simp: registers_def)
  have i0: "0 < i" using i j j0 by (cases i) auto
  let ?R = "registered ?y"
  have R: "?R = registered x \<union> {c. q = Register c}" by (auto simp: registered_def)
  have "mentions (registered x) (procs x ! i)" using inv i(1) i0 by (simp add: progress_inv_def)
  then have q: "mentions (registered x) (Send q p)" unfolding i(2) .
  have run: "procs ?y ! 0 = serve w q" using j j0 by simp
  have quiet: "quiet (registered x) (state x)" and sub: "subscribed_in (registered x) (state x)"
    using inv j j0 by (auto simp: progress_inv_def watcher_inv_def run_live_def)
  have "live ?R (serve w q) (state x)"
  proof (rule live_serve)
    show "conns (state x) \<subseteq> ?R" using quiet R by (auto simp: quiet_def)
    show "subscribed_in ?R (state x)" using sub R by (auto simp: subscribed_in_def)
    show "c \<in> ?R" if "q = Subscribe c sub" for c sub using q that R by simp
    show "finite ?R" by (rule finite_registered)
  qed (use R in auto)
  then have "run_live ?y" using run by (simp add: run_live_def)
  moreover have "mentions ?R (procs ?y ! k)" if k: "0 < k" "k < length (procs ?y)" for k
  proof -
    have "mentions (registered x) (if k = i then p else procs x ! k)"
      using inv k q by (simp add: progress_inv_def)
    then have "mentions ?R (if k = i then p else procs x ! k)" by (rule mentions_mono [rotated]) (simp add: R)
    then show ?thesis using k j0 by (cases "k = i") simp_all
  qed
  moreover have "has_writer ?y c" if c: "c \<in> ?R" "c \<notin> closed (state x)" for c
  proof (cases "q = Register c")
    case True
    then show ?thesis using run by (auto simp: has_writer_def serve_def registerConn_def Let_def)
  next
    case False
    with c R have "has_writer x c" using inv by (auto simp: progress_inv_def)
    with j j0 obtain k where k: "0 < k" "k < length (procs x)" "writer c (procs x ! k)" by (auto simp: has_writer_def)
    have "writer c (procs ?y ! k)"
      using k i j0 by (cases "k = i") (auto simp: writer_def write_round_eq)
    with k show ?thesis by (auto simp: has_writer_def)
  qed
  ultimately show ?thesis using inv wy by (auto simp: progress_inv_def)
qed

lemma progress_inv_step:
  assumes "step w x y" and "progress_inv x"
  shows "progress_inv y"
proof -
  have wx: "watcher_inv x" using assms(2) by (simp add: progress_inv_def)
  have wy: "watcher_inv y" by (rule watcher_inv_step [OF assms(1) wx])
  show ?thesis using assms wx wy
  proof (induction rule: step.induct)
    case (alone x i a p ps s)
    then show ?case by (intro progress_inv_alone)
  next
    case (fork x i ps p)
    then have "i = 0" using watcher_inv_only_run [of x i "Fork ps p"] by (auto simp: registers_def)
    with fork show ?case by (intro progress_inv_fork [OF fork(4,6)]) auto
  next
    case (join x i I p)
    then have "i = 0" using watcher_inv_only_run [of x i "Join I p"] by (auto simp: registers_def)
    with join show ?case
      by (intro progress_inv_continue [OF join(5,7)]) (auto simp: progress_inv_def run_live_def)
  next
    case (accept x i j q p)
    then show ?case by (intro progress_inv_accept)
  next
    case (deliver x i j c m p f)
    have j: "j \<noteq> 0" using watcher_inv_only_client [OF deliver(8,3,5)] by (auto simp: registers_def)
    let ?z = "x\<lparr>procs := (procs x)[i := p]\<rparr>"
    have wz: "watcher_inv ?z" by (rule watcher_inv_sent [OF deliver(8,2,4)])
    have "progress_inv ?z"
    proof (cases "i = 0")
      case True
      then have "live (registered x) p (state x)" using deliver(4,7) by (auto simp: progress_inv_def run_live_def)
      with True deliver(4) show ?thesis by (intro progress_inv_continue [OF deliver(7) wz]) auto
    next
      case False
      then have "mentions (registered x) (procs x ! i)" using deliver(2,7) by (simp add: progress_inv_def)
      with deliver(4) show ?thesis
        by (intro progress_client [OF deliver(7) wz False deliver(2), of p "[]"]) (auto simp: writer_def write_round_eq)
    qed
    moreover have "i \<noteq> j" using deliver(4,5) by auto
    then have "procs ?z ! j = Receive c f" "j < length (procs ?z)" using deliver(3,5) by simp_all
    moreover have "mentions (registered x) (procs x ! j)" using deliver(3,7) j by (simp add: progress_inv_def)
    moreover have "registered ?z = registered x" by (simp add: registered_def)
    ultimately show ?case using deliver(5,6)
      by (intro progress_client [OF _ deliver(9) j, of ?z "f (Some m)" "[]"])
         (auto simp: writer_def write_round_eq nth_list_update)
  next
    case (socket x i c m f e)
    then have i: "i \<noteq> 0" using watcher_inv_only_client [of x i "WriteSocket c m f"] by (auto simp: registers_def)
    have "mentions (registered x) (procs x ! i)" using socket(2,4) i by (simp add: progress_inv_def)
    then have "mentions (registered x) (WriteSocket c m f)" unfolding socket(3) .
    with socket i show ?case
      by (intro progress_client [OF socket(4,6) i socket(2), of "f e" "[]"]) (auto simp: writer_def written_then_def write_round_eq split: option.splits)
  next
    case (connect x n rawQuery upgraded)
    then show ?case
      by (intro progress_inv_append [OF connect(3,5)]) (auto simp: handleWebsocket_def)
  next
    case (event x p)
    then show ?case by (intro progress_inv_append [OF event(3,5)]) (auto simp: mentions_event)
  qed
qed

interpretation progress: inductive_invariant start "step w" progress_inv for w
  by unfold_locales (auto intro: progress_inv_start progress_inv_step)

section \<open>Going on\<close>

definition healthy :: "process \<Rightarrow> bool" where
  "healthy x \<longleftrightarrow> progress_inv x \<and> (\<forall>p \<in> set (procs x). p \<noteq> Crash \<and> \<not> failing p)"

text \<open>No request is accepted on the way, and nobody fails.\<close>

definition goes :: "flow_watcher \<Rightarrow> process \<Rightarrow> process \<Rightarrow> bool" where
  "goes w x y \<longleftrightarrow> (step w)\<^sup>*\<^sup>* x y \<and> served y = served x \<and> healthy y"

lemma goes_refl: "healthy x \<Longrightarrow> goes w x x"
  by (simp add: goes_def)

lemma goes_trans: "goes w x y \<Longrightarrow> goes w y z \<Longrightarrow> goes w x z"
  by (auto simp: goes_def)

lemma goes_registered: "goes w x y \<Longrightarrow> registered y = registered x"
  by (simp add: goes_def registered_def)

lemma goes_step:
  assumes "healthy x" and "step w x y" and "served y = served x"
    and "set (procs y) \<subseteq> set (procs x) \<union> Q" and "\<And>p. p \<in> Q \<Longrightarrow> p \<noteq> Crash \<and> \<not> failing p"
  shows "goes w x y"
  using assms progress_inv_step [OF assms(2)] by (auto simp: goes_def healthy_def)

lemma healthy_crash: "healthy x \<Longrightarrow> Crash \<notin> set (procs x)"
  by (auto simp: healthy_def)

lemma set_update2: "set (xs[i := p, j := q]) \<subseteq> set xs \<union> {p, q}"
  by (metis Un_insert_right insert_commute insert_mono set_update_subset_insert subset_trans sup_bot_right)

lemma healthy_nth: "healthy x \<Longrightarrow> i < length (procs x) \<Longrightarrow> procs x ! i \<noteq> Crash \<and> \<not> failing (procs x ! i)"
  by (simp add: healthy_def)

text \<open>A goroutine makes a step alone.\<close>

lemma goes_alone:
  assumes x: "healthy x" and i: "i < length (procs x)" and act: "act w a (state x) (procs x ! i) = Some (p, ps, s)"
    and p: "p \<noteq> Crash" "\<not> failing p" and ps: "\<And>q. q \<in> set ps \<Longrightarrow> q \<noteq> Crash \<and> \<not> failing q"
  shows "goes w x (x\<lparr>procs := (procs x)[i := p] @ ps, state := s\<rparr>)"
proof (rule goes_step [OF x step.alone [OF healthy_crash [OF x] i act], where Q = "insert p (set ps)"])
  show "set (procs (x\<lparr>procs := (procs x)[i := p] @ ps, state := s\<rparr>)) \<subseteq> set (procs x) \<union> insert p (set ps)"
    using set_update_subset_insert [of "procs x" i p] by auto
qed (use p ps in auto)

text \<open>The writer of a live connection can be made ready.\<close>

lemma writer_ready:
  assumes x: "healthy x" and c: "c \<in> registered x" "c \<notin> closed (state x)" and run: "\<nexists>k. procs x ! 0 = Go (writeConn c) k"
  shows "\<exists>y i. goes w x y \<and> state y = state x \<and> 0 < i \<and> i < length (procs x) \<and> writer c (procs x ! i)
    \<and> procs y = (procs x)[i := write_round c]"
proof -
  have "has_writer x c" using x c by (auto simp: healthy_def progress_inv_def)
  with run obtain i where i: "0 < i" "i < length (procs x)" "writer c (procs x ! i)" by (auto simp: has_writer_def)
  have again: "\<exists>y. goes w x y \<and> state y = state x \<and> procs y = (procs x)[i := write_round c]"
    if "healthy x" "i < length (procs x)" "procs x ! i = Again (WriteLoop c)" for x
    using that goes_alone [of x i w Only "write_round c" "[]" "state x"]
    by (intro exI [of _ "x\<lparr>procs := (procs x)[i := write_round c] @ [], state := state x\<rparr>"]) (simp add: write_round_eq)
  have "\<not> failing (procs x ! i)" using x i(2) by (auto simp: healthy_def)
  with i(3) consider "procs x ! i = Again (WriteLoop c)" | "procs x ! i = write_round c"
    | m where "procs x ! i = WriteSocket c m (written_then c)" by (auto simp: writer_def)
  then have "\<exists>y. goes w x y \<and> state y = state x \<and> procs y = (procs x)[i := write_round c]"
  proof cases
    case 1
    with again x i show ?thesis by blast
  next
    case 2
    with x show ?thesis by (intro exI [of _ x]) (simp add: goes_refl, metis list_update_id)
  next
    case (3 m)
    let ?z = "x\<lparr>procs := (procs x)[i := written_then c None],
      written := (if (None :: go_error option) = None then written x @ [(c, m)] else written x)\<rparr>"
    have "goes w x ?z"
      by (rule goes_step [OF x step.socket [OF healthy_crash [OF x] i(2) 3, where e = None],
          where Q = "{written_then c None}"])
         (use set_update_subset_insert [of "procs x" i "written_then c None"] in \<open>auto simp: written_then_def\<close>)
    moreover from this have "healthy ?z" by (simp add: goes_def)
    then obtain y where "goes w ?z y" "state y = state ?z" "procs y = (procs ?z)[i := write_round c]"
      using again [of ?z] i by (auto simp: written_then_def)
    ultimately show ?thesis by (intro exI [of _ y]) (auto intro: goes_trans)
  qed
  with i show ?thesis by blast
qed

text \<open>A message for a live connection can be handed over.\<close>

lemma hand_over:
  assumes x: "healthy x" and c: "c \<in> registered x" "c \<notin> closed (state x)"
    and i: "i < length (procs x)" "procs x ! i = SelectSend c m p" and p: "p \<noteq> Crash"
    and run: "\<nexists>k. procs x ! 0 = Go (writeConn c) k"
  shows "\<exists>y j. goes w x y \<and> state y = state x \<and> 0 < j \<and> j \<noteq> i \<and> writer c (procs x ! j)
    \<and> procs y = (procs x)[i := p, j := WriteSocket c m (written_then c)]"
proof -
  obtain z j where z: "goes w x z" "state z = state x" "0 < j" "j < length (procs x)" "writer c (procs x ! j)"
    "procs z = (procs x)[j := write_round c]" using writer_ready [OF x c run, of w] by blast
  have ij: "j \<noteq> i" using i(2) z(5) by (auto simp: writer_def write_round_eq)
  have hz: "healthy z" using z(1) by (simp add: goes_def)
  let ?f = "\<lambda>r. case r of None \<Rightarrow> Return | Some m \<Rightarrow> WriteSocket c m (written_then c)"
  have "procs z ! i = SelectSend c m p" "procs z ! j = Receive c ?f" "i < length (procs z)" "j < length (procs z)"
    using z(4,6) i ij by (simp_all add: write_round_eq)
  note st = step.deliver [OF healthy_crash [OF hz] this(3,4,1,2), of w]
  have np: "\<not> failing p" using x nth_mem [OF i(1)] i(2) by (fastforce simp: healthy_def)
  let ?y = "z\<lparr>procs := (procs z)[i := p, j := ?f (Some m)],
      handed := (if i = 0 then handed z @ [(c, m)] else handed z)\<rparr>"
  have "goes w z ?y"
    by (rule goes_step [OF hz st, where Q = "{p, ?f (Some m)}"])
       (use c z(2) p np set_update2 [of "procs z" i p j "?f (Some m)"] in auto)
  with z(1) have "goes w x ?y" by (rule goes_trans)
  moreover have "procs ?y = (procs x)[i := p, j := WriteSocket c m (written_then c)]"
    using z(6) ij by (simp add: list_update_swap)
  ultimately show ?thesis using z ij by (intro exI [of _ ?y] exI [of _ j]) simp
qed

text \<open>While the run loop waits, each sender it waits for can end.\<close>

definition waits :: "process \<Rightarrow> bool" where
  "waits x \<longleftrightarrow> (\<exists>I k. procs x ! 0 = Join I k)"

text \<open>What is kept of the others while a sender goes on.\<close>

definition others_kept :: "process \<Rightarrow> process \<Rightarrow> bool" where
  "others_kept x y \<longleftrightarrow> length (procs y) = length (procs x) \<and> state y = state x \<and> procs y ! 0 = procs x ! 0
     \<and> (\<forall>k. \<forall>c. k < length (procs x) \<longrightarrow> sender c (procs x ! k) \<longrightarrow> sender c (procs y ! k))
     \<and> (\<forall>k < length (procs x). procs x ! k = Return \<longrightarrow> procs y ! k = Return)"

lemma others_kept_refl: "others_kept x x"
  by (simp add: others_kept_def)

lemma others_kept_trans: "others_kept x y \<Longrightarrow> others_kept y z \<Longrightarrow> others_kept x z"
  by (simp add: others_kept_def)

lemma others_kept_update:
  assumes "0 < i" and "i < length (procs x)" and "procs x ! i \<noteq> Return" and "\<And>c. sender c (procs x ! i) \<Longrightarrow> sender c p"
    and "procs y = (procs x)[i := p]" and "state y = state x"
  shows "others_kept x y"
  using assms by (auto simp: others_kept_def nth_list_update)

lemma sender_alone:
  assumes "healthy x" and "0 < i" and "i < length (procs x)" and "sender c (procs x ! i)"
    and act: "act w a (state x) (procs x ! i) = Some (p, [], state x)" and "p \<noteq> Crash" and "\<not> failing p"
  shows "\<exists>y. goes w x y \<and> others_kept x y \<and> procs y ! i = p"
proof -
  let ?y = "x\<lparr>procs := (procs x)[i := p] @ [], state := state x\<rparr>"
  have "goes w x ?y" by (rule goes_alone [OF assms(1,3) act]) (use assms(6,7) in auto)
  moreover have "others_kept x ?y"
    by (rule others_kept_update [OF assms(2,3), where p = p]) (use act act_sender [OF _ act] in auto)
  ultimately show ?thesis using assms(3) by (intro exI [of _ ?y]) simp
qed

lemma sender_returns:
  assumes "healthy x" and "waits x" and "0 < i" and "i < length (procs x)" and "sender c (procs x ! i)" and "c \<in> registered x"
    and "procs x ! i = p"
  shows "\<exists>y. goes w x y \<and> others_kept x y \<and> procs y ! i = Return"
  using assms
proof (induction p arbitrary: x)
  case Return
  then show ?case using goes_refl others_kept_refl by blast
next
  case Crash
  then show ?case by (auto simp: healthy_def dest: nth_mem)
next
  case (Send q p)
  then have "failing (procs x ! i)" by (cases q) auto
  with healthy_nth [OF Send.prems(1,4)] show ?case by simp
next
  case (CheckCtx c' p q)
  let ?r = "if c' \<in> cancelled (state x) then p else q"
  have "\<not> failing (procs x ! i)" using healthy_nth [OF CheckCtx.prems(1,4)] by simp
  with CheckCtx.prems(5,7) have r: "?r \<noteq> Crash" "\<not> failing ?r" by auto
  have act: "act w Only (state x) (procs x ! i) = Some (?r, [], state x)" using CheckCtx.prems(7) by simp
  from sender_alone [OF CheckCtx.prems(1,3,4,5) act r]
  obtain y where y: "goes w x y" "others_kept x y" "procs y ! i = ?r" by blast
  have "healthy y" "waits y" "i < length (procs y)" "sender c (procs y ! i)" "c \<in> registered y"
    using y CheckCtx.prems goes_registered [OF y(1)] by (auto simp: goes_def others_kept_def waits_def)
  then obtain z where "goes w y z" "others_kept y z" "procs z ! i = Return"
    using CheckCtx.IH [of y] CheckCtx.prems(3) y(3) by (auto split: if_splits)
  with y show ?case by (blast intro: goes_trans others_kept_trans)
next
  case (SelectSend c' m p)
  have c': "c' = c" and p: "p \<noteq> Crash" "\<not> failing p" "sender c p"
    using SelectSend.prems(5,7) healthy_nth [OF SelectSend.prems(1,4)] by auto
  obtain y where y: "goes w x y" "others_kept x y" "procs y ! i = p"
  proof (cases "c \<in> cancelled (state x)")
    case True
    with SelectSend.prems c' p that show thesis using sender_alone [of x i c w Only p] by auto
  next
    case False
    then have "c \<notin> closed (state x)" using SelectSend.prems by (auto simp: healthy_def progress_inv_def)
    moreover have "\<nexists>k. procs x ! 0 = Go (writeConn c) k" using SelectSend.prems by (auto simp: waits_def)
    ultimately obtain y j where y: "goes w x y" "state y = state x" "0 < j" "j \<noteq> i" "writer c (procs x ! j)"
      "procs y = (procs x)[i := p, j := WriteSocket c m (written_then c)]"
      using hand_over [of x c i m p w] SelectSend.prems c' p(1) by auto
    have "\<not> sender d (procs x ! j) \<and> procs x ! j \<noteq> Return" for d
      using y(5) by (auto simp: writer_def write_round_eq)
    then have other: "procs y ! k = (if k = i then p else procs x ! k)"
      if "k < length (procs x)" "(\<exists>d. sender d (procs x ! k)) \<or> procs x ! k = Return" for k
      using that y(4,6) by (cases "k = j") (auto simp: nth_list_update)
    have "sender d (procs y ! k)" if k: "k < length (procs x)" "sender d (procs x ! k)" for k d
    proof -
      have "sender d (if k = i then p else procs x ! k)" using k(2) SelectSend.prems(7) by auto
      moreover have "procs y ! k = (if k = i then p else procs x ! k)" using other [OF k(1)] k(2) by blast
      ultimately show ?thesis by simp
    qed
    moreover have "procs y ! k = Return" if k: "k < length (procs x)" "procs x ! k = Return" for k
      using other [OF k(1)] k(2) SelectSend.prems(7) by auto
    ultimately have "others_kept x y"
      using y(2-4,6) SelectSend.prems(3) unfolding others_kept_def by simp
    with y that SelectSend.prems(4) show thesis by auto
  qed
  have "healthy y" "waits y" "i < length (procs y)" "sender c (procs y ! i)" "c \<in> registered y"
    using y SelectSend.prems goes_registered [OF y(1)] by (auto simp: goes_def others_kept_def waits_def)
  then obtain z where "goes w y z" "others_kept y z" "procs z ! i = Return"
    using SelectSend.IH [of y] SelectSend.prems(3) y(3) by auto
  with y show ?case by (blast intro: goes_trans others_kept_trans)
next
  case (List q f)
  let ?r = "f (Inr [])"
  from List.prems obtain y where y: "goes w x y" "others_kept x y" "procs y ! i = ?r"
    using sender_alone [of x i c w "Listed (Inr [])" ?r] by auto
  have "healthy y" "waits y" "i < length (procs y)" "sender c (procs y ! i)" "c \<in> registered y"
    using y List.prems goes_registered [OF y(1)] by (auto simp: goes_def others_kept_def waits_def)
  then obtain z where "goes w y z" "others_kept y z" "procs z ! i = Return"
    using List.IH [of ?r y] List.prems(3) y(3) by auto
  with y show ?case by (blast intro: goes_trans others_kept_trans)
qed auto

text \<open>All the senders that the run loop waits for can end.\<close>

lemma senders_return:
  assumes "finite J" and "healthy x" and "waits x" and "c \<in> registered x"
    and "\<And>j. j \<in> J \<Longrightarrow> 0 < j \<and> j < length (procs x) \<and> sender c (procs x ! j)"
  shows "\<exists>y. goes w x y \<and> others_kept x y \<and> (\<forall>j \<in> J. procs y ! j = Return)"
  using assms
proof (induction J arbitrary: x rule: finite_induct)
  case empty
  then show ?case using goes_refl others_kept_refl by blast
next
  case (insert j J)
  then obtain y where y: "goes w x y" "others_kept x y" "procs y ! j = Return"
    using sender_returns [of x j c "procs x ! j" w] by auto
  have "healthy y" "waits y" "c \<in> registered y"
    using y insert.prems goes_registered [OF y(1)] by (auto simp: goes_def others_kept_def waits_def)
  moreover have "0 < k \<and> k < length (procs y) \<and> sender c (procs y ! k)" if "k \<in> J" for k
    using insert.prems(4) [of k] that y(2) by (auto simp: others_kept_def)
  ultimately obtain z where z: "goes w y z" "others_kept y z" "\<forall>k \<in> J. procs z ! k = Return"
    using insert.IH [of y] by blast
  have "procs z ! j = Return" using z(2) y(2,3) insert.prems(4) [of j] by (simp add: others_kept_def)
  with y z show ?case by (blast intro: goes_trans others_kept_trans)
qed

definition comes_back :: "flow_watcher \<Rightarrow> process \<Rightarrow> bool" where
  "comes_back w x \<longleftrightarrow> (\<exists>y. goes w x y \<and> procs y ! 0 = AtSelect)"

lemma comes_back_trans: "goes w x y \<Longrightarrow> (healthy y \<Longrightarrow> comes_back w y) \<Longrightarrow> comes_back w x"
  unfolding comes_back_def by (metis goes_def goes_trans)

lemma healthy_nonempty: "healthy x \<Longrightarrow> 0 < length (procs x)"
  by (simp add: healthy_def progress_inv_def watcher_inv_def)

lemma run_alone:
  assumes x: "healthy x" and act: "act w a (state x) (procs x ! 0) = Some (p, ps, s)"
    and p: "p \<noteq> Crash" "\<not> failing p" and ps: "\<And>q. q \<in> set ps \<Longrightarrow> q \<noteq> Crash \<and> \<not> failing q"
    and again: "\<And>y. healthy y \<Longrightarrow> procs y ! 0 = p \<Longrightarrow> comes_back w y"
  shows "comes_back w x"
proof -
  let ?y = "x\<lparr>procs := (procs x)[0 := p] @ ps, state := s\<rparr>"
  have "goes w x ?y" by (rule goes_alone [OF x healthy_nonempty [OF x] act p ps])
  moreover have "procs ?y ! 0 = p" using healthy_nonempty [OF x] by (simp add: nth_append)
  ultimately show ?thesis by (intro comes_back_trans [of w x ?y] again)
qed

lemma run_join:
  assumes x: "healthy x" and p0: "procs x ! 0 = Join I p"
    and p: "p \<noteq> Crash" "\<not> failing p" and again: "\<And>y. healthy y \<Longrightarrow> procs y ! 0 = p \<Longrightarrow> comes_back w y"
  shows "comes_back w x"
proof -
  obtain c where c: "c \<in> registered x" and I: "\<And>j. j \<in> I \<Longrightarrow> 0 < j \<and> j < length (procs x) \<and> sender c (procs x ! j)"
    using x p0 by (auto simp: healthy_def progress_inv_def run_live_def joining_def)
  have "finite I" by (rule finite_subset [of _ "{..< length (procs x)}"]) (use I in auto)
  then obtain y where y: "goes w x y" "others_kept x y" "\<forall>j \<in> I. procs y ! j = Return"
    using senders_return [of I x c w] x c I p0 by (auto simp: waits_def)
  have hy: "healthy y" using y(1) by (simp add: goes_def)
  have p0': "procs y ! 0 = Join I p" using y(2) p0 by (simp add: others_kept_def)
  let ?z = "y\<lparr>procs := (procs y)[0 := p]\<rparr>"
  have "goes w y ?z"
    by (rule goes_step [OF hy step.join [OF healthy_crash [OF hy] healthy_nonempty [OF hy] p0' y(3)], where Q = "{p}"])
       (use p set_update_subset_insert [of "procs y" 0 p] in auto)
  moreover have "procs ?z ! 0 = p" using healthy_nonempty [OF hy] by simp
  ultimately have "comes_back w y" by (intro comes_back_trans [of w y ?z] again)
  with y(1) show ?thesis by (intro comes_back_trans [of w x y])
qed

lemma run_facts:
  assumes "healthy x" and "procs x ! 0 = p" and "\<nexists>I k. p = Join I k"
  shows "safe (registered x) p (state x)" and "live (registered x) p (state x)" and "\<not> failing p"
    and "closed (state x) \<subseteq> cancelled (state x)"
  using assms healthy_nth [OF assms(1) healthy_nonempty [OF assms(1)]]
  by (auto simp: healthy_def progress_inv_def run_live_def watcher_inv_def)

lemma safe_not_crash: "safe R p s \<Longrightarrow> p \<noteq> Crash"
  by auto

lemma run_comes_back:
  assumes "healthy x" and "procs x ! 0 = p"
  shows "comes_back w x"
  using assms
proof (induction p arbitrary: x)
  case AtSelect
  then show ?case by (auto simp: comes_back_def intro: goes_refl)
next
  case (CheckCtx c p q)
  note f = run_facts [OF CheckCtx.prems]
  show ?case
    by (rule run_alone [OF CheckCtx.prems(1), where a = Only and ps = "[]" and s = "state x"
          and p = "if c \<in> cancelled (state x) then p else q"])
       (use f CheckCtx.prems(2) CheckCtx.IH in \<open>auto split: if_splits dest: safe_not_crash\<close>)
next
  case (SelectSend c m p)
  note f = run_facts [OF SelectSend.prems, simplified]
  show ?case
  proof (cases "c \<in> cancelled (state x)")
    case True
    show ?thesis
      by (rule run_alone [OF SelectSend.prems(1), where a = Only and ps = "[]" and s = "state x" and p = p])
         (use f True SelectSend.prems(2) SelectSend.IH in \<open>auto dest: safe_not_crash\<close>)
  next
    case False
    with f have "p \<noteq> Crash" "c \<in> registered x" "c \<notin> closed (state x)" by (auto dest: safe_not_crash)
    then obtain y j where y: "goes w x y" "0 < j" "procs y = (procs x)[0 := p, j := WriteSocket c m (written_then c)]"
      using hand_over [OF SelectSend.prems(1) _ _ healthy_nonempty [OF SelectSend.prems(1)] SelectSend.prems(2), of w]
        SelectSend.prems(2) by auto
    have "procs y ! 0 = p" using y(2,3) healthy_nonempty [OF SelectSend.prems(1)] by simp
    with y(1) show ?thesis by (intro comes_back_trans [of w x y] SelectSend.IH)
  qed
next
  case (Go q p)
  note f = run_facts [OF Go.prems]
  show ?case
    by (rule run_alone [OF Go.prems(1), where a = Only and ps = "[q]" and s = "state x" and p = p])
       (use f Go.prems(2) Go.IH(2) in \<open>auto dest: safe_not_crash\<close>)
next
  case (Fork ps p)
  note f = run_facts [OF Fork.prems]
  let ?I = "{length (procs x) ..< length (procs x) + length ps}"
  let ?y = "x\<lparr>procs := (procs x)[0 := Join ?I p] @ ps\<rparr>"
  have "goes w x ?y"
    by (rule goes_step [OF Fork.prems(1) step.fork [OF healthy_crash [OF Fork.prems(1)]
            healthy_nonempty [OF Fork.prems(1)] Fork.prems(2)], where Q = "insert (Join ?I p) (set ps)"])
       (use f set_update_subset_insert [of "procs x" 0 "Join ?I p"] in \<open>auto simp: list_all_iff\<close>)
  moreover have "procs ?y ! 0 = Join ?I p" using healthy_nonempty [OF Fork.prems(1)] by (simp add: nth_append)
  moreover have "p \<noteq> Crash" "\<not> failing p" using f by (auto dest: safe_not_crash)
  ultimately show ?case
    by (intro comes_back_trans [of w x ?y] run_join [of ?y ?I p w] Fork.IH(2))
next
  case (Join I p)
  have "p \<noteq> Crash" "\<not> failing p"
    using Join.prems by (auto simp: healthy_def progress_inv_def run_live_def watcher_inv_def)
  then show ?case using run_join [OF Join.prems] Join.IH by blast
next
  case (Update f p)
  note f = run_facts [OF Update.prems]
  show ?case
    by (rule run_alone [OF Update.prems(1), where a = Only and ps = "[]" and s = "f (state x)" and p = p])
       (use f Update.prems(2) Update.IH in \<open>auto dest: safe_not_crash\<close>)
next
  case (Look f)
  note f = run_facts [OF Look.prems]
  show ?case
  proof (rule run_alone [OF Look.prems(1), where a = Only and ps = "[]" and s = "state x" and p = "f (state x)"])
    show "act w Only (state x) (procs x ! 0) = Some (f (state x), [], state x)" using Look.prems(2) by simp
    show "comes_back w y" if "healthy y" "procs y ! 0 = f (state x)" for y using Look.IH [OF rangeI that] .
  qed (use f safe_not_crash in auto)
next
  case (Range f g)
  note facts = run_facts [OF Range.prems]
  have "finite (f (state x))" using facts(2) by simp
  then obtain cs where cs: "distinct cs" "set cs = f (state x)" using finite_distinct_list by blast
  then have g: "safe (registered x) (g cs) (state x)" "\<not> failing (g cs)" using facts(1,2) by simp_all
  show ?case
  proof (rule run_alone [OF Range.prems(1), where a = "Order cs" and ps = "[]" and s = "state x" and p = "g cs"])
    show "act w (Order cs) (state x) (procs x ! 0) = Some (g cs, [], state x)" using Range.prems(2) cs by simp
    show "comes_back w y" if "healthy y" "procs y ! 0 = g cs" for y using Range.IH [OF rangeI that] .
  qed (use g safe_not_crash in auto)
next
  case (Close c p)
  note f = run_facts [OF Close.prems]
  show ?case
    by (rule run_alone [OF Close.prems(1), where a = Only and ps = "[]" and p = p
          and s = "(state x)\<lparr>closed := insert c (closed (state x))\<rparr>"])
       (use f Close.prems(2) Close.IH in \<open>auto dest: safe_not_crash\<close>)
next
  case (List q f)
  note facts = run_facts [OF List.prems]
  show ?case
  proof (rule run_alone [OF List.prems(1), where a = "Listed (Inr [])" and ps = "[]" and s = "state x" and p = "f (Inr [])"])
    show "act w (Listed (Inr [])) (state x) (procs x ! 0) = Some (f (Inr []), [], state x)" using List.prems(2) by simp
    show "comes_back w y" if "healthy y" "procs y ! 0 = f (Inr [])" for y using List.IH [OF rangeI that] .
  qed (use facts(1,2) in \<open>auto dest: safe_not_crash\<close>)
next
  case (Send q p)
  note f = run_facts [OF Send.prems]
  from f(1,3) show ?case by auto
qed (use run_facts(1) in fastforce)+

text \<open>The watcher comes back when nobody is failing.\<close>

lemma reachable_comes_back:
  assumes "reachable w x" and "Crash \<notin> set (procs x)" and "\<forall>p \<in> set (procs x). \<not> failing p"
  shows "comes_back w x"
proof -
  have "progress_inv x" using assms(1) unfolding reachable_def by (rule progress.reach_inv)
  with assms(2,3) have "healthy x" by (auto simp: healthy_def)
  then show ?thesis by (rule run_comes_back) simp
qed

end
