(* ===== verification/Watcher_Properties.thy ===== *)
theory Watcher_Properties
  imports Watcher_Wedge Watcher_Progress
begin

text \<open>
  The properties of the watcher: the invariant of the run loop, the states in which it is stuck for
  ever and how they are reached, the panic of a late sender, and to whom notifications go.
\<close>

section \<open>Schedules\<close>

text \<open>
  A plain connection whose initial lists are sent, the last write with the given outcome; and a first
  list that fails.
\<close>

definition plain_conn :: web_conn where
  "plain_conn = \<lparr>conn_Id = 0, isAuxWs = False\<rparr>"

definition begin_registration :: "choice list" where
  "begin_registration = [Connect [] 0, Accept 1 0, Alone 0 Only, Forks 0]"

definition send_initial :: "nat \<Rightarrow> go_error option \<Rightarrow> choice list" where
  "send_initial i e = [Alone 2 Only, Alone i (Listed (Inr [])), Alone i Only, Deliver i 2, Write 2 e]"

definition registration :: "go_error option \<Rightarrow> choice list" where
  "registration e = begin_registration @ send_initial 3 None @ send_initial 4 None @ send_initial 5 None
     @ send_initial 6 e @ [Joins 0, Alone 0 Only, Alone 0 Only]"

definition failed_list :: "choice list" where
  "failed_list = begin_registration @ [Alone 2 Only, Alone 3 (Listed (Inl (LibError ''timeout''))), Alone 3 Only,
     Deliver 3 2]"

definition sample_flow :: resource where
  "sample_flow = \<lparr>res_Type = FlowType, APIVersion = groupVersion, Kind = ''Flow'', Namespace = ''dev'', Name = ''api'',
     Labels = None, Annotations = None, res_Rest = JNull\<rparr>"

text \<open>An event of a flow, which the run loop hands to the connection.\<close>

definition take_flow :: "choice list" where
  "take_flow = [Alone 0 (Order [plain_conn]), Alone 0 Only]"

definition notify_flow :: "choice list" where
  "notify_flow = [Event sample_flow, Accept 8 0] @ take_flow"

text \<open>An auxiliary connection asks for the logs of a pod that is not found, and goes away.\<close>

definition aux_conn :: web_conn where
  "aux_conn = \<lparr>conn_Id = 0, isAuxWs = True\<rparr>"

definition aux_registration :: "choice list" where
  "aux_registration = [Connect auxWsFlag 0, Accept 1 0, Alone 0 Only, Alone 0 Only, Alone 0 Only]"

definition sample_log :: container_log_data where
  "sample_log = \<lparr>cld_Namespace = ''dev'', cld_PodName = ''api-0'', cld_ContainerName = ''main''\<rparr>"

definition ask_logs :: "choice list" where
  "ask_logs = [Alone 3 Only, Alone 3 (ReadSock (ReadText (Some (encode_client_message (ContainerLogMessage sample_log))))),
     Alone 3 Only, Alone 3 Only, Alone 5 (GotPod NotFound), Alone 5 Only]"

definition go_away :: "choice list" where
  "go_away = [Alone 3 Only, Alone 3 (ReadSock (ReadError False)), Accept 3 0, Alone 0 Only, Alone 0 Only,
     Alone 0 Only, Alone 0 Only]"

text \<open>An auxiliary connection subscribes to the pods of an application, and a pod changes.\<close>

definition sample_subscription :: resource_subscription where
  "sample_subscription = \<lparr>SubscriptionType = POD_SUBSCRIPTION_TYPE, sub_Namespace = ''dev'', sub_Name = ''api''\<rparr>"

definition sample_pod :: resource where
  "sample_pod = \<lparr>res_Type = PodType, APIVersion = ''v1'', Kind = ''Pod'', Namespace = ''dev'', Name = ''api-0'',
     Labels = Some [JETTISON_APP_LABEL_KEY \<mapsto> ''api''], Annotations = None, res_Rest = JNull\<rparr>"

definition subscription :: "choice list" where
  "subscription = [Alone 3 Only,
     Alone 3 (ReadSock (ReadText (Some (encode_client_message (ResourceSubscriptionMessage sample_subscription))))),
     Accept 3 0, Alone 0 Only, Alone 0 Only, Alone 0 (Listed (Inr [])), Alone 0 Only, Alone 2 Only, Deliver 0 2,
     Alone 0 Only, Write 2 None]"

definition take_pod :: "choice list" where
  "take_pod = [Alone 0 (Order [aux_conn]), Alone 0 Only, Alone 0 Only, Alone 2 Only, Deliver 0 2]"

lemmas schedule_defs =
  begin_registration_def send_initial_def registration_def failed_list_def take_flow_def notify_flow_def
  aux_registration_def ask_logs_def go_away_def plain_conn_def aux_conn_def sample_flow_def subscription_def
  take_pod_def sample_pod_def

lemmas process_defs =
  start_def handleWebsocket_def serve_def registerConn_def Let_def auxWsFlag_def unregisterConn_def
  register_conn_def cancel_conn_def delete_conn_def watched_def groupVersion_def
  registerResourceSubscription_def subscribe_pods_def make_subscription_def add_subscriber_def subscribers_def
  notifyResourceSubscriptions_def subscription_of_def map_entry_def

lemmas replay = schedule_defs process_defs goroutine_defs nth_append eval_nat_numeral

lemma schedule_append:
  "schedule w (chs @ chs') x = (case schedule w chs x of None \<Rightarrow> None | Some y \<Rightarrow> schedule w chs' y)"
  by (induction chs arbitrary: x) (auto split: option.splits)

lemma failed_list_wedges:
  "\<exists>x I p. schedule w failed_list start = Some x \<and> procs x ! 0 = Join I p \<and> 3 \<in> I \<and> length (procs x) = 7
     \<and> is_send (procs x ! 3) \<and> served x = [Register plain_conn]"
  by (simp add: replay)

lemma registration_begins:
  "\<exists>x I p. schedule w begin_registration start = Some x \<and> procs x ! 0 = Join I p
     \<and> Crash \<notin> set (procs x) \<and> (\<forall>p \<in> set (procs x). \<not> failing p) \<and> served x = [Register plain_conn]"
  by (simp add: replay)

lemma all_from_to: "(\<forall>j \<in> {a ..< b}. P j) \<longleftrightarrow> (a < b \<longrightarrow> P a \<and> (\<forall>j \<in> {Suc a ..< b}. P j))"
  by (auto simp: atLeastLessThan_iff le_less Suc_le_eq)

lemma notify_reaches_hand:
  "\<exists>x m. schedule w (registration e @ notify_flow) start = Some x
     \<and> procs x = [SelectSend plain_conn m AtSelect, Return,
         case e of Some e \<Rightarrow> Send (Unregister plain_conn) (Again (WriteLoop plain_conn)) | None \<Rightarrow> Again (WriteLoop plain_conn),
         Return, Return, Return, Return, Again (ReadLoop plain_conn), Return]
     \<and> cancelled (state x) = {} \<and> closed (state x) = {} \<and> conns (state x) = {plain_conn}"
  by (cases e; simp add: replay all_from_to)

lemma aux_goes_away:
  "\<exists>x m. schedule w (aux_registration @ ask_logs @ go_away) start = Some x
     \<and> procs x = [AtSelect, Return, Again (WriteLoop aux_conn), Return, streamLogLines aux_conn sample_log, 
         SelectSend aux_conn m Return]
     \<and> closed (state x) = {aux_conn} \<and> conns (state x) = {} \<and> cancelled (state x) = {aux_conn}
     \<and> served x = [Register aux_conn, Unregister aux_conn]"
  by (simp add: replay decode_encode del: encode_client_message.simps)

lemma flow_notified:
  "\<exists>x y z. schedule w (registration None @ [Event sample_flow]) start = Some x \<and> perform w (Accept 8 0) x = Some y
     \<and> schedule w (take_flow @ [Alone 2 Only, Deliver 0 2]) y = Some z
     \<and> Crash \<notin> set (procs x) \<and> served y = served x @ [NotifyAll (ResourceList FlowType [sample_flow])]
     \<and> served z = served y \<and> procs z ! 0 = AtSelect \<and> conns (state x) = {plain_conn}"
  by (simp add: replay all_from_to)

lemma pod_notified:
  "\<exists>x y z. schedule w (aux_registration @ subscription @ [PodEvent sample_pod]) start = Some x
     \<and> perform w (Accept 4 0) x = Some y \<and> schedule w take_pod y = Some z
     \<and> Crash \<notin> set (procs x) \<and> served y = served x @ [NotifySubscriptions sample_pod]
     \<and> served z = served y \<and> procs z ! 0 = AtSelect
     \<and> connSubscriptions (state x) (subscription_of sample_pod) = Some {aux_conn} \<and> conns (state x) = {aux_conn}"
  by (simp add: replay decode_encode sample_subscription_def del: encode_client_message.simps)

text \<open>A schedule, one accepted request and a schedule serve that request.\<close>

lemma schedules_serve:
  assumes "schedule w chs start = Some x" and "perform w (Accept i j) x = Some y" and "schedule w chs' y = Some z"
    and "Crash \<notin> set (procs x)" and "served y = served x @ [q]" and "served z = served y" and "procs z ! 0 = AtSelect"
  shows "reachable w x \<and> served_between w q x z"
  using assms schedule_reachable [of w chs x] perform_step [OF assms(2,4)] schedule_steps [of w chs' y z]
  unfolding served_between_def by blast

section \<open>Properties\<close>

definition sample_watcher :: flow_watcher where
  "sample_watcher = \<lparr>mysqlWorkflows = [], controllerPodNamespace = ''jettison'', controllerPodName = ''controller-0'',
     gvk = (\<lambda>t. Inl (LibError ''no kind''))\<rparr>"

text \<open>
  C7. Under every interleaving of connections, client messages, informer events and failures of the cluster and of
  the sockets, the run loop of the watcher neither ends nor panics; and whenever it is at its select, no
  connection is both registered and cancelled, the two together are the connections ever accepted, and
  the write channels closed are exactly those of the cancelled ones, so that no channel is closed twice.
\<close>

theorem run_loop_invariant:
  assumes "reachable w x"
  shows "procs x \<noteq> [] \<and> procs x ! 0 \<noteq> Crash \<and> procs x ! 0 \<noteq> Return
    \<and> (procs x ! 0 = AtSelect \<longrightarrow> conns (state x) \<inter> cancelled (state x) = {}
        \<and> conns (state x) \<union> cancelled (state x) = {c. Register c \<in> set (served x)}
        \<and> closed (state x) = cancelled (state x))"
  using reachable_inv [OF assms] by (auto simp: watcher_inv_def quiet_def registered_def)

lemma run_loop_invariant_witness:
  "\<exists>x. reachable sample_watcher x \<and> procs x ! 0 = AtSelect \<and> closed (state x) = {aux_conn}
     \<and> {c. Register c \<in> set (served x)} = {aux_conn}"
proof -
  obtain x m where x: "schedule sample_watcher (aux_registration @ ask_logs @ go_away) start = Some x"
    "procs x = [AtSelect, Return, Again (WriteLoop aux_conn), Return, streamLogLines aux_conn sample_log,
         SelectSend aux_conn m Return]"
    "closed (state x) = {aux_conn}" "conns (state x) = {}" "cancelled (state x) = {aux_conn}"
    using aux_goes_away by blast
  have "reachable sample_watcher x" using schedule_reachable [OF x(1)] .
  with run_loop_invariant [OF this] x show ?thesis by (intro exI [of _ x]) simp
qed

text \<open>
  C6. The watcher, with all its goroutines, is the sequential machine that applies the accepted requests one after the
  other: whenever the run loop is at its select, the registered connections, the subscriptions and the
  cancelled and closed connections are exactly what \<open>abstract_serve\<close> makes of the requests in the order of acceptance.
\<close>

theorem watcher_refines_history:
  assumes "reachable w x" and "procs x ! 0 = AtSelect"
  shows "state x = fold abstract_serve (served x)
    \<lparr>conns = {}, connSubscriptions = Map.empty, cancelled = {}, closed = {}\<rparr>"
proof -
  have "history_inv x" using assms(1) unfolding reachable_def by (rule history.reach_inv)
  with assms(2) show ?thesis by (simp add: history_inv_def run_ends_def history_state_def start_def)
qed

lemma watcher_refines_history_witness:
  "\<exists>x. reachable sample_watcher x \<and> served x = [Register aux_conn, Unregister aux_conn] \<and> procs x ! 0 = AtSelect
     \<and> conns (state x) = {} \<and> cancelled (state x) = {aux_conn} \<and> closed (state x) = {aux_conn}"
proof -
  obtain x m where x: "schedule sample_watcher (aux_registration @ ask_logs @ go_away) start = Some x"
    "procs x = [AtSelect, Return, Again (WriteLoop aux_conn), Return, streamLogLines aux_conn sample_log,
         SelectSend aux_conn m Return]" "served x = [Register aux_conn, Unregister aux_conn]"
    using aux_goes_away by blast
  have r: "reachable sample_watcher x" using schedule_reachable [OF x(1)] .
  moreover have run: "procs x ! 0 = AtSelect" using x(2) by simp
  ultimately show ?thesis
    using watcher_refines_history [OF r run] x(3) by (intro exI [of _ x]) (simp add: abstract_serve_def)
qed

text \<open>
  C11. When the run loop waits for the initial resources of a new connection while one of their senders waits for
  the run loop (to unregister the connection), or when it sends to itself, or when it hands a
  message to a connection whose writer waits for it, then whatever the other goroutines, the clients
  and the cluster do, the run loop never moves again: no request is served and no connection added or removed.
\<close>

theorem wedged_forever:
  assumes "reachable w x" and "wedged x" and "(step w)\<^sup>*\<^sup>* x y"
  shows "procs y ! 0 = procs x ! 0 \<and> procs y ! 0 \<noteq> AtSelect \<and> served y = served x \<and> handed y = handed x
    \<and> conns (state y) = conns (state x) \<and> cancelled (state y) = cancelled (state x)"
  using wedged_steps [OF assms(3) reachable_inv [OF assms(1)] assms(2)] wedged_not_select by auto

lemma wedged_forever_witness:
  "\<exists>x. reachable sample_watcher x \<and> served x = [Register plain_conn] \<and> (\<forall>y. (step sample_watcher)\<^sup>*\<^sup>* x y \<longrightarrow>
     procs y ! 0 \<noteq> AtSelect \<and> served y = [Register plain_conn])"
proof -
  obtain x I p where x: "schedule sample_watcher failed_list start = Some x" "procs x ! 0 = Join I p" "3 \<in> I"
    "length (procs x) = 7" "is_send (procs x ! 3)" "served x = [Register plain_conn]"
    using failed_list_wedges by blast
  have r: "reachable sample_watcher x" using schedule_reachable [OF x(1)] .
  have "wedged x" using x unfolding wedged_def by (intro disjI2 disjI1 exI conjI) auto
  with wedged_forever [OF r] x(6) r show ?thesis by auto
qed

text \<open>
  C12. One failed write to a socket can stop the watcher for all clients: there is a reachable state in which the run
  loop hands a notification to a registered connection while the writer of that connection, whose write
  has failed, waits to unregister it.
\<close>

theorem failed_write_wedges:
  "\<exists>x c m p i. reachable w x \<and> wedged x \<and> procs x ! 0 = SelectSend c m p \<and> c \<in> conns (state x)
     \<and> i < length (procs x) \<and> procs x ! i = Send (Unregister c) (writeConn c)"
proof -
  let ?e = "LibError ''broken pipe''"
  obtain x m where x: "schedule w (registration (Some ?e) @ notify_flow) start = Some x"
    "procs x = [SelectSend plain_conn m AtSelect, Return, Send (Unregister plain_conn) (Again (WriteLoop plain_conn)),
         Return, Return, Return, Return, Again (ReadLoop plain_conn), Return]"
    "cancelled (state x) = {}" "closed (state x) = {}" "conns (state x) = {plain_conn}"
    using notify_reaches_hand [of w "Some ?e"] by auto
  have "no_receive plain_conn (procs x ! j) \<or> is_send (procs x ! j)" if "0 < j" "j < length (procs x)" for j
  proof -
    have "j \<in> {1..8}" using that x(2) by auto
    then have "j = 1 \<or> j = 2 \<or> j = 3 \<or> j = 4 \<or> j = 5 \<or> j = 6 \<or> j = 7 \<or> j = 8" by auto
    then show ?thesis using x(2) by auto
  qed
  with x have "wedged x" by (auto simp: wedged_def)
  moreover have "reachable w x" using schedule_reachable [OF x(1)] .
  ultimately show ?thesis using x
    by (intro exI [of _ x] exI [of _ plain_conn] exI [of _ m] exI [of _ AtSelect] exI [of _ 2]) (simp add: writeConn_def)
qed

text \<open>
  C13. Only a failure stops the watcher: from every reachable state in which no goroutine is on its way to unregister a
  connection, the run loop can come back to its select without accepting a request or anything failing on
  the way, whatever it is doing and whichever messages, senders and writers are under way.
\<close>

theorem run_loop_comes_back:
  assumes "reachable w x" and "Crash \<notin> set (procs x)" and "\<forall>p \<in> set (procs x). \<not> failing p"
  shows "\<exists>y. (step w)\<^sup>*\<^sup>* x y \<and> procs y ! 0 = AtSelect \<and> served y = served x
    \<and> Crash \<notin> set (procs y) \<and> (\<forall>p \<in> set (procs y). \<not> failing p)"
  using reachable_comes_back [OF assms] unfolding comes_back_def goes_def healthy_def by blast

lemma run_loop_comes_back_witness:
  "\<exists>x y I p. reachable sample_watcher x \<and> procs x ! 0 = Join I p \<and> (step sample_watcher)\<^sup>*\<^sup>* x y
     \<and> procs y ! 0 = AtSelect \<and> served y = [Register plain_conn]"
proof -
  obtain x I p where x: "schedule sample_watcher begin_registration start = Some x" "procs x ! 0 = Join I p"
    "Crash \<notin> set (procs x)" "\<forall>p \<in> set (procs x). \<not> failing p" "served x = [Register plain_conn]"
    using registration_begins by blast
  have r: "reachable sample_watcher x" using schedule_reachable [OF x(1)] .
  from run_loop_comes_back [OF r x(3,4)] x(2,5) r show ?thesis by metis
qed

text \<open>
  C17. A client that goes away can end the process: there is a reachable state in which a goroutine that checked the
  context of a connection before it was unregistered sends on the write channel of the connection
  after it was closed, and the next step of that goroutine is a panic.
\<close>

theorem late_send_panics:
  "\<exists>x c m i. reachable w x \<and> c \<in> closed (state x) \<and> i < length (procs x) \<and> procs x ! i = SelectSend c m Return
     \<and> step w x (x\<lparr>procs := (procs x)[i := Crash]\<rparr>)"
proof -
  obtain x m where x: "schedule w (aux_registration @ ask_logs @ go_away) start = Some x"
    "procs x = [AtSelect, Return, Again (WriteLoop aux_conn), Return, streamLogLines aux_conn sample_log,
         SelectSend aux_conn m Return]" "closed (state x) = {aux_conn}"
    using aux_goes_away by blast
  have "step w x (x\<lparr>procs := (procs x)[5 := Crash] @ [], state := state x\<rparr>)"
    by (rule step.alone [of x 5 w Other]) (use x in \<open>simp_all add: streamLogLines_def eval_nat_numeral\<close>)
  moreover have "reachable w x" using schedule_reachable [OF x(1)] .
  ultimately show ?thesis using x
    by (intro exI [of _ x] exI [of _ aux_conn] exI [of _ m] exI [of _ 5]) (simp add: eval_nat_numeral)
qed

text \<open>
  C14. When the run loop serves a notification to all, it hands the message exactly once to each registered connection
  that is not auxiliary, in some order, to no other connection, and changes nothing else.
\<close>

theorem broadcast_exact:
  assumes "reachable w x" and "served_between w (NotifyAll m) x z"
  shows "state z = state x \<and> (\<exists>cs. distinct cs \<and> set cs = {c \<in> conns (state x). \<not> isAuxWs c}
    \<and> handed z = handed x @ map (\<lambda>c. (c, m)) cs)"
proof -
  let ?Q = "\<lambda>s h. s = state x \<and> (\<exists>cs. distinct cs \<and> set cs = registered_not_aux (state x)
    \<and> h = handed x @ map (\<lambda>c. (c, m)) cs)"
  have "?Q (state z) (handed z)"
    by (rule served_between_ends [OF assms(2) reachable_inv [OF assms(1)]], erule ends_notify_all) blast
  then show ?thesis by (simp add: registered_not_aux_def)
qed

lemma distinct_singleton: "distinct cs \<Longrightarrow> set cs = {c} \<Longrightarrow> cs = [c]"
  by (cases cs; cases "tl cs") auto

lemma broadcast_exact_witness:
  "\<exists>x z. reachable sample_watcher x \<and> served_between sample_watcher (NotifyAll (ResourceList FlowType [sample_flow])) x z
     \<and> handed z = handed x @ [(plain_conn, ResourceList FlowType [sample_flow])]"
proof -
  obtain x y z where x: "schedule sample_watcher (registration None @ [Event sample_flow]) start = Some x"
    "perform sample_watcher (Accept 8 0) x = Some y" "schedule sample_watcher (take_flow @ [Alone 2 Only, Deliver 0 2]) y = Some z"
    "Crash \<notin> set (procs x)" "served y = served x @ [NotifyAll (ResourceList FlowType [sample_flow])]"
    "served z = served y" "procs z ! 0 = AtSelect" "conns (state x) = {plain_conn}"
    using flow_notified by blast
  have s: "reachable sample_watcher x"
    "served_between sample_watcher (NotifyAll (ResourceList FlowType [sample_flow])) x z"
    using schedules_serve [OF x(1-7)] by blast+
  from broadcast_exact [OF s] obtain cs where cs: "distinct cs" "set cs = {c \<in> conns (state x). \<not> isAuxWs c}"
    "handed z = handed x @ map (\<lambda>c. (c, ResourceList FlowType [sample_flow])) cs" by blast
  have "\<not> isAuxWs plain_conn" by (simp add: plain_conn_def)
  then have "{c \<in> conns (state x). \<not> isAuxWs c} = {plain_conn}" unfolding x(8) by blast
  with cs(2) have "set cs = {plain_conn}" by simp
  with cs(1) have "cs = [plain_conn]" by (rule distinct_singleton)
  with s cs(3) show ?thesis by (intro exI [of _ x] exI [of _ z]) simp
qed

text \<open>
  C15. When the run loop serves a pod event, it hands the pod exactly once to each registered connection that
  subscribed to the pod's namespace and application label, to no other connection, and drops from the
  subscription the connections that are no longer registered; no other subscription and no connection changes.
\<close>

theorem subscription_exact:
  assumes "reachable w x" and "res_Type r = PodType" and "served_between w (NotifySubscriptions r) x z"
  shows "state z = drop_dead (subscription_of r) (conns (state x)) (state x)
    \<and> (\<exists>cs. distinct cs \<and> set cs = subscribers (subscription_of r) (state x) \<inter> conns (state x)
        \<and> handed z = handed x @ map (\<lambda>c. (c, ResourceList PodType [r])) cs)"
proof -
  let ?Q = "\<lambda>s h. s = drop_dead (subscription_of r) (conns (state x)) (state x)
    \<and> (\<exists>cs. distinct cs \<and> set cs = subscribers (subscription_of r) (state x) \<inter> conns (state x)
        \<and> h = handed x @ map (\<lambda>c. (c, ResourceList PodType [r])) cs)"
  show ?thesis
    by (rule served_between_ends [OF assms(3) reachable_inv [OF assms(1)], of ?Q],
        erule ends_notify_subscriptions [OF _ assms(2)]) blast
qed

lemma subscription_exact_witness:
  "\<exists>x z. reachable sample_watcher x \<and> served_between sample_watcher (NotifySubscriptions sample_pod) x z
     \<and> handed z = handed x @ [(aux_conn, ResourceList PodType [sample_pod])]"
proof -
  obtain x y z where x: "schedule sample_watcher (aux_registration @ subscription @ [PodEvent sample_pod]) start = Some x"
    "perform sample_watcher (Accept 4 0) x = Some y" "schedule sample_watcher take_pod y = Some z"
    "Crash \<notin> set (procs x)" "served y = served x @ [NotifySubscriptions sample_pod]"
    "served z = served y" "procs z ! 0 = AtSelect"
    "connSubscriptions (state x) (subscription_of sample_pod) = Some {aux_conn}" "conns (state x) = {aux_conn}"
    using pod_notified by blast
  have s: "reachable sample_watcher x" "served_between sample_watcher (NotifySubscriptions sample_pod) x z"
    using schedules_serve [OF x(1-7)] by blast+
  have "res_Type sample_pod = PodType" by (simp add: sample_pod_def)
  from subscription_exact [OF s(1) this s(2)] obtain cs where cs: "distinct cs"
    "set cs = subscribers (subscription_of sample_pod) (state x) \<inter> conns (state x)"
    "handed z = handed x @ map (\<lambda>c. (c, ResourceList PodType [sample_pod])) cs" by blast
  have "set cs = {aux_conn}" using x(8,9) cs(2) by (simp add: subscribers_def)
  with cs(1) have "cs = [aux_conn]" by (rule distinct_singleton)
  with s cs(3) show ?thesis by (intro exI [of _ x] exI [of _ z]) simp
qed

end
