(* ===== verification/Log_Buffer.thy ===== *)
theory Log_Buffer
  imports Prelude
begin

text \<open>
  The memory of the log lines in \<open>streamLogLines\<close> (\<open>container_log_message_handler.go\<close>). The buffer is
  a slice: a length in a backing array. \<open>append\<close> writes into the array while it has room,
  \<open>logLines[:0]\<close> keeps the array, and the message that is handed to the writer holds the slice, whose lines
  the writer reads when it encodes the message.
\<close>

section \<open>Slices\<close>

type_synonym slice = "nat \<times> nat"

record log_buffer =
  arrays :: "string list list"
  logLines :: slice
  in_hand :: "slice option"
  encoded :: "string list list"

text \<open>The arrays ever made, by address. The writer holds at most one message: the channel has no buffer.\<close>

definition lines_of :: "log_buffer \<Rightarrow> slice \<Rightarrow> string list" where
  "lines_of b sl = take (snd sl) (arrays b ! fst sl)"

definition new_buffer :: log_buffer where
  "new_buffer = \<lparr>arrays = [[]], logLines = (0, 0), in_hand = None, encoded = []\<rparr>"

text \<open>\<open>append\<close>; a new array has the capacity that \<open>grow\<close>, the runtime's policy, gives it.\<close>

definition append_line :: "(nat \<Rightarrow> nat) \<Rightarrow> string \<Rightarrow> log_buffer \<Rightarrow> log_buffer" where
  "append_line grow l b = (case logLines b of (a, n) \<Rightarrow>
     if n < length (arrays b ! a) then
       b\<lparr>arrays := (arrays b)[a := (arrays b ! a)[n := l]], logLines := (a, n + 1)\<rparr>
     else
       b\<lparr>arrays := arrays b @ [take n (arrays b ! a) @ l # replicate (grow n - n - 1) []],
         logLines := (length (arrays b), n + 1)\<rparr>)"

text \<open>The debounced send, with the reset of the buffer; None while the writer is not ready to receive.\<close>

definition flush :: "log_buffer \<Rightarrow> log_buffer option" where
  "flush b = (case logLines b of (a, n) \<Rightarrow>
     if n = 0 then Some b
     else if in_hand b \<noteq> None then None
     else Some (b\<lparr>in_hand := Some (a, n), logLines := (a, 0)\<rparr>))"

text \<open>The writer encodes the message that it holds.\<close>

definition encode :: "log_buffer \<Rightarrow> log_buffer option" where
  "encode b = (case in_hand b of
     None \<Rightarrow> None
   | Some sl \<Rightarrow> Some (b\<lparr>in_hand := None, encoded := encoded b @ [lines_of b sl]\<rparr>))"

datatype log_action = Line string | Flush | Encode

fun perform_action :: "(nat \<Rightarrow> nat) \<Rightarrow> log_action \<Rightarrow> log_buffer \<Rightarrow> log_buffer option" where
  "perform_action grow (Line l) b = Some (append_line grow l b)"
| "perform_action grow Flush b = flush b"
| "perform_action grow Encode b = encode b"

fun log_actions :: "(nat \<Rightarrow> nat) \<Rightarrow> log_action list \<Rightarrow> log_buffer \<Rightarrow> log_buffer option" where
  "log_actions grow [] b = Some b"
| "log_actions grow (a # as) b = Option.bind (perform_action grow a b) (log_actions grow as)"

fun lines_in :: "log_action list \<Rightarrow> string list" where
  "lines_in [] = []"
| "lines_in (Line l # as) = l # lines_in as"
| "lines_in (_ # as) = lines_in as"

section \<open>Prompt encoding\<close>

text \<open>No line is appended while the writer holds a message.\<close>

fun prompt :: "bool \<Rightarrow> log_action list \<Rightarrow> bool" where
  "prompt held [] = True"
| "prompt held (Line l # as) \<longleftrightarrow> \<not> held \<and> prompt False as"
| "prompt held (Flush # as) \<longleftrightarrow> prompt True as"
| "prompt held (Encode # as) \<longleftrightarrow> prompt False as"

text \<open>What the client has been sent, holds in the writer and has in the buffer.\<close>

definition pending :: "log_buffer \<Rightarrow> string list" where
  "pending b = (case in_hand b of None \<Rightarrow> [] | Some sl \<Rightarrow> lines_of b sl)"

definition all_lines :: "log_buffer \<Rightarrow> string list" where
  "all_lines b = concat (encoded b) @ pending b @ lines_of b (logLines b)"

definition in_bounds :: "log_buffer \<Rightarrow> bool" where
  "in_bounds b \<longleftrightarrow> fst (logLines b) < length (arrays b) \<and> snd (logLines b) \<le> length (arrays b ! fst (logLines b))
     \<and> (\<forall>a n. in_hand b = Some (a, n) \<longrightarrow> a < length (arrays b) \<and> n \<le> length (arrays b ! a))"

lemma in_bounds_new: "in_bounds new_buffer"
  by (simp add: in_bounds_def new_buffer_def)

lemma append_line_in_bounds: "in_bounds b \<Longrightarrow> in_bounds (append_line grow l b)"
  by (auto simp: in_bounds_def append_line_def nth_append nth_list_update split: prod.splits)

lemma flush_in_bounds: "in_bounds b \<Longrightarrow> flush b = Some b' \<Longrightarrow> in_bounds b'"
  by (auto simp: in_bounds_def flush_def split: prod.splits if_splits)

lemma encode_in_bounds: "in_bounds b \<Longrightarrow> encode b = Some b' \<Longrightarrow> in_bounds b'"
  by (auto simp: in_bounds_def encode_def split: option.splits)

lemma lines_append_line:
  "in_bounds b \<Longrightarrow> lines_of (append_line grow l b) (logLines (append_line grow l b)) = lines_of b (logLines b) @ [l]"
  by (auto simp: in_bounds_def append_line_def lines_of_def nth_append take_Suc_conv_app_nth split: prod.splits)

lemma append_line_other:
  "in_hand (append_line grow l b) = in_hand b" "encoded (append_line grow l b) = encoded b"
  by (auto simp: append_line_def split: prod.splits)

lemma all_lines_append: "in_bounds b \<Longrightarrow> in_hand b = None \<Longrightarrow> all_lines (append_line grow l b) = all_lines b @ [l]"
  by (simp add: all_lines_def pending_def append_line_other lines_append_line)

lemma all_lines_flush: "flush b = Some b' \<Longrightarrow> all_lines b' = all_lines b"
  by (cases "in_hand b") (auto simp: all_lines_def pending_def flush_def lines_of_def split: prod.splits if_splits)

lemma all_lines_encode: "encode b = Some b' \<Longrightarrow> all_lines b' = all_lines b \<and> in_hand b' = None"
  by (auto simp: all_lines_def pending_def encode_def lines_of_def split: option.splits)

text \<open>
  The same read off the run: every action is possible, and no line is appended while the writer holds
  a message.
\<close>

fun promptly :: "(nat \<Rightarrow> nat) \<Rightarrow> log_action list \<Rightarrow> log_buffer \<Rightarrow> bool" where
  "promptly grow [] b = True"
| "promptly grow (a # as) b =
     ((case a of Line l \<Rightarrow> in_hand b = None | _ \<Rightarrow> True)
      \<and> (case perform_action grow a b of None \<Rightarrow> False | Some b' \<Rightarrow> promptly grow as b'))"

lemma prompt_promptly:
  "prompt held as \<Longrightarrow> in_hand b \<noteq> None \<longrightarrow> held \<Longrightarrow> log_actions grow as b = Some b' \<Longrightarrow> promptly grow as b"
proof (induction held as arbitrary: b rule: prompt.induct)
  case (4 held as)
  then obtain b1 where b1: "encode b = Some b1" "log_actions grow as b1 = Some b'"
    by (auto simp: bind_eq_Some_conv)
  with all_lines_encode [of b b1] 4 show ?case by simp
next
  case (2 held l as)
  then have "in_hand b = None" by (cases "in_hand b") simp_all
  with 2 show ?case by (simp add: append_line_other)
qed (auto simp: bind_eq_Some_conv)

text \<open>The batches handed over, the last of which may still be in the writer's hand, and the buffer.\<close>

definition handed :: "log_buffer \<Rightarrow> string list list" where
  "handed b = encoded b @ (case in_hand b of None \<Rightarrow> [] | Some sl \<Rightarrow> [lines_of b sl])"

definition buffered :: "log_buffer \<Rightarrow> string list" where
  "buffered b = lines_of b (logLines b)"

lemma all_lines_handed: "all_lines b = concat (handed b) @ buffered b"
  by (simp add: all_lines_def handed_def buffered_def pending_def split: option.split)

lemma perform_in_bounds: "in_bounds b \<Longrightarrow> perform_action grow a b = Some b' \<Longrightarrow> in_bounds b'"
  by (cases a) (auto intro: append_line_in_bounds flush_in_bounds encode_in_bounds)

lemma actions_in_bounds: "in_bounds b \<Longrightarrow> log_actions grow as b = Some b' \<Longrightarrow> in_bounds b'"
  by (induction as arbitrary: b) (auto simp: bind_eq_Some_conv dest: perform_in_bounds)

lemma buffered_Nil: "in_bounds b \<Longrightarrow> buffered b = [] \<longleftrightarrow> snd (logLines b) = 0"
  by (auto simp: buffered_def lines_of_def in_bounds_def)

lemma lines_of_pair: "lines_of b (a, n) = take n (arrays b ! a)"
  by (simp add: lines_of_def)

lemma buffered_line: "in_bounds b \<Longrightarrow> buffered (append_line grow l b) = buffered b @ [l]"
  by (simp add: buffered_def lines_append_line)

lemma handed_line:
  "in_bounds b \<Longrightarrow> in_hand b = None \<Longrightarrow>
     handed (append_line grow l b) = handed b \<and> buffered (append_line grow l b) = buffered b @ [l]"
  by (simp add: handed_def buffered_def append_line_other lines_append_line)

lemma handed_flush:
  "flush b = Some b' \<Longrightarrow> in_bounds b \<Longrightarrow>
     handed b' = handed b @ (if buffered b = [] then [] else [buffered b]) \<and> buffered b' = []"
  using buffered_Nil [of b]
  by (cases "in_hand b") (auto simp: flush_def handed_def buffered_def lines_of_def split: prod.splits if_splits)

lemma handed_encode: "encode b = Some b' \<Longrightarrow> handed b' = handed b \<and> buffered b' = buffered b"
  by (auto simp: encode_def handed_def buffered_def lines_of_def split: option.splits)

lemma promptly_all_lines:
  "promptly grow as b \<Longrightarrow> in_bounds b \<Longrightarrow> log_actions grow as b = Some b' \<Longrightarrow>
     all_lines b' = all_lines b @ lines_in as \<and> ([] \<notin> set (handed b) \<longrightarrow> [] \<notin> set (handed b'))"
proof (induction as arbitrary: b)
  case (Cons a as)
  from Cons.prems(3) obtain b1 where b1: "perform_action grow a b = Some b1" "log_actions grow as b1 = Some b'"
    by (auto simp: bind_eq_Some_conv)
  with Cons.prems have p: "promptly grow as b1" "in_bounds b1" by (auto intro: perform_in_bounds)
  have "all_lines b1 = all_lines b @ lines_in [a] \<and> ([] \<notin> set (handed b) \<longrightarrow> [] \<notin> set (handed b1))"
    using Cons.prems b1(1) handed_line [of b grow] handed_flush [of b b1] handed_encode [of b b1]
    by (cases a) (auto simp: all_lines_handed)
  moreover have "lines_in (a # as) = lines_in [a] @ lines_in as" by (cases a) simp_all
  ultimately show ?case using Cons.IH [OF p b1(2)] by simp
qed simp

lemma prompt_all_lines:
  assumes "prompt held as" and "in_bounds b" and "in_hand b \<noteq> None \<longrightarrow> held" and "log_actions grow as b = Some b'"
  shows "all_lines b' = all_lines b @ lines_in as"
  using promptly_all_lines [OF prompt_promptly [OF assms(1,3,4)] assms(2,4)] by simp

section \<open>Late encoding\<close>

lemma log_actions_append:
  "log_actions grow (as @ bs) b = Option.bind (log_actions grow as b) (log_actions grow bs)"
proof (induction as arbitrary: b)
  case (Cons a as)
  then show ?case by (cases "perform_action grow a b") simp_all
qed simp

text \<open>
  Lines \<open>xs\<close> appended after the hand-over of \<open>batch\<close>, which is the slice \<open>(a, length batch)\<close>: they
  are written over the batch, until the array is full.
\<close>

definition overwritten :: "nat \<Rightarrow> string list \<Rightarrow> string list list \<Rightarrow> string list \<Rightarrow> log_buffer \<Rightarrow> bool" where
  "overwritten a batch sent xs b \<longleftrightarrow>
     in_bounds b \<and> in_hand b = Some (a, length batch) \<and> encoded b = sent
     \<and> snd (logLines b) = length xs \<and> buffered b = xs
     \<and> lines_of b (a, length batch) = take (length batch) xs @ drop (length xs) batch
     \<and> (fst (logLines b) = a \<or> length batch \<le> length xs)"

lemma overwrite_at:
  "n = length batch \<Longrightarrow>
     (take n xs @ drop (length xs) batch)[length xs := l]
       = (if length xs < n then take n (xs @ [l]) @ drop (Suc (length xs)) batch
          else take n xs @ drop (length xs) batch)"
  by (auto simp: list_update_append Cons_nth_drop_Suc [symmetric])

lemma overwritten_line:
  assumes "overwritten a batch e xs b"
  shows "overwritten a batch e (xs @ [l]) (append_line grow l b)"
proof -
  let ?b = "append_line grow l b" and ?n = "length batch"
  obtain a1 k where lg: "logLines b = (a1, k)" by fastforce
  from assms lg have ib: "in_bounds b" and hand: "in_hand b = Some (a, ?n)" and k: "k = length xs"
    and buf: "buffered b = xs" and held: "take ?n (arrays b ! a) = take ?n xs @ drop (length xs) batch"
    and at: "a1 = a \<or> ?n \<le> length xs"
    by (simp_all add: overwritten_def lines_of_pair)
  from ib lg hand have len: "a1 < length (arrays b)" "k \<le> length (arrays b ! a1)"
      "a < length (arrays b)" "?n \<le> length (arrays b ! a)"
    by (auto simp: in_bounds_def)
  have full: "take ?n xs @ drop (length xs) batch = take ?n (xs @ [l]) @ drop (Suc (length xs)) batch"
    if "?n \<le> length xs" using that by simp
  have "take ?n (arrays ?b ! a) = take ?n (xs @ [l]) @ drop (Suc (length xs)) batch"
  proof (cases "k < length (arrays b ! a1)")
    case room: True
    show ?thesis
    proof (cases "a1 = a")
      case True
      with room lg have "take ?n (arrays ?b ! a) = (take ?n (arrays b ! a))[k := l]"
        using len by (simp add: append_line_def take_update_swap)
      also have "\<dots> = take ?n (xs @ [l]) @ drop (Suc (length xs)) batch"
        unfolding held k using overwrite_at [OF refl, of batch xs l] full by (simp split: if_splits)
      finally show ?thesis .
    next
      case False
      with room lg len at held full show ?thesis by (simp add: append_line_def)
    qed
  next
    case False
    with lg len have "take ?n (arrays ?b ! a) = take ?n (arrays b ! a)"
      by (simp add: append_line_def nth_append)
    moreover have "?n \<le> length xs" using at False k len by auto
    ultimately show ?thesis using held full by simp
  qed
  moreover have "fst (logLines ?b) = a \<or> ?n \<le> length (xs @ [l])"
    using at lg len k by (auto simp: append_line_def)
  moreover have "snd (logLines ?b) = length (xs @ [l])"
    using lg k by (simp add: append_line_def)
  ultimately show ?thesis
    using assms append_line_in_bounds [OF ib, of grow l] buffered_line [OF ib, of grow l]
    by (simp add: overwritten_def append_line_other lines_of_pair)
qed

lemma overwritten_lines:
  "overwritten a batch e xs b \<Longrightarrow>
     \<exists>b'. log_actions grow (map Line ys) b = Some b' \<and> overwritten a batch e (xs @ ys) b'"
proof (induction ys arbitrary: xs b)
  case (Cons l ys)
  from Cons.IH [OF overwritten_line [OF Cons.prems, of l grow]] show ?case by simp
qed simp

section \<open>Properties\<close>



text \<open>
  C28. Lines that arrive between the hand-over of a batch and its encoding overwrite the batch. In
  every state that the goroutine can reach with the writer idle, let the buffer hold a non-empty
  \<open>batch\<close>. If it is handed over and the lines \<open>xs\<close> arrive before the writer encodes it, the client is
  sent the lines \<open>xs\<close> in place of as many first lines of the batch, which it never gets, and the
  lines \<open>xs\<close> remain in the buffer, to be sent again; whatever the growth of the slice.
\<close>

theorem log_line_overwritten:
  assumes "log_actions grow as new_buffer = Some b" and "in_hand b = None"
    and "lines_of b (logLines b) = batch" and "batch \<noteq> []"
  shows "\<exists>b'. log_actions grow (Flush # map Line xs @ [Encode]) b = Some b'
    \<and> encoded b' = encoded b @ [take (length batch) xs @ drop (length xs) batch]
    \<and> lines_of b' (logLines b') = xs"
proof -
  have ib: "in_bounds b" by (rule actions_in_bounds [OF in_bounds_new assms(1)])
  obtain a n where lg: "logLines b = (a, n)" by fastforce
  with ib assms(3) have n: "n = length batch" by (auto simp: in_bounds_def lines_of_def)
  define b1 where "b1 = b\<lparr>in_hand := Some (a, n), logLines := (a, 0)\<rparr>"
  have f: "flush b = Some b1" using assms(2,4) lg n by (simp add: flush_def b1_def)
  have "overwritten a batch (encoded b) [] b1"
    using flush_in_bounds [OF ib f] assms(3) lg n by (simp add: overwritten_def b1_def buffered_def lines_of_def)
  from overwritten_lines [OF this, of grow xs] obtain b2 where
    b2: "log_actions grow (map Line xs) b1 = Some b2" and o: "overwritten a batch (encoded b) xs b2" by auto
  then have "encode b2 = Some (b2\<lparr>in_hand := None, encoded := encoded b @
      [take (length batch) xs @ drop (length xs) batch]\<rparr>)"
    by (simp add: encode_def overwritten_def)
  moreover have "lines_of (b2\<lparr>in_hand := h, encoded := e\<rparr>) (logLines b2) = xs" for h e
  proof -
    have "lines_of (b2\<lparr>in_hand := h, encoded := e\<rparr>) (logLines b2) = buffered b2"
      by (simp add: lines_of_def buffered_def)
    with o show ?thesis by (simp add: overwritten_def)
  qed
  ultimately show ?thesis using f b2 by (simp add: log_actions_append)
qed

theorem log_line_overwritten_witness:
  "map_option encoded (log_actions (\<lambda>n. 2 * n) [Line ''a'', Line ''b'', Flush, Line ''c'', Encode] new_buffer)
     = Some [[''c'', ''b'']]"
proof -
  obtain b where b: "log_actions (\<lambda>n. 2 * n) [Line ''a'', Line ''b''] new_buffer = Some b" "in_hand b = None"
      "lines_of b (logLines b) = [''a'', ''b'']" "encoded b = []"
    by (simp add: new_buffer_def append_line_def lines_of_def)
  from log_line_overwritten [OF b(1-3), of "[''c'']"] b(4) obtain b' where
    "log_actions (\<lambda>n. 2 * n) (Flush # map Line [''c''] @ [Encode]) b = Some b'" "encoded b' = [[''c'', ''b'']]"
    by auto
  with log_actions_append [of "\<lambda>n. 2 * n" "[Line ''a'', Line ''b'']" "[Flush, Line ''c'', Encode]" new_buffer] b(1)
  show ?thesis by simp
qed

end
