(* ===== verification/Log_Stream.thy ===== *)
theory Log_Stream
  imports Flow_Watcher Log_Buffer
begin

text \<open>
  The two goroutines of a container log put together (\<open>container_log_message_handler.go\<close>): \<open>readLogLines\<close>, which
  scans the stream, and \<open>streamLogLines\<close>, whose select takes the lines and the debounce timer in any order.
  The rounds of \<open>streamLogLines\<close> (\<open>stream_log_round\<close>) send lists of lines, as they are when they are handed over; what
  the writer encodes is read from the memory of \<open>Log_Buffer\<close>, which has the aliasing of \<open>logLines[:0]\<close>. The theorem
  below puts the two together for the schedules on which they agree.
\<close>

section \<open>The reader\<close>

text \<open>
  What a round of the loop of \<open>readLogLines\<close> meets: a context that is done, seen by the condition or by the select, or
  a receiver for the line. The result is the lines sent so far, and whether the channel has been closed.
\<close>

datatype reader_round = ContextDone | SelectDone | SelectLine

fun readLogLines :: "reader_round list \<Rightarrow> string list \<Rightarrow> string list \<times> bool" where
  "readLogLines [] scanned = ([], False)"
| "readLogLines (r # rs) scanned =
     (if r = ContextDone then ([], True)
      else case scanned of
        [] \<Rightarrow> ([], True)
      | l # ls \<Rightarrow>
          if r = SelectDone then ([], True)
          else (case readLogLines rs ls of (sent, isClosed) \<Rightarrow> (l # sent, isClosed)))"

lemma readLogLines_prefix: "readLogLines rs scanned = (sent, b) \<Longrightarrow> \<exists>rest. scanned = sent @ rest"
  by (induction rs scanned arbitrary: sent b rule: readLogLines.induct)
     (fastforce split: if_splits list.splits prod.splits)+

lemma readLogLines_live:
  "readLogLines rs scanned = (sent, True) \<Longrightarrow> set rs \<subseteq> {SelectLine} \<Longrightarrow> sent = scanned"
  by (induction rs scanned arbitrary: sent rule: readLogLines.induct)
     (fastforce split: if_splits list.splits prod.splits)+

section \<open>The messages of a stream\<close>

text \<open>What a goroutine sends to a connection that is not done, up to its next operation of another sort.\<close>

function straight :: "prog \<Rightarrow> message list \<times> prog" where
  "straight p = (case p of
     CheckCtx c q q' \<Rightarrow> straight q'
   | SelectSend c m q \<Rightarrow> (case straight q of (ms, q') \<Rightarrow> (m # ms, q'))
   | _ \<Rightarrow> ([], p))"
  by pat_completeness auto
termination
  by (relation "measure size") auto

declare straight.simps [simp del]

lemma straight_eval [simp]:
  "straight (CheckCtx c q q') = straight q'"
  "straight (SelectSend c m q) = (m # fst (straight q), snd (straight q))"
  "straight (Again l) = ([], Again l)"
  "straight (Call x f) = ([], Call x f)"
  "straight (Send r q) = ([], Send r q)"
  "straight Return = ([], Return)"
  by (simp_all add: straight.simps [of "CheckCtx c q q'"] straight.simps [of "SelectSend c m q"] straight.simps [of "Again l"]
      straight.simps [of "Call x f"] straight.simps [of "Send r q"] straight.simps [of Return] case_prod_unfold)

text \<open>
  The messages for a sequence of events, with the lines that are in the buffer, up to the end of the
  goroutine or its request to unregister the connection. \<open>cerr\<close> is what the deferred close of the
  stream returns.
\<close>

fun log_messages ::
  "go_error option \<Rightarrow> web_conn \<Rightarrow> container_log_data \<Rightarrow> string list \<Rightarrow> log_event list \<Rightarrow> message list" where
  "log_messages cerr c d buf [] = []"
| "log_messages cerr c d buf (e # es) = (case stream_log_round c d buf of
     NextLog c' f \<Rightarrow> (case straight (f e) of
       (ms, Again (LogLoop c' d' buf')) \<Rightarrow> ms @ log_messages cerr c' d' buf' es
     | (ms, Call (CloseStream d') g) \<Rightarrow> ms @ fst (straight (g cerr))
     | (ms, _) \<Rightarrow> ms)
   | _ \<Rightarrow> [])"

definition log_batch :: "container_log_data \<Rightarrow> string list \<Rightarrow> message" where
  "log_batch d ls = ContainerLogList [\<lparr>cl_Kind = ''ContainerLog'', cl_APIVersion = groupVersion,
     cl_Namespace = cld_Namespace d, cl_Name = cld_PodName d, cl_ContainerName = cld_ContainerName d, cl_LogLines = ls\<rparr>]"

definition scan_failure :: "container_log_data \<Rightarrow> go_error \<Rightarrow> message" where
  "scan_failure d e = newWebError (cld_Namespace d) (cld_PodName d) podLogsWebError
     (''failed to scan pod log stream: '' @ pod_path d @ '': '' @ error_text e)"

definition close_failure :: "container_log_data \<Rightarrow> go_error \<Rightarrow> message" where
  "close_failure d e = newWebError (cld_Namespace d) (cld_PodName d) podLogsWebError
     (''failed to close stream for pod logs: '' @ pod_path d @ '': '' @ error_text e)"

text \<open>
  What follows the last event: the lines that wait in the buffer, an empty batch, and the error of the
  close if there is one; after an error of the scanner that error only, which unregisters the connection.
\<close>

definition last_messages ::
  "go_error option \<Rightarrow> container_log_data \<Rightarrow> string list \<Rightarrow> go_error option \<Rightarrow> message list" where
  "last_messages cerr d buf err = (case err of
     None \<Rightarrow> map (log_batch d) ((if buf = [] then [] else [buf]) @ [[]])
       @ (case cerr of None \<Rightarrow> [] | Some e \<Rightarrow> [close_failure d e])
   | Some e \<Rightarrow> [scan_failure d e])"

lemma straight_sendLogLines [simp]:
  "straight (sendLogLines c d ls k) = (log_batch d ls # fst (straight k), snd (straight k))"
  by (simp add: sendLogLines_def sendConn_def log_batch_def containerLogKind_def)

lemma log_messages_line: "log_messages cl c d buf (LogLine l # es) = log_messages cl c d (buf @ [l]) es"
  by (simp add: stream_log_round_def)

lemma log_messages_timer:
  "log_messages cl c d buf (Debounced # es) =
     map (log_batch d) (if buf = [] then [] else [buf]) @ log_messages cl c d [] es"
  by (simp add: stream_log_round_def)

lemma log_messages_end: "log_messages cl c d buf (LogEnd err # es) = last_messages cl d buf err"
  by (cases err; cases cl)
     (simp_all add: stream_log_round_def sendWebErrorAndClose_def sendConn_def scan_failure_def
        close_failure_def close_stream_def last_messages_def)

text \<open>The actions of a schedule as events of the goroutine; the encoding is the writer's.\<close>

fun event_of :: "log_action \<Rightarrow> log_event list" where
  "event_of (Line l) = [LogLine l]"
| "event_of Flush = [Debounced]"
| "event_of Encode = []"

definition events_of :: "log_action list \<Rightarrow> log_event list" where
  "events_of as = concat (map event_of as)"

lemma events_of_simps [simp]: "events_of [] = []" "events_of (a # as) = event_of a @ events_of as"
  by (simp_all add: events_of_def)

text \<open>One action: what it hands over is what the memory holds.\<close>

lemma log_messages_action:
  assumes "in_bounds b" and "perform_action grow a b = Some b1"
    and "\<And>l. a = Line l \<Longrightarrow> in_hand b = None"
  shows "map (log_batch d) (handed b) @ log_messages cl c d (buffered b) (event_of a @ es)
    = map (log_batch d) (handed b1) @ log_messages cl c d (buffered b1) es"
proof (cases a)
  case (Line l)
  with assms handed_line [of b grow l] show ?thesis by (simp add: log_messages_line del: log_messages.simps)
next
  case Flush
  with assms handed_flush [of b b1] show ?thesis by (simp add: log_messages_timer del: log_messages.simps)
next
  case Encode
  with assms handed_encode [of b b1] show ?thesis by simp
qed

lemma log_messages_promptly:
  "promptly grow as b \<Longrightarrow> in_bounds b \<Longrightarrow> log_actions grow as b = Some b' \<Longrightarrow>
     map (log_batch d) (handed b) @ log_messages cl c d (buffered b) (events_of as @ es)
       = map (log_batch d) (handed b') @ log_messages cl c d (buffered b') es"
proof (induction as arbitrary: b)
  case (Cons a as)
  from Cons.prems(3) obtain b1 where b1: "perform_action grow a b = Some b1" "log_actions grow as b1 = Some b'"
    by (auto simp: bind_eq_Some_conv)
  with Cons.prems(1) have p: "promptly grow as b1" and idle: "\<And>l. a = Line l \<Longrightarrow> in_hand b = None" by auto
  have "map (log_batch d) (handed b) @ log_messages cl c d (buffered b) (event_of a @ events_of as @ es)
      = map (log_batch d) (handed b1) @ log_messages cl c d (buffered b1) (events_of as @ es)"
    by (rule log_messages_action [OF Cons.prems(2) b1(1) idle])
  with Cons.IH [OF p perform_in_bounds [OF Cons.prems(2) b1(1)] b1(2)] show ?case by simp
qed simp

section \<open>Properties\<close>

text \<open>
  C26. A client whose connection lasts, and whose writer encodes every batch before the next line
  arrives, gets the log completely and in order, for every order in which the lines and the debounce
  timer come: the messages handed over are what the writer encodes from the memory of the buffer,
  non-empty batches; then, at the end of the log, the lines that still wait in the buffer as one more
  batch, an empty batch that marks the end, and an error if the stream cannot be closed. After an
  error of the scanner the only further message is that error. The batches and the lines in the
  buffer put together are exactly the lines that were scanned, so that after a scanner error exactly
  the lines in the buffer are missing. (Without prompt encoding lines are overwritten: see the
  theorem on late encoding. Both errors ask for the connection to be unregistered; messages after
  that are not covered.)
\<close>

theorem log_stream_complete:
  assumes "readLogLines rs scanned = (lines_in as, True)" and "set rs \<subseteq> {SelectLine}"
    and "promptly grow as new_buffer" and "log_actions grow as new_buffer = Some b" and "in_hand b = None"
  shows "log_messages cerr c d [] (events_of as @ [LogEnd err]) =
      map (log_batch d) (encoded b)
      @ (case err of
           None \<Rightarrow> (if lines_of b (logLines b) = [] then [] else [log_batch d (lines_of b (logLines b))])
             @ [log_batch d []] @ (case cerr of None \<Rightarrow> [] | Some e \<Rightarrow> [close_failure d e])
         | Some e \<Rightarrow> [scan_failure d e])
    \<and> [] \<notin> set (encoded b)
    \<and> scanned = concat (encoded b) @ lines_of b (logLines b)"
proof -
  have new: "handed new_buffer = []" "buffered new_buffer = []"
    by (simp_all add: handed_def buffered_def new_buffer_def lines_of_def)
  have hand: "handed b = encoded b" using assms(5) by (simp add: handed_def)
  have "log_messages cerr c d [] (events_of as @ [LogEnd err])
      = map (log_batch d) (encoded b) @ last_messages cerr d (buffered b) err"
    using log_messages_promptly [OF assms(3) in_bounds_new assms(4), of d cerr c "[LogEnd err]"]
    by (simp add: new hand log_messages_end del: log_messages.simps)
  moreover have "all_lines b = lines_in as" "[] \<notin> set (encoded b)"
    using promptly_all_lines [OF assms(3) in_bounds_new assms(4)] new hand by (simp_all add: all_lines_handed)
  moreover have "scanned = lines_in as" using readLogLines_live [OF assms(1,2)] by simp
  ultimately show ?thesis
    by (simp add: last_messages_def buffered_def all_lines_handed hand split: option.split)
qed

lemma log_stream_complete_witness:
  "log_messages (Some (LibError ''broken'')) \<lparr>conn_Id = 1, isAuxWs = True\<rparr>
       \<lparr>cld_Namespace = ''dev'', cld_PodName = ''p'', cld_ContainerName = ''main''\<rparr> []
       [Debounced, LogLine ''a'', LogLine ''b'', Debounced, LogLine ''c'', LogEnd None]
     = map (log_batch \<lparr>cld_Namespace = ''dev'', cld_PodName = ''p'', cld_ContainerName = ''main''\<rparr>)
         [[''a'', ''b''], [''c''], []]
       @ [close_failure \<lparr>cld_Namespace = ''dev'', cld_PodName = ''p'', cld_ContainerName = ''main''\<rparr> (LibError ''broken'')]"
proof -
  let ?c = "\<lparr>conn_Id = 1, isAuxWs = True\<rparr>"
  let ?d = "\<lparr>cld_Namespace = ''dev'', cld_PodName = ''p'', cld_ContainerName = ''main''\<rparr>"
  let ?as = "[Flush, Line ''a'', Line ''b'', Flush, Encode, Line ''c'']"
  have r: "readLogLines [SelectLine, SelectLine, SelectLine, SelectLine] [''a'', ''b'', ''c''] = (lines_in ?as, True)"
    by simp
  obtain b where b: "log_actions (\<lambda>n. 2 * n) ?as new_buffer = Some b" "in_hand b = None"
      "encoded b = [[''a'', ''b'']]" "lines_of b (logLines b) = [''c'']"
    by (simp add: new_buffer_def append_line_def flush_def encode_def lines_of_def)
  have p: "promptly (\<lambda>n. 2 * n) ?as new_buffer"
    by (simp add: new_buffer_def append_line_def flush_def encode_def lines_of_def)
  from log_stream_complete [OF r _ p b(1,2), of "Some (LibError ''broken'')" ?c ?d None] b(3,4)
  show ?thesis by (simp del: log_messages.simps)
qed

end
