(* ===== verification/Spec2Isabelle.thy ===== *)
theory Spec2Isabelle
  imports Sensor_Properties Start_Up Watcher_Properties Log_Buffer Log_Stream
begin

text \<open>
  \<^bold>\<open>Verification of the Jettison controller.\<close>

  The program is a Kubernetes controller in Go. A \<open>Flow\<close> lists triggers (GitHub pull requests and pushes) and
  steps (Docker builds, ArgoCD deployments, pull requests). The reconciler turns each flow into cluster
  objects: an Argo Events sensor whose trigger submits a workflow, an event source, ArgoCD projects and
  applications, and the objects that the flows of a namespace share. A web server shows flows and related
  objects to browsers over websockets and passes their requests on.

  \<^bold>\<open>Parts, theories and code\<close>

  \<^item> \<open>Prelude\<close>, \<open>Effects\<close>: Go errors and panics as the values of a sum, early returns, traversal of slices;
    calls that change the state of the world and keep their effects when they fail. \<open>Go_Strings\<close>: the
    functions of \<open>strings\<close>, \<open>strconv\<close> and \<open>path\<close> that the code calls, \<open>TrimSpace\<close> on UTF-8 included. \<open>Json\<close>: decoding of JSON
    into structs as \<open>encoding/json\<close> does.
  \<^item> \<open>Flow_Types\<close>, \<open>Flow_Processor\<close> (\<open>api/v1alpha1\<close>): the types, and \<open>PreProcessFlow\<close> with \<open>parseTriggers\<close>,
    \<open>parseSteps\<close>, \<open>applyDefaults\<close> and \<open>validate\<close>. The locale \<open>defaulting\<close> is the contract of the defaults
    of triggers and of steps.
  \<^item> \<open>Gitutil\<close> (\<open>internal/gitutil\<close>): the owner and name of a repository URL.
  \<^item> \<open>Cluster_Builders\<close> (\<open>eventbusbuilder\<close>, \<open>pvcbuilder\<close>, \<open>rbacbuilder\<close>, \<open>eventsourcebuilder\<close>, and
    \<open>mergeOwnedRepos\<close> of \<open>flow_controller.go\<close>), \<open>App_Builder\<close> (\<open>appbuilder\<close>), \<open>Workflow_Templates\<close>
    (\<open>internal/workflowtemplates\<close>): the objects as the code builds them.
  \<^item> \<open>Step_Dependencies\<close>, \<open>Sensor_Builder\<close>, \<open>Sensor_Properties\<close> (\<open>sensorbuilder\<close>): the graph of steps, its
    search for Dockerfiles, the sensor with its parameters and workflow, and what that workflow promises.
  \<^item> \<open>Gh_Settings\<close> (\<open>ghsettings\<close>): repository settings and the default ruleset. The locale \<open>settings_sync\<close>
    (and \<open>settings_default\<close>, for settings behind a pointer) is the contract that every group of settings meets.
  \<^item> \<open>Kube_Api\<close>, \<open>Reconciler\<close> (\<open>flow_controller.go\<close>, \<open>flow_conditions.go\<close>): \<open>Reconcile\<close> on the state
    \<open>rstate\<close>, the world and the sets of synchronised names. \<open>Reconciler_Objects\<close> has the single
    objects, \<open>Reconciler_Runs\<close> whole runs, \<open>Reconciler_Progress\<close> success, \<open>Kube_Store\<close> a cluster on which all
    hypotheses hold, \<open>Reconciler_Properties\<close> the theorems on one run, \<open>Reconciler_Stability\<close> repeated runs.
  \<^item> \<open>Web_Messages\<close> (\<open>webmessage.go\<close>, \<open>weberror.go\<close>, \<open>webconn.go\<close>): what clients send and get.
  \<^item> \<open>Goroutines\<close>, \<open>Flow_Watcher\<close> (\<open>flow_watcher.go\<close>, \<open>container_log_message_handler.go\<close> and the other
    message handlers): each goroutine as a program, a tree of operations on channels, contexts, maps and
    libraries. \<open>Watcher_Steps\<close> runs them, with all interleavings, from the state \<open>start\<close>;
    \<open>Watcher_Invariant\<close>, \<open>Watcher_Delivery\<close>, \<open>Watcher_Wedge\<close>, \<open>Watcher_Progress\<close> and \<open>Watcher_Properties\<close> show
    what holds of every run. The locale \<open>inductive_invariant\<close> is the induction over reachable states.
  \<^item> \<open>Log_Buffer\<close>, \<open>Log_Stream\<close> (\<open>readLogLines\<close>, \<open>streamLogLines\<close>): the slice of the lines of a container log with its
    backing arrays, which the messages share; and the messages of a log, put together with that memory.
  \<^item> \<open>Argo_Sync\<close> (\<open>argosync.go\<close>), \<open>Web_Server\<close> (\<open>flow_webserver.go\<close>, \<open>workflow_mysql.go\<close>): the cache of the
    session token, in \<open>int64\<close> seconds; the HTTP handlers and the archived workflows. \<open>Web_Setup\<close>:
    \<open>SetupWithManager\<close> of the web server with its effects, the routes and their way through \<open>http.ServeMux\<close>; the
    locale \<open>disjoint_routes\<close> is the contract of a table whose order does not matter.
  \<^item> \<open>Pod_Index\<close>, \<open>Start_Up\<close> (\<open>cmd/main.go\<close>): the index of pods; the flags, the options, and \<open>main\<close> as the sequence of
    its steps, which puts the reconciler and the web server together.

  \<^bold>\<open>What the theorems show\<close>

  \<^item> Preprocessing never panics, succeeds for exactly the flows described, gives complete triggers and steps of
    their declared types, and is idempotent; a trigger survives a round trip through JSON iff its source is that of its type.
  \<^item> The workflow of a sensor exists for exactly the flows described (if no publishing step has an empty Dockerfile
    path), has one task for each trigger and step, whose dependency expression holds when all its dependencies have
    succeeded (\<open>depends_holds\<close>), calls each template with exactly the inputs it needs, and refers to declared
    parameters except in one case found. The Dockerfile search agrees with reachability over \<open>dependsOn\<close>; an empty
    path, which it takes for "none found", is the exception that its theorem describes. Where step names repeat, the
    last step of a name decides (\<open>last_named\<close>). Triggers fill all parameters, except several pull-request triggers.
  \<^item> A reconciliation without error leaves every object of the flow in sync; one of a flow in sync writes
    nothing, so that after one successful run no further one changes anything; whatever fails, the
    reconciler's sets stay truthful; and against APIs that answer a run succeeds, the synchronisation of the GitHub
    settings included. GitHub settings end in sync, and are not written to when they are (with one page of rulesets).
  \<^item> The watcher refines a sequential machine (\<open>abstract_serve\<close>) over the requests in order of acceptance;
    its run loop never panics or closes a channel twice; notifications reach exactly their connections, and the first
    list of a subscription has exactly the pods whose events follow. While nothing fails the run loop can always come
    back to its select; after a failure it can be stuck for ever (\<open>wedged\<close>), and a goroutine that sends late ends the process.
  \<^item> If each batch of a log is encoded before the next line arrives, the client gets the log completely, in non-empty
    batches and with its end or error marked; lines that arrive earlier overwrite the batch, whatever its length.
    Tokens are less than twelve hours old.
  \<^item> The manager is started only when everything before it is set up, in a fixed order; then every request is
    answered by the handler of its route, and archived workflows are served when the cluster has none.

  \<^bold>\<open>Hypotheses\<close>

  Code outside the repository is a parameter. What is assumed of it is stated as predicates: \<open>lawful_objects\<close>
  and \<open>lawful_flows\<close> (a read returns what is stored and changes nothing, a write that succeeds stores
  the object or the status, one that fails may or may not have taken effect on that object alone), \<open>github_apart\<close> (GitHub calls
  do not change the cluster), for progress only \<open>responsive\<close> (the calls of the Kubernetes client succeed: creations,
  deletions, and updates that keep the immutable parts of an object; no update of a volume claim), \<open>claim_sized\<close> (the
  claim of the namespace need not be resized) and \<open>answering\<close> (the calls of the GitHub client succeed, for settings that
  comply with the policy), \<open>lawful_reads\<close> and its companions of
  \<open>Gh_Settings\<close> (documented behaviour of the GitHub REST API), \<open>cached_list\<close> (a list from the cache by namespace and
  index). \<open>Kube_Store\<close> and the sample clients of the witnesses
  satisfy them. \<open>stored\<close>, in the first of these, idealises two things: that an object reads back equal to what was
  sent under the comparison of the code, the raw JSON of a sensor's workflow included, and that the cached reads of
  the client see its own writes. The steps of the watcher need no hypothesis: cluster, clients and sockets may do anything at any time.

  \<^bold>\<open>Termination and bounds\<close>

  All functions but one are total: the breadth-first search terminates by the steps not yet visited, and the
  retries of \<open>SyncWorkflowTemplates\<close>, a partial function, return as soon as one attempt succeeds. The loops of
  goroutines are unfolded one round at a time (\<open>round_of\<close>), so that no fuel is needed. The times of \<open>Argo_Sync\<close> are
  64-bit words, with the range in which the refresh threshold does not overflow.

  \<^bold>\<open>Not modelled\<close>

  \<^item> Logging, and reads of the clock other than those of \<open>Argo_Sync\<close>: they do not influence the results.
  \<^item> The parsing of command-line flags, the options of the logger, and the registration of the API types with the scheme
    (\<open>init\<close> of \<open>main.go\<close>, \<open>groupversion_info.go\<close>): calls of libraries with constants.
  \<^item> Paths that \<open>http.ServeMux\<close> redirects to a cleaner path, and the headers of answers.
  \<^item> \<open>zz_generated.deepcopy.go\<close>: copies of structs; values of the model are never shared.
  \<^item> The in-place changes that the informer callbacks make to objects of the informer's cache, and the
    order in which an informer calls its callbacks: every order is allowed, which includes the real one.
  \<^item> In the interleavings of \<open>Watcher_Steps\<close> the lines, the end and the errors of \<open>readLogLines\<close> are events of the log
    stream, in any order; \<open>Log_Stream\<close> has the goroutine itself.
  \<^item> The tests, their fixtures and the end-to-end clients (\<open>internal/testutil\<close>, \<open>test/e2e\<close>), which are not part of the program.
\<close>

end
